(* ===== verification/Go_Prelude.thy ===== *)
theory Go_Prelude
  imports Main
begin

text \<open>
  Shared vocabulary of the development.  The Go client mutates structs through pointers and
  reports a broken contract by \<open>panic\<close>; both are made explicit by a small state-and-panic
  computation type \<open>('s, 'e, 'a) go\<close>: a state transformer that returns either a panic value
  (\<open>Inl\<close>) or a result (\<open>Inr\<close>) together with the state at that moment.  The state
  survives a panic, as it does in Go when a deferred \<open>recover\<close> runs.

  The theory holds the sequencing operations, a Hoare-style rule set for them (collections
  \<open>go_simps\<close>, \<open>go_keeps\<close>), and list and map lemmas used by several components.
\<close>

section \<open>Computations with state and panic\<close>

type_synonym bytes = string
type_synonym ('s, 'e, 'a) go = "'s \<Rightarrow> ('e + 'a) \<times> 's"

named_theorems go_simps \<open>unfolding of the sequencing operations\<close>
named_theorems go_keeps \<open>composition rules for invariants of computations\<close>

definition go_return :: "'a \<Rightarrow> ('s, 'e, 'a) go" where
  "go_return a s = (Inr a, s)"

definition go_panic :: "'e \<Rightarrow> ('s, 'e, 'a) go" where
  "go_panic e s = (Inl e, s)"

definition go_bind :: "('s, 'e, 'a) go \<Rightarrow> ('a \<Rightarrow> ('s, 'e, 'b) go) \<Rightarrow> ('s, 'e, 'b) go" where
  "go_bind m f s = (case m s of (Inl e, s') \<Rightarrow> (Inl e, s') | (Inr a, s') \<Rightarrow> f a s')"

definition go_then :: "('s, 'e, 'a) go \<Rightarrow> ('s, 'e, 'b) go \<Rightarrow> ('s, 'e, 'b) go" where
  "go_then m k = go_bind m (\<lambda>_. k)"

definition go_get :: "('s \<Rightarrow> 'a) \<Rightarrow> ('s, 'e, 'a) go" where
  "go_get g s = (Inr (g s), s)"

definition go_modify :: "('s \<Rightarrow> 's) \<Rightarrow> ('s, 'e, unit) go" where
  "go_modify f s = (Inr (), f s)"

lemmas go_op_defs = go_return_def go_panic_def go_get_def go_modify_def
declare go_op_defs [go_simps]

lemma go_bind_Inr [go_simps]: "m s = (Inr a, s') \<Longrightarrow> go_bind m f s = f a s'"
  by (simp add: go_bind_def)

lemma go_bind_Inl [go_simps]: "m s = (Inl e, s') \<Longrightarrow> go_bind m f s = (Inl e, s')"
  by (simp add: go_bind_def)

lemma go_then_Inr [go_simps]: "m s = (Inr a, s') \<Longrightarrow> go_then m k s = k s'"
  by (simp add: go_then_def go_bind_def)

lemma go_then_Inl [go_simps]: "m s = (Inl e, s') \<Longrightarrow> go_then m k s = (Inl e, s')"
  by (simp add: go_then_def go_bind_def)

lemma go_bind_return [simp]: "go_bind (go_return a) f = f a"
  by (rule ext) (simp add: go_bind_def go_return_def)

lemma go_bind_return_right [simp]: "go_bind m go_return = m"
  by (rule ext) (simp add: go_bind_def go_return_def split: prod.splits sum.splits)

lemma go_bind_assoc: "go_bind (go_bind m f) g = go_bind m (\<lambda>a. go_bind (f a) g)"
  by (rule ext) (simp add: go_bind_def split: prod.splits sum.splits)

lemma go_bind_panic [simp]: "go_bind (go_panic e) f = go_panic e"
  by (rule ext) (simp add: go_bind_def go_panic_def)

lemma go_bind_get [go_simps]: "go_bind (go_get g) f s = f (g s) s"
  by (simp add: go_bind_def go_get_def)

lemma go_bind_modify [go_simps]: "go_bind (go_modify u) f s = f () (u s)"
  by (simp add: go_bind_def go_modify_def)

lemma go_then_modify [go_simps]: "go_then (go_modify u) k s = k (u s)"
  by (simp add: go_then_def go_bind_modify)

lemma go_bind_eq_Inr:
  "go_bind m f s = (Inr b, t) \<longleftrightarrow> (\<exists>a s'. m s = (Inr a, s') \<and> f a s' = (Inr b, t))"
  by (auto simp: go_bind_def split: prod.splits sum.splits)

lemma go_then_eq_Inr:
  "go_then m k s = (Inr b, t) \<longleftrightarrow> (\<exists>a s'. m s = (Inr a, s') \<and> k s' = (Inr b, t))"
  by (simp add: go_then_def go_bind_eq_Inr)

subsection \<open>Invariants of computations\<close>

text \<open>
  \<open>go_inv I m\<close>: run from a state with \<open>I\<close>, the computation ends in a state with
  \<open>I\<close>, whether it returns or panics.  \<open>go_hoare P m Q E\<close> is the full triple, with
  separate postconditions for a result and for a panic.
\<close>

definition go_inv :: "('s \<Rightarrow> bool) \<Rightarrow> ('s, 'e, 'a) go \<Rightarrow> bool" where
  "go_inv I m \<longleftrightarrow> (\<forall>s. I s \<longrightarrow> I (snd (m s)))"

definition go_hoare ::
  "('s \<Rightarrow> bool) \<Rightarrow> ('s, 'e, 'a) go \<Rightarrow> ('a \<Rightarrow> 's \<Rightarrow> bool) \<Rightarrow> ('e \<Rightarrow> 's \<Rightarrow> bool) \<Rightarrow> bool" where
  "go_hoare P m Q E \<longleftrightarrow>
     (\<forall>s. P s \<longrightarrow> (case m s of (Inr a, t) \<Rightarrow> Q a t | (Inl e, t) \<Rightarrow> E e t))"

lemma go_invI: "(\<And>s. I s \<Longrightarrow> I (snd (m s))) \<Longrightarrow> go_inv I m"
  by (simp add: go_inv_def)

lemma go_invD: "go_inv I m \<Longrightarrow> I s \<Longrightarrow> I (snd (m s))"
  by (simp add: go_inv_def)

lemma go_inv_return [go_keeps]: "go_inv I (go_return a)"
  by (simp add: go_inv_def go_return_def)

lemma go_inv_panic [go_keeps]: "go_inv I (go_panic e)"
  by (simp add: go_inv_def go_panic_def)

lemma go_inv_get [go_keeps]: "go_inv I (go_get g)"
  by (simp add: go_inv_def go_get_def)

lemma go_inv_modify: "(\<And>s. I s \<Longrightarrow> I (f s)) \<Longrightarrow> go_inv I (go_modify f)"
  by (simp add: go_inv_def go_modify_def)

lemma go_inv_bind [go_keeps]:
  assumes "go_inv I m" and "\<And>a. go_inv I (f a)"
  shows "go_inv I (go_bind m f)"
proof (rule go_invI)
  fix s assume "I s"
  with assms(1) have "I (snd (m s))" by (rule go_invD)
  with assms(2) show "I (snd (go_bind m f s))"
    by (auto simp: go_bind_def go_inv_def split: prod.splits sum.splits)
qed

lemma go_inv_then [go_keeps]: "go_inv I m \<Longrightarrow> go_inv I k \<Longrightarrow> go_inv I (go_then m k)"
  by (simp add: go_then_def go_inv_bind)

lemma go_inv_if [go_keeps]:
  "(b \<Longrightarrow> go_inv I m) \<Longrightarrow> (\<not> b \<Longrightarrow> go_inv I k) \<Longrightarrow> go_inv I (if b then m else k)"
  by simp

lemma go_inv_option [go_keeps]:
  "(x = None \<Longrightarrow> go_inv I m) \<Longrightarrow> (\<And>a. x = Some a \<Longrightarrow> go_inv I (f a)) \<Longrightarrow>
   go_inv I (case x of None \<Rightarrow> m | Some a \<Rightarrow> f a)"
  by (cases x) simp_all

lemma go_inv_sum [go_keeps]:
  "(\<And>e. x = Inl e \<Longrightarrow> go_inv I (f e)) \<Longrightarrow> (\<And>a. x = Inr a \<Longrightarrow> go_inv I (g a)) \<Longrightarrow>
   go_inv I (case x of Inl e \<Rightarrow> f e | Inr a \<Rightarrow> g a)"
  by (cases x) simp_all

lemma go_inv_prod [go_keeps]:
  "(\<And>a b. x = (a, b) \<Longrightarrow> go_inv I (f a b)) \<Longrightarrow> go_inv I (case x of (a, b) \<Rightarrow> f a b)"
  by (cases x) simp

text \<open>A deferred \<open>recover\<close>: a panic is handed to the handler, in the state it left behind.\<close>

definition go_recover :: "('s, 'e, 'a) go \<Rightarrow> ('e \<Rightarrow> ('s, 'e, 'a) go) \<Rightarrow> ('s, 'e, 'a) go" where
  "go_recover m h s = (case m s of (Inl e, s') \<Rightarrow> h e s' | (Inr a, s') \<Rightarrow> (Inr a, s'))"

lemma go_inv_recover [go_keeps]:
  "go_inv I m \<Longrightarrow> (\<And>p. go_inv I (h p)) \<Longrightarrow> go_inv I (go_recover m h)"
  by (auto simp: go_inv_def go_recover_def split: prod.splits sum.splits)

lemma go_hoare_bind:
  assumes "go_hoare P m R E" and "\<And>a. go_hoare (R a) (f a) Q E"
  shows "go_hoare P (go_bind m f) Q E"
  unfolding go_hoare_def
proof (intro allI impI)
  fix s assume "P s"
  with assms(1) have *: "case m s of (Inr a, t) \<Rightarrow> R a t | (Inl e, t) \<Rightarrow> E e t"
    by (simp add: go_hoare_def)
  show "case go_bind m f s of (Inr a, t) \<Rightarrow> Q a t | (Inl e, t) \<Rightarrow> E e t"
  proof (cases "m s")
    case (Pair r t)
    show ?thesis
    proof (cases r)
      case (Inl e)
      with Pair * show ?thesis by (simp add: go_bind_def)
    next
      case (Inr a)
      with Pair * have "R a t" by simp
      with assms(2) [of a] Pair Inr show ?thesis
        by (simp add: go_bind_def go_hoare_def)
    qed
  qed
qed

lemma go_hoare_inv: "go_inv I m \<longleftrightarrow> go_hoare I m (\<lambda>_. I) (\<lambda>_. I)"
proof -
  have "(case r of (Inr a, t) \<Rightarrow> I t | (Inl e, t) \<Rightarrow> I t) = I (snd r)" for r :: "('b + 'c) \<times> 'a"
    by (simp split: prod.split sum.split)
  then show ?thesis by (simp add: go_inv_def go_hoare_def)
qed

section \<open>Lists\<close>

lemma set_remove1_distinct [simp]: "distinct xs \<Longrightarrow> set (remove1 x xs) = set xs - {x}"
  by (rule set_remove1_eq)

lemma map_remove1_inj:
  "inj_on f (insert x (set xs)) \<Longrightarrow> map f (remove1 x xs) = remove1 (f x) (map f xs)"
  by (induction xs) (auto simp: inj_on_def)

lemma map_remove1_filter:
  "distinct xs \<Longrightarrow> remove1 x xs = filter (\<lambda>y. y \<noteq> x) xs"
  by (rule distinct_remove1_removeAll [THEN trans]) (simp_all add: removeAll_filter_not_eq eq_commute)

text \<open>The element after \<open>x\<close> in a list of distinct handles: \<open>Element.Next()\<close> of Go's
  \<open>container/list\<close>.\<close>

fun list_next :: "'a \<Rightarrow> 'a list \<Rightarrow> 'a option" where
  "list_next x [] = None"
| "list_next x (y # ys) =
     (if x = y then (case ys of [] \<Rightarrow> None | z # _ \<Rightarrow> Some z) else list_next x ys)"

definition list_front :: "'a list \<Rightarrow> 'a option" where
  "list_front xs = (case xs of [] \<Rightarrow> None | x # _ \<Rightarrow> Some x)"

text \<open>\<open>MoveToBack\<close>: no effect on an element that is not in the list.\<close>

definition list_move_to_back :: "'a \<Rightarrow> 'a list \<Rightarrow> 'a list" where
  "list_move_to_back x xs = (if x \<in> set xs then remove1 x xs @ [x] else xs)"

lemma set_list_move_to_back [simp]: "distinct xs \<Longrightarrow> set (list_move_to_back x xs) = set xs"
  by (auto simp: list_move_to_back_def)

lemma distinct_list_move_to_back [simp]:
  "distinct xs \<Longrightarrow> distinct (list_move_to_back x xs)"
  by (auto simp: list_move_to_back_def)

lemma list_next_append:
  "distinct (pre @ x # post) \<Longrightarrow> list_next x (pre @ x # post) = list_front post"
  by (induction pre) (auto simp: list_front_def split: list.splits)

end
