(* ===== verification/Thrift_Types.thy ===== *)
theory Thrift_Types
  imports Complex_Main Go_Prelude "HOL-Library.Word"
begin

text \<open>
  The thrift structs of \<open>src/.gen/go/shared/shared.go\<close> that the client's core logic reads
  and writes.  A pointer to a scalar is an \<open>option\<close>; the generated getters
  (\<open>GetActivityId()\<close> and so on) return the zero value for \<open>nil\<close> and are the
  functions \<open>get_str\<close> and \<open>get_int\<close>.  A pointer to a struct whose only field is a
  name (\<open>ActivityType\<close>, \<open>WorkflowType\<close>) is collapsed to the optional name, since every
  reader goes through the nil-safe getter.  A Go map of header, memo or search attribute
  fields is the list of its entries, one per key.  A \<open>Decision\<close> is a struct with a type tag and
  one non-nil attribute pointer for that tag; it is a tagged union here.
\<close>

type_synonym i32 = "32 word"
type_synonym i64 = "64 word"
type_synonym nbytes = "bytes option" \<comment> \<open>a byte slice whose nil value is observed\<close>
type_synonym fields = "(string \<times> bytes) list" \<comment> \<open>the entries of a \<open>map[string][]byte\<close>\<close>

definition get_str :: "string option \<Rightarrow> string" where
  "get_str x = (case x of None \<Rightarrow> [] | Some v \<Rightarrow> v)"

definition get_int :: "int option \<Rightarrow> int" where
  "get_int x = (case x of None \<Rightarrow> 0 | Some v \<Rightarrow> v)"

lemma get_str_simps [simp]: "get_str None = []" "get_str (Some v) = v"
  by (simp_all add: get_str_def)

lemma get_int_simps [simp]: "get_int None = 0" "get_int (Some v) = v"
  by (simp_all add: get_int_def)

datatype TaskListKind = TaskListKindNormal | TaskListKindSticky | TaskListKindEphemeral

record TaskList =
  tl_Name :: "string option"
  tl_Kind :: "TaskListKind option"

record ThriftRetryPolicy =
  trp_InitialIntervalInSeconds :: "int option"
  trp_BackoffCoefficient :: "rat option"
  trp_MaximumIntervalInSeconds :: "int option"
  trp_MaximumAttempts :: "int option"
  trp_NonRetriableErrorReasons :: "string list"
  trp_ExpirationIntervalInSeconds :: "int option"

datatype ParentClosePolicyT =
  ParentClosePolicyAbandon | ParentClosePolicyRequestCancel | ParentClosePolicyTerminate

datatype WorkflowIdReusePolicyT =
    WorkflowIdReusePolicyAllowDuplicateFailedOnly
  | WorkflowIdReusePolicyAllowDuplicate
  | WorkflowIdReusePolicyRejectDuplicate
  | WorkflowIdReusePolicyTerminateIfRunning

record WorkflowExecutionT =
  we_WorkflowId :: "string option"
  we_RunId :: "string option"

section \<open>Decision attributes\<close>

record ScheduleActivityTaskDecisionAttributes =
  sat_ActivityId :: "string option"
  sat_ActivityType :: "string option"
  sat_Domain :: "string option"
  sat_TaskList :: "TaskList option"
  sat_Input :: bytes
  sat_ScheduleToCloseTimeoutSeconds :: "int option"
  sat_ScheduleToStartTimeoutSeconds :: "int option"
  sat_StartToCloseTimeoutSeconds :: "int option"
  sat_HeartbeatTimeoutSeconds :: "int option"
  sat_RetryPolicy :: "ThriftRetryPolicy option"
  sat_Header :: "fields option"
  sat_RequestLocalDispatch :: "bool option"

record StartTimerDecisionAttributes =
  st_TimerId :: "string option"
  st_StartToFireTimeoutSeconds :: "int option"

record StartChildWorkflowExecutionDecisionAttributes =
  scw_Domain :: "string option"
  scw_WorkflowId :: "string option"
  scw_WorkflowType :: "string option"
  scw_TaskList :: "TaskList option"
  scw_Input :: bytes
  scw_ExecutionStartToCloseTimeoutSeconds :: "int option"
  scw_TaskStartToCloseTimeoutSeconds :: "int option"
  scw_ParentClosePolicy :: "ParentClosePolicyT option"
  scw_WorkflowIdReusePolicy :: "WorkflowIdReusePolicyT option"
  scw_RetryPolicy :: "ThriftRetryPolicy option"
  scw_CronSchedule :: "string option"
  scw_Header :: "fields option"
  scw_Memo :: "fields option"
  scw_SearchAttributes :: "fields option"

record RequestCancelExternalWorkflowExecutionDecisionAttributes =
  rce_Domain :: "string option"
  rce_WorkflowId :: "string option"
  rce_RunId :: "string option"
  rce_Control :: bytes
  rce_ChildWorkflowOnly :: "bool option"

record SignalExternalWorkflowExecutionDecisionAttributes =
  sew_Domain :: "string option"
  sew_Execution :: "WorkflowExecutionT option"
  sew_SignalName :: "string option"
  sew_Input :: bytes
  sew_Control :: bytes
  sew_ChildWorkflowOnly :: "bool option"

record RecordMarkerDecisionAttributes =
  rm_MarkerName :: "string option"
  rm_Details :: bytes

record ContinueAsNewWorkflowExecutionDecisionAttributes =
  can_WorkflowType :: "string option"
  can_Input :: bytes
  can_TaskList :: "TaskList option"
  can_ExecutionStartToCloseTimeoutSeconds :: "int option"
  can_TaskStartToCloseTimeoutSeconds :: "int option"
  can_Header :: "fields option"
  can_Memo :: "fields option"
  can_SearchAttributes :: "fields option"
  can_RetryPolicy :: "ThriftRetryPolicy option"
  can_CronSchedule :: "string option"

datatype Decision =
    ScheduleActivityTask ScheduleActivityTaskDecisionAttributes
  | RequestCancelActivityTask "string option" \<comment> \<open>\<open>ActivityId\<close>\<close>
  | StartTimer StartTimerDecisionAttributes
  | CancelTimer "string option" \<comment> \<open>\<open>TimerId\<close>\<close>
  | CompleteWorkflowExecution bytes \<comment> \<open>\<open>Result\<close>\<close>
  | FailWorkflowExecution "string option" bytes \<comment> \<open>\<open>Reason\<close>, \<open>Details\<close>\<close>
  | CancelWorkflowExecution bytes \<comment> \<open>\<open>Details\<close>\<close>
  | ContinueAsNewWorkflowExecution ContinueAsNewWorkflowExecutionDecisionAttributes
  | StartChildWorkflowExecution StartChildWorkflowExecutionDecisionAttributes
  | RequestCancelExternalWorkflowExecution RequestCancelExternalWorkflowExecutionDecisionAttributes
  | SignalExternalWorkflowExecution SignalExternalWorkflowExecutionDecisionAttributes
  | RecordMarker RecordMarkerDecisionAttributes
  | UpsertWorkflowSearchAttributes "fields option" \<comment> \<open>\<open>SearchAttributes\<close>\<close>

end
