(* ===== verification/Decision_Machine.thy ===== *)
theory Decision_Machine
  imports Thrift_Types
begin

text \<open>
  The decision state machines of \<open>src/internal/internal_decision_state_machine.go\<close>.
  Every activity, timer, child workflow, external cancellation, external signal, marker and
  search-attribute upsert that workflow code asks for is one machine; it turns into
  decisions sent to the service and is driven by the history events that come back.

  A machine is a heap object (\<open>ref\<close>) of the \<^emph>\<open>decisions helper\<close>, because
  \<open>moveState\<close> removes a completed machine from the helper's list and map.  The Go type
  embeds \<open>decisionStateMachineBase\<close> and overrides methods; here each method of each
  struct is one definition and the interface call is the definition that dispatches on the
  struct (\<open>machineKind\<close>).  The list element that carries a machine is identified with the
  machine's own reference: every machine is pushed exactly once, by \<open>addDecision\<close>, so
  the two stand in bijection.
\<close>

section \<open>Data\<close>

datatype decisionState =
    decisionStateCreated
  | decisionStateDecisionSent
  | decisionStateCanceledBeforeInitiated
  | decisionStateInitiated
  | decisionStateStarted
  | decisionStateCanceledAfterInitiated
  | decisionStateCanceledAfterStarted
  | decisionStateCancellationDecisionSent
  | decisionStateCompletedAfterCancellationDecisionSent
  | decisionStateCompleted

datatype decisionType =
    decisionTypeActivity
  | decisionTypeChildWorkflow
  | decisionTypeCancellation
  | decisionTypeMarker
  | decisionTypeTimer
  | decisionTypeSignal
  | decisionTypeUpsertSearchAttributes

record decisionID =
  did_decisionType :: decisionType
  did_id :: string

definition eventCancel :: string where "eventCancel = ''cancel''"
definition eventDecisionSent :: string where "eventDecisionSent = ''handleDecisionSent''"
definition eventInitiated :: string where "eventInitiated = ''handleInitiatedEvent''"
definition eventInitiationFailed :: string where
  "eventInitiationFailed = ''handleInitiationFailedEvent''"
definition eventStarted :: string where "eventStarted = ''handleStartedEvent''"
definition eventCompletion :: string where "eventCompletion = ''handleCompletionEvent''"
definition eventCancelInitiated :: string where
  "eventCancelInitiated = ''handleCancelInitiatedEvent''"
definition eventCancelFailed :: string where "eventCancelFailed = ''handleCancelFailedEvent''"
definition eventCanceled :: string where "eventCanceled = ''handleCanceledEvent''"

definition sideEffectMarkerName :: string where "sideEffectMarkerName = ''SideEffect''"
definition versionMarkerName :: string where "versionMarkerName = ''Version''"
definition localActivityMarkerName :: string where "localActivityMarkerName = ''LocalActivity''"
definition mutableSideEffectMarkerName :: string where
  "mutableSideEffectMarkerName = ''MutableSideEffect''"

fun decisionState_String :: "decisionState \<Rightarrow> string" where
  "decisionState_String decisionStateCreated = ''Created''"
| "decisionState_String decisionStateDecisionSent = ''DecisionSent''"
| "decisionState_String decisionStateCanceledBeforeInitiated = ''CanceledBeforeInitiated''"
| "decisionState_String decisionStateInitiated = ''Initiated''"
| "decisionState_String decisionStateStarted = ''Started''"
| "decisionState_String decisionStateCanceledAfterInitiated = ''CanceledAfterInitiated''"
| "decisionState_String decisionStateCanceledAfterStarted = ''CanceledAfterStarted''"
| "decisionState_String decisionStateCancellationDecisionSent = ''CancellationDecisionSent''"
| "decisionState_String decisionStateCompletedAfterCancellationDecisionSent =
     ''CompletedAfterCancellationDecisionSent''"
| "decisionState_String decisionStateCompleted = ''Completed''"

fun decisionType_String :: "decisionType \<Rightarrow> string" where
  "decisionType_String decisionTypeActivity = ''Activity''"
| "decisionType_String decisionTypeChildWorkflow = ''ChildWorkflow''"
| "decisionType_String decisionTypeCancellation = ''Cancellation''"
| "decisionType_String decisionTypeMarker = ''Marker''"
| "decisionType_String decisionTypeTimer = ''Timer''"
| "decisionType_String decisionTypeSignal = ''Signal''"
| "decisionType_String _ = ''Unknown''"

definition decisionID_String :: "decisionID \<Rightarrow> string" where
  "decisionID_String d =
     ''DecisionType: '' @ decisionType_String (did_decisionType d) @ '', ID: '' @ did_id d"

definition makeDecisionID :: "decisionType \<Rightarrow> string \<Rightarrow> decisionID" where
  "makeDecisionID t i = \<lparr>did_decisionType = t, did_id = i\<rparr>"

lemma makeDecisionID_inject [simp]:
  "makeDecisionID t i = makeDecisionID t' i' \<longleftrightarrow> t = t' \<and> i = i'"
  by (simp add: makeDecisionID_def)

text \<open>
  The payload a machine carries for the workflow environment (\<open>setData\<close>,
  \<open>getData\<close>): the \<open>scheduled*\<close> structs of \<open>internal_event_handlers.go\<close>.  A
  callback is a handle, and calling it is recorded by the environment.
\<close>

type_synonym callback = nat

datatype scheduledData =
    NilData
  | scheduledTimer callback bool \<comment> \<open>\<open>callback\<close>, \<open>handled\<close>\<close>
  | scheduledActivity callback bool bool \<comment> \<open>\<open>callback\<close>, \<open>waitForCancelRequest\<close>, \<open>handled\<close>\<close>
  | scheduledChildWorkflow callback callback bool bool
      \<comment> \<open>\<open>resultCallback\<close>, \<open>startedCallback\<close>, \<open>waitForCancellation\<close>, \<open>handled\<close>\<close>
  | scheduledCancellation callback bool
  | scheduledSignal callback bool

datatype machineKind =
    activityDecisionStateMachine ScheduleActivityTaskDecisionAttributes
  | timerDecisionStateMachine StartTimerDecisionAttributes bool \<comment> \<open>\<open>canceled\<close>\<close>
  | childWorkflowDecisionStateMachine StartChildWorkflowExecutionDecisionAttributes
  | cancelExternalWorkflowDecisionStateMachine Decision
  | signalExternalWorkflowDecisionStateMachine Decision
  | markerDecisionStateMachine Decision
  | upsertSearchAttributesDecisionStateMachine Decision

record machine =
  m_id :: decisionID
  m_state :: decisionState
  m_history :: "string list"
  m_data :: scheduledData
  m_kind :: machineKind

type_synonym ref = nat

record decisionsHelper =
  orderedDecisions :: "ref list"
  decisions :: "decisionID \<rightharpoonup> ref"
  machines :: "ref \<rightharpoonup> machine" \<comment> \<open>the heap of machines\<close>
  nextRef :: ref \<comment> \<open>the next free heap cell\<close>
  scheduledEventIDToActivityID :: "int \<rightharpoonup> string"
  scheduledEventIDToCancellationID :: "int \<rightharpoonup> string"
  scheduledEventIDToSignalID :: "int \<rightharpoonup> string"

text \<open>
  Panic values.  The first group is what the code wraps in
  \<open>stateMachineIllegalStatePanic\<close> (its formatted message kept as structured data); a
  plain \<open>panic("...")\<close> keeps its string, and \<open>RuntimePanic\<close> is a panic raised by the
  Go runtime (nil dereference, failed type assertion).  \<open>LoopBound\<close> marks a bounded
  loop of the model that ran out of its bound; it is shown never to occur.
\<close>

datatype illegalState =
    invalidTransition string decisionID decisionState
  | unknownDecision decisionID
  | duplicateDecision decisionID
  | unexpectedEventType
  | activityIDNotFound int
  | localActivityMismatch string string

datatype panicValue =
    stateMachineIllegalStatePanic illegalState
  | StringPanic string
  | RuntimePanic string
  | LoopBound

type_synonym 'a dgo = "(decisionsHelper, panicValue, 'a) go"

definition panicIllegalState :: "illegalState \<Rightarrow> (decisionsHelper, panicValue, 'a) go" where
  "panicIllegalState msg = go_panic (stateMachineIllegalStatePanic msg)"

definition nilDereference :: panicValue where
  "nilDereference = RuntimePanic ''invalid memory address or nil pointer dereference''"

section \<open>Heap access\<close>

definition deref :: "ref \<Rightarrow> machine dgo" where
  "deref r h = (case machines h r of
      None \<Rightarrow> (Inl nilDereference, h)
    | Some m \<Rightarrow> (Inr m, h))"

definition update_machine :: "ref \<Rightarrow> (machine \<Rightarrow> machine) \<Rightarrow> unit dgo" where
  "update_machine r f =
     go_bind (deref r) (\<lambda>m. go_modify (\<lambda>h. h\<lparr>machines := (machines h)(r \<mapsto> f m)\<rparr>))"

definition alloc_machine :: "machine \<Rightarrow> ref dgo" where
  "alloc_machine m h =
     (Inr (nextRef h), h\<lparr>machines := (machines h)(nextRef h \<mapsto> m), nextRef := Suc (nextRef h)\<rparr>)"

section \<open>Constructors of machines\<close>

definition newDecisionStateMachineBase :: "decisionType \<Rightarrow> string \<Rightarrow> machineKind \<Rightarrow> machine" where
  "newDecisionStateMachineBase t i k =
     \<lparr>m_id = makeDecisionID t i, m_state = decisionStateCreated,
      m_history = [decisionState_String decisionStateCreated], m_data = NilData, m_kind = k\<rparr>"

definition newActivityDecisionStateMachine ::
  "ScheduleActivityTaskDecisionAttributes \<Rightarrow> ref dgo" where
  "newActivityDecisionStateMachine attributes = alloc_machine
     (newDecisionStateMachineBase decisionTypeActivity (get_str (sat_ActivityId attributes))
        (activityDecisionStateMachine attributes))"

definition newTimerDecisionStateMachine :: "StartTimerDecisionAttributes \<Rightarrow> ref dgo" where
  "newTimerDecisionStateMachine attributes = alloc_machine
     (newDecisionStateMachineBase decisionTypeTimer (get_str (st_TimerId attributes))
        (timerDecisionStateMachine attributes False))"

definition newChildWorkflowDecisionStateMachine ::
  "StartChildWorkflowExecutionDecisionAttributes \<Rightarrow> ref dgo" where
  "newChildWorkflowDecisionStateMachine attributes = alloc_machine
     (newDecisionStateMachineBase decisionTypeChildWorkflow (get_str (scw_WorkflowId attributes))
        (childWorkflowDecisionStateMachine attributes))"

definition newMarkerDecisionStateMachine :: "string \<Rightarrow> RecordMarkerDecisionAttributes \<Rightarrow> ref dgo" where
  "newMarkerDecisionStateMachine i attributes = alloc_machine
     (newDecisionStateMachineBase decisionTypeMarker i
        (markerDecisionStateMachine (RecordMarker attributes)))"

definition newCancelExternalWorkflowStateMachine ::
  "RequestCancelExternalWorkflowExecutionDecisionAttributes \<Rightarrow> string \<Rightarrow> ref dgo" where
  "newCancelExternalWorkflowStateMachine attributes cancellationID = alloc_machine
     (newDecisionStateMachineBase decisionTypeCancellation cancellationID
        (cancelExternalWorkflowDecisionStateMachine
          (RequestCancelExternalWorkflowExecution attributes)))"

definition newSignalExternalWorkflowStateMachine ::
  "SignalExternalWorkflowExecutionDecisionAttributes \<Rightarrow> string \<Rightarrow> ref dgo" where
  "newSignalExternalWorkflowStateMachine attributes signalID = alloc_machine
     (newDecisionStateMachineBase decisionTypeSignal signalID
        (signalExternalWorkflowDecisionStateMachine
          (SignalExternalWorkflowExecution attributes)))"

definition newUpsertSearchAttributesStateMachine :: "fields option \<Rightarrow> string \<Rightarrow> ref dgo" where
  "newUpsertSearchAttributesStateMachine searchAttr upsertID = alloc_machine
     (newDecisionStateMachineBase decisionTypeUpsertSearchAttributes upsertID
        (upsertSearchAttributesDecisionStateMachine (UpsertWorkflowSearchAttributes searchAttr)))"


section \<open>Methods of \<open>decisionStateMachineBase\<close>\<close>

definition getState :: "ref \<Rightarrow> decisionState dgo" where
  "getState r = go_bind (deref r) (\<lambda>m. go_return (m_state m))"

definition getID :: "ref \<Rightarrow> decisionID dgo" where
  "getID r = go_bind (deref r) (\<lambda>m. go_return (m_id m))"

definition setData :: "ref \<Rightarrow> scheduledData \<Rightarrow> unit dgo" where
  "setData r d = update_machine r (\<lambda>m. m\<lparr>m_data := d\<rparr>)"

definition getData :: "ref \<Rightarrow> scheduledData dgo" where
  "getData r = go_bind (deref r) (\<lambda>m. go_return (m_data m))"

text \<open>
  \<open>moveState\<close> records the event and the new state, and drops a completed machine from
  the helper: whatever element the map holds under the machine's ID leaves the list, and
  the ID leaves the map.
\<close>

definition removeDecision :: "decisionID \<Rightarrow> ref \<Rightarrow> decisionsHelper \<Rightarrow> decisionsHelper" where
  "removeDecision i elem h =
     h\<lparr>orderedDecisions := remove1 elem (orderedDecisions h), decisions := (decisions h)(i := None)\<rparr>"

definition enterState :: "decisionState \<Rightarrow> string \<Rightarrow> machine \<Rightarrow> machine" where
  "enterState newState event m =
     m\<lparr>m_history := m_history m @ [event, decisionState_String newState], m_state := newState\<rparr>"

definition moveState :: "ref \<Rightarrow> decisionState \<Rightarrow> string \<Rightarrow> unit dgo" where
  "moveState r newState event =
     go_then (update_machine r (enterState newState event))
       (if newState = decisionStateCompleted
        then go_bind (getID r) (\<lambda>i. go_modify (\<lambda>h.
               case decisions h i of None \<Rightarrow> h | Some elem \<Rightarrow> removeDecision i elem h))
        else go_return ())"

definition failStateTransition :: "ref \<Rightarrow> string \<Rightarrow> unit dgo" where
  "failStateTransition r event =
     go_bind (deref r) (\<lambda>m. panicIllegalState (invalidTransition event (m_id m) (m_state m)))"

definition appendHistory :: "ref \<Rightarrow> string \<Rightarrow> unit dgo" where
  "appendHistory r event = update_machine r (\<lambda>m. m\<lparr>m_history := m_history m @ [event]\<rparr>)"

definition base_handleDecisionSent :: "ref \<Rightarrow> unit dgo" where
  "base_handleDecisionSent r = go_bind (getState r) (\<lambda>s. case s of
      decisionStateCreated \<Rightarrow> moveState r decisionStateDecisionSent eventDecisionSent
    | _ \<Rightarrow> go_return ())"

definition base_cancel :: "ref \<Rightarrow> unit dgo" where
  "base_cancel r = go_bind (getState r) (\<lambda>s. case s of
      decisionStateCompleted \<Rightarrow> go_return ()
    | decisionStateCompletedAfterCancellationDecisionSent \<Rightarrow> go_return ()
    | decisionStateCreated \<Rightarrow> moveState r decisionStateCompleted eventCancel
    | decisionStateDecisionSent \<Rightarrow> moveState r decisionStateCanceledBeforeInitiated eventCancel
    | decisionStateInitiated \<Rightarrow> moveState r decisionStateCanceledAfterInitiated eventCancel
    | _ \<Rightarrow> failStateTransition r eventCancel)"

definition base_handleInitiatedEvent :: "ref \<Rightarrow> unit dgo" where
  "base_handleInitiatedEvent r = go_bind (getState r) (\<lambda>s. case s of
      decisionStateDecisionSent \<Rightarrow> moveState r decisionStateInitiated eventInitiated
    | decisionStateCanceledBeforeInitiated \<Rightarrow>
        moveState r decisionStateCanceledAfterInitiated eventInitiated
    | _ \<Rightarrow> failStateTransition r eventInitiated)"

definition base_handleInitiationFailedEvent :: "ref \<Rightarrow> unit dgo" where
  "base_handleInitiationFailedEvent r = go_bind (getState r) (\<lambda>s. case s of
      decisionStateInitiated \<Rightarrow> moveState r decisionStateCompleted eventInitiationFailed
    | decisionStateDecisionSent \<Rightarrow> moveState r decisionStateCompleted eventInitiationFailed
    | decisionStateCanceledBeforeInitiated \<Rightarrow>
        moveState r decisionStateCompleted eventInitiationFailed
    | _ \<Rightarrow> failStateTransition r eventInitiationFailed)"

definition base_handleStartedEvent :: "ref \<Rightarrow> unit dgo" where
  "base_handleStartedEvent r = appendHistory r eventStarted"

definition base_handleCompletionEvent :: "ref \<Rightarrow> unit dgo" where
  "base_handleCompletionEvent r = go_bind (getState r) (\<lambda>s. case s of
      decisionStateCanceledAfterInitiated \<Rightarrow> moveState r decisionStateCompleted eventCompletion
    | decisionStateInitiated \<Rightarrow> moveState r decisionStateCompleted eventCompletion
    | decisionStateCancellationDecisionSent \<Rightarrow>
        moveState r decisionStateCompletedAfterCancellationDecisionSent eventCompletion
    | _ \<Rightarrow> failStateTransition r eventCompletion)"

definition base_handleCancelInitiatedEvent :: "ref \<Rightarrow> unit dgo" where
  "base_handleCancelInitiatedEvent r = go_then (appendHistory r eventCancelInitiated)
     (go_bind (getState r) (\<lambda>s. case s of
        decisionStateCancellationDecisionSent \<Rightarrow> go_return ()
      | _ \<Rightarrow> failStateTransition r eventCancelInitiated))"

definition base_handleCancelFailedEvent :: "ref \<Rightarrow> unit dgo" where
  "base_handleCancelFailedEvent r = go_bind (getState r) (\<lambda>s. case s of
      decisionStateCompletedAfterCancellationDecisionSent \<Rightarrow>
        moveState r decisionStateCompleted eventCancelFailed
    | _ \<Rightarrow> failStateTransition r eventCancelFailed)"

definition base_handleCanceledEvent :: "ref \<Rightarrow> unit dgo" where
  "base_handleCanceledEvent r = go_bind (getState r) (\<lambda>s. case s of
      decisionStateCancellationDecisionSent \<Rightarrow> moveState r decisionStateCompleted eventCanceled
    | _ \<Rightarrow> failStateTransition r eventCanceled)"

section \<open>Overrides of the activity, timer and child-workflow machines\<close>

text \<open>\<open>getDecision\<close> of the three structs, on the machine's state and attributes.\<close>

definition activity_getDecision ::
  "decisionState \<Rightarrow> ScheduleActivityTaskDecisionAttributes \<Rightarrow> Decision option" where
  "activity_getDecision s attributes = (case s of
      decisionStateCreated \<Rightarrow> Some (ScheduleActivityTask attributes)
    | decisionStateCanceledAfterInitiated \<Rightarrow>
        Some (RequestCancelActivityTask (sat_ActivityId attributes))
    | _ \<Rightarrow> None)"

definition activity_handleDecisionSent :: "ref \<Rightarrow> unit dgo" where
  "activity_handleDecisionSent r = go_bind (getState r) (\<lambda>s. case s of
      decisionStateCanceledAfterInitiated \<Rightarrow>
        moveState r decisionStateCancellationDecisionSent eventDecisionSent
    | _ \<Rightarrow> base_handleDecisionSent r)"

definition activity_handleCancelFailedEvent :: "ref \<Rightarrow> unit dgo" where
  "activity_handleCancelFailedEvent r = go_bind (getState r) (\<lambda>s. case s of
      decisionStateCancellationDecisionSent \<Rightarrow> moveState r decisionStateInitiated eventCancelFailed
    | _ \<Rightarrow> base_handleCancelFailedEvent r)"

definition set_canceled :: "machine \<Rightarrow> machine" where
  "set_canceled m = (case m_kind m of
      timerDecisionStateMachine a _ \<Rightarrow> m\<lparr>m_kind := timerDecisionStateMachine a True\<rparr>
    | _ \<Rightarrow> m)"

definition timer_cancel :: "ref \<Rightarrow> unit dgo" where
  "timer_cancel r = go_then (update_machine r set_canceled) (base_cancel r)"

definition timer_handleDecisionSent :: "ref \<Rightarrow> unit dgo" where
  "timer_handleDecisionSent r = go_bind (getState r) (\<lambda>s. case s of
      decisionStateCanceledAfterInitiated \<Rightarrow>
        moveState r decisionStateCancellationDecisionSent eventDecisionSent
    | _ \<Rightarrow> base_handleDecisionSent r)"

definition timer_handleCancelFailedEvent :: "ref \<Rightarrow> unit dgo" where
  "timer_handleCancelFailedEvent r = go_bind (getState r) (\<lambda>s. case s of
      decisionStateCancellationDecisionSent \<Rightarrow> moveState r decisionStateInitiated eventCancelFailed
    | _ \<Rightarrow> base_handleCancelFailedEvent r)"

definition timer_getDecision ::
  "decisionState \<Rightarrow> StartTimerDecisionAttributes \<Rightarrow> Decision option" where
  "timer_getDecision s attributes = (case s of
      decisionStateCreated \<Rightarrow> Some (StartTimer attributes)
    | decisionStateCanceledAfterInitiated \<Rightarrow> Some (CancelTimer (st_TimerId attributes))
    | _ \<Rightarrow> None)"

definition childWorkflow_getDecision ::
  "decisionState \<Rightarrow> StartChildWorkflowExecutionDecisionAttributes \<Rightarrow> Decision option" where
  "childWorkflow_getDecision s attributes = (case s of
      decisionStateCreated \<Rightarrow> Some (StartChildWorkflowExecution attributes)
    | decisionStateCanceledAfterStarted \<Rightarrow>
        Some (RequestCancelExternalWorkflowExecution
          \<lparr>rce_Domain = scw_Domain attributes, rce_WorkflowId = scw_WorkflowId attributes,
           rce_RunId = None, rce_Control = [], rce_ChildWorkflowOnly = Some True\<rparr>)
    | _ \<Rightarrow> None)"

definition childWorkflow_handleDecisionSent :: "ref \<Rightarrow> unit dgo" where
  "childWorkflow_handleDecisionSent r = go_bind (getState r) (\<lambda>s. case s of
      decisionStateCanceledAfterStarted \<Rightarrow>
        moveState r decisionStateCancellationDecisionSent eventDecisionSent
    | _ \<Rightarrow> base_handleDecisionSent r)"

definition childWorkflow_handleStartedEvent :: "ref \<Rightarrow> unit dgo" where
  "childWorkflow_handleStartedEvent r = go_bind (getState r) (\<lambda>s. case s of
      decisionStateInitiated \<Rightarrow> moveState r decisionStateStarted eventStarted
    | decisionStateCanceledAfterInitiated \<Rightarrow>
        moveState r decisionStateCanceledAfterStarted eventStarted
    | _ \<Rightarrow> base_handleStartedEvent r)"

definition childWorkflow_handleCancelFailedEvent :: "ref \<Rightarrow> unit dgo" where
  "childWorkflow_handleCancelFailedEvent r = go_bind (getState r) (\<lambda>s. case s of
      decisionStateCancellationDecisionSent \<Rightarrow> moveState r decisionStateStarted eventCancelFailed
    | _ \<Rightarrow> base_handleCancelFailedEvent r)"

definition childWorkflow_cancel :: "ref \<Rightarrow> unit dgo" where
  "childWorkflow_cancel r = go_bind (getState r) (\<lambda>s. case s of
      decisionStateStarted \<Rightarrow> moveState r decisionStateCanceledAfterStarted eventCancel
    | _ \<Rightarrow> base_cancel r)"

definition childWorkflow_handleCanceledEvent :: "ref \<Rightarrow> unit dgo" where
  "childWorkflow_handleCanceledEvent r = go_bind (getState r) (\<lambda>s. case s of
      decisionStateStarted \<Rightarrow> moveState r decisionStateCompleted eventCanceled
    | _ \<Rightarrow> base_handleCanceledEvent r)"

definition childWorkflow_handleCompletionEvent :: "ref \<Rightarrow> unit dgo" where
  "childWorkflow_handleCompletionEvent r = go_bind (getState r) (\<lambda>s. case s of
      decisionStateStarted \<Rightarrow> moveState r decisionStateCompleted eventCompletion
    | decisionStateCanceledAfterStarted \<Rightarrow> moveState r decisionStateCompleted eventCompletion
    | _ \<Rightarrow> base_handleCompletionEvent r)"

section \<open>The naive machines\<close>

definition naive_getDecision :: "decisionState \<Rightarrow> Decision \<Rightarrow> Decision option" where
  "naive_getDecision s d = (if s = decisionStateCreated then Some d else None)"

definition naive_unsupported :: "ref \<Rightarrow> unit dgo" where
  "naive_unsupported r = go_panic (StringPanic ''unsupported operation'')"

definition cancelExternal_handleInitiatedEvent :: "ref \<Rightarrow> unit dgo" where
  "cancelExternal_handleInitiatedEvent r = go_bind (getState r) (\<lambda>s. case s of
      decisionStateDecisionSent \<Rightarrow> moveState r decisionStateInitiated eventInitiated
    | _ \<Rightarrow> failStateTransition r eventInitiated)"

definition cancelExternal_handleCompletionEvent :: "ref \<Rightarrow> unit dgo" where
  "cancelExternal_handleCompletionEvent r = go_bind (getState r) (\<lambda>s. case s of
      decisionStateInitiated \<Rightarrow> moveState r decisionStateCompleted eventCompletion
    | _ \<Rightarrow> failStateTransition r eventCompletion)"

definition signalExternal_handleInitiatedEvent :: "ref \<Rightarrow> unit dgo" where
  "signalExternal_handleInitiatedEvent r = go_bind (getState r) (\<lambda>s. case s of
      decisionStateDecisionSent \<Rightarrow> moveState r decisionStateInitiated eventInitiated
    | _ \<Rightarrow> failStateTransition r eventInitiated)"

definition signalExternal_handleCompletionEvent :: "ref \<Rightarrow> unit dgo" where
  "signalExternal_handleCompletionEvent r = go_bind (getState r) (\<lambda>s. case s of
      decisionStateInitiated \<Rightarrow> moveState r decisionStateCompleted eventCompletion
    | _ \<Rightarrow> failStateTransition r eventCompletion)"

definition marker_handleDecisionSent :: "ref \<Rightarrow> unit dgo" where
  "marker_handleDecisionSent r = go_bind (getState r) (\<lambda>s. case s of
      decisionStateCreated \<Rightarrow> moveState r decisionStateCompleted eventDecisionSent
    | _ \<Rightarrow> go_return ())"

definition upsert_handleDecisionSent :: "ref \<Rightarrow> unit dgo" where
  "upsert_handleDecisionSent r = go_bind (getState r) (\<lambda>s. case s of
      decisionStateCreated \<Rightarrow> moveState r decisionStateCompleted eventDecisionSent
    | _ \<Rightarrow> go_return ())"

section \<open>The interface \<open>decisionStateMachine\<close>: dynamic dispatch\<close>

definition machine_getDecision :: "machine \<Rightarrow> Decision option" where
  "machine_getDecision m = (case m_kind m of
      activityDecisionStateMachine a \<Rightarrow> activity_getDecision (m_state m) a
    | timerDecisionStateMachine a _ \<Rightarrow> timer_getDecision (m_state m) a
    | childWorkflowDecisionStateMachine a \<Rightarrow> childWorkflow_getDecision (m_state m) a
    | cancelExternalWorkflowDecisionStateMachine d \<Rightarrow> naive_getDecision (m_state m) d
    | signalExternalWorkflowDecisionStateMachine d \<Rightarrow> naive_getDecision (m_state m) d
    | markerDecisionStateMachine d \<Rightarrow> naive_getDecision (m_state m) d
    | upsertSearchAttributesDecisionStateMachine d \<Rightarrow> naive_getDecision (m_state m) d)"

definition machine_isDone :: "machine \<Rightarrow> bool" where
  "machine_isDone m = (case m_kind m of
      timerDecisionStateMachine _ canceled \<Rightarrow> m_state m = decisionStateCompleted \<or> canceled
    | _ \<Rightarrow> m_state m = decisionStateCompleted \<or>
           m_state m = decisionStateCompletedAfterCancellationDecisionSent)"

definition call_getDecision :: "ref \<Rightarrow> Decision option dgo" where
  "call_getDecision r = go_bind (deref r) (\<lambda>m. go_return (machine_getDecision m))"

definition call_isDone :: "ref \<Rightarrow> bool dgo" where
  "call_isDone r = go_bind (deref r) (\<lambda>m. go_return (machine_isDone m))"

definition call_cancel :: "ref \<Rightarrow> unit dgo" where
  "call_cancel r = go_bind (deref r) (\<lambda>m. case m_kind m of
      activityDecisionStateMachine _ \<Rightarrow> base_cancel r
    | timerDecisionStateMachine _ _ \<Rightarrow> timer_cancel r
    | childWorkflowDecisionStateMachine _ \<Rightarrow> childWorkflow_cancel r
    | _ \<Rightarrow> naive_unsupported r)"

definition call_handleStartedEvent :: "ref \<Rightarrow> unit dgo" where
  "call_handleStartedEvent r = go_bind (deref r) (\<lambda>m. case m_kind m of
      activityDecisionStateMachine _ \<Rightarrow> base_handleStartedEvent r
    | timerDecisionStateMachine _ _ \<Rightarrow> base_handleStartedEvent r
    | childWorkflowDecisionStateMachine _ \<Rightarrow> childWorkflow_handleStartedEvent r
    | _ \<Rightarrow> naive_unsupported r)"

definition call_handleCancelInitiatedEvent :: "ref \<Rightarrow> unit dgo" where
  "call_handleCancelInitiatedEvent r = go_bind (deref r) (\<lambda>m. case m_kind m of
      activityDecisionStateMachine _ \<Rightarrow> base_handleCancelInitiatedEvent r
    | timerDecisionStateMachine _ _ \<Rightarrow> base_handleCancelInitiatedEvent r
    | childWorkflowDecisionStateMachine _ \<Rightarrow> base_handleCancelInitiatedEvent r
    | _ \<Rightarrow> naive_unsupported r)"

definition call_handleCanceledEvent :: "ref \<Rightarrow> unit dgo" where
  "call_handleCanceledEvent r = go_bind (deref r) (\<lambda>m. case m_kind m of
      activityDecisionStateMachine _ \<Rightarrow> base_handleCanceledEvent r
    | timerDecisionStateMachine _ _ \<Rightarrow> base_handleCanceledEvent r
    | childWorkflowDecisionStateMachine _ \<Rightarrow> childWorkflow_handleCanceledEvent r
    | _ \<Rightarrow> naive_unsupported r)"

definition call_handleCancelFailedEvent :: "ref \<Rightarrow> unit dgo" where
  "call_handleCancelFailedEvent r = go_bind (deref r) (\<lambda>m. case m_kind m of
      activityDecisionStateMachine _ \<Rightarrow> activity_handleCancelFailedEvent r
    | timerDecisionStateMachine _ _ \<Rightarrow> timer_handleCancelFailedEvent r
    | childWorkflowDecisionStateMachine _ \<Rightarrow> childWorkflow_handleCancelFailedEvent r
    | _ \<Rightarrow> naive_unsupported r)"

definition call_handleCompletionEvent :: "ref \<Rightarrow> unit dgo" where
  "call_handleCompletionEvent r = go_bind (deref r) (\<lambda>m. case m_kind m of
      activityDecisionStateMachine _ \<Rightarrow> base_handleCompletionEvent r
    | timerDecisionStateMachine _ _ \<Rightarrow> base_handleCompletionEvent r
    | childWorkflowDecisionStateMachine _ \<Rightarrow> childWorkflow_handleCompletionEvent r
    | cancelExternalWorkflowDecisionStateMachine _ \<Rightarrow> cancelExternal_handleCompletionEvent r
    | signalExternalWorkflowDecisionStateMachine _ \<Rightarrow> signalExternal_handleCompletionEvent r
    | _ \<Rightarrow> naive_unsupported r)"

definition call_handleInitiationFailedEvent :: "ref \<Rightarrow> unit dgo" where
  "call_handleInitiationFailedEvent r = go_bind (deref r) (\<lambda>m. case m_kind m of
      activityDecisionStateMachine _ \<Rightarrow> base_handleInitiationFailedEvent r
    | timerDecisionStateMachine _ _ \<Rightarrow> base_handleInitiationFailedEvent r
    | childWorkflowDecisionStateMachine _ \<Rightarrow> base_handleInitiationFailedEvent r
    | _ \<Rightarrow> naive_unsupported r)"

definition call_handleInitiatedEvent :: "ref \<Rightarrow> unit dgo" where
  "call_handleInitiatedEvent r = go_bind (deref r) (\<lambda>m. case m_kind m of
      activityDecisionStateMachine _ \<Rightarrow> base_handleInitiatedEvent r
    | timerDecisionStateMachine _ _ \<Rightarrow> base_handleInitiatedEvent r
    | childWorkflowDecisionStateMachine _ \<Rightarrow> base_handleInitiatedEvent r
    | cancelExternalWorkflowDecisionStateMachine _ \<Rightarrow> cancelExternal_handleInitiatedEvent r
    | signalExternalWorkflowDecisionStateMachine _ \<Rightarrow> signalExternal_handleInitiatedEvent r
    | _ \<Rightarrow> naive_unsupported r)"

definition call_handleDecisionSent :: "ref \<Rightarrow> unit dgo" where
  "call_handleDecisionSent r = go_bind (deref r) (\<lambda>m. case m_kind m of
      activityDecisionStateMachine _ \<Rightarrow> activity_handleDecisionSent r
    | timerDecisionStateMachine _ _ \<Rightarrow> timer_handleDecisionSent r
    | childWorkflowDecisionStateMachine _ \<Rightarrow> childWorkflow_handleDecisionSent r
    | cancelExternalWorkflowDecisionStateMachine _ \<Rightarrow> base_handleDecisionSent r
    | signalExternalWorkflowDecisionStateMachine _ \<Rightarrow> base_handleDecisionSent r
    | markerDecisionStateMachine _ \<Rightarrow> marker_handleDecisionSent r
    | upsertSearchAttributesDecisionStateMachine _ \<Rightarrow> upsert_handleDecisionSent r)"

end
