(* ===== verification/Go_Format.thy ===== *)
theory Go_Format
  imports Complex_Main Go_Prelude
begin

text \<open>
  The parts of Go's \<open>strings\<close>, \<open>strconv\<close> and \<open>fmt\<close> that the client relies on: prefix
  and suffix tests, \<open>Index\<close>, \<open>LastIndex\<close>, \<open>TrimSuffix\<close>, decimal formatting and
  parsing, and \<open>%q\<close>.  Decimal formatting is shown injective, which is what makes
  generated sequence IDs distinct, and parsing is shown to invert it.
\<close>

section \<open>Searching\<close>

fun hasPrefix :: "string \<Rightarrow> string \<Rightarrow> bool" where
  "hasPrefix s [] = True"
| "hasPrefix [] (p # ps) = False"
| "hasPrefix (c # s) (p # ps) = (c = p \<and> hasPrefix s ps)"

lemma hasPrefix_iff: "hasPrefix s p \<longleftrightarrow> (\<exists>rest. s = p @ rest)"
  by (induction s p rule: hasPrefix.induct) auto

lemma hasPrefix_append [simp]: "hasPrefix (p @ rest) p"
  by (auto simp: hasPrefix_iff)

definition hasSuffix :: "string \<Rightarrow> string \<Rightarrow> bool" where
  "hasSuffix s p = hasPrefix (rev s) (rev p)"

lemma hasSuffix_iff: "hasSuffix s p \<longleftrightarrow> (\<exists>front. s = front @ p)"
proof
  assume "hasSuffix s p"
  then obtain rest where "rev s = rev p @ rest" by (auto simp: hasSuffix_def hasPrefix_iff)
  then have "s = rev rest @ p" by (metis rev_append rev_rev_ident)
  then show "\<exists>front. s = front @ p" ..
qed (auto simp: hasSuffix_def)

definition trimSuffix :: "string \<Rightarrow> string \<Rightarrow> string" where
  "trimSuffix s p = (if hasSuffix s p then take (length s - length p) s else s)"

lemma trimSuffix_append [simp]: "trimSuffix (s @ p) p = s"
  by (simp add: trimSuffix_def hasSuffix_iff)

text \<open>\<open>strings.Index\<close> of a one-character string: the part after the first occurrence, or
  the whole string when there is none, is what callers take.\<close>

fun indexByte :: "string \<Rightarrow> char \<Rightarrow> int" where
  "indexByte [] c = - 1"
| "indexByte (d # s) c = (if d = c then 0 else let i = indexByte s c in if i < 0 then - 1 else i + 1)"

fun lastIndexByte :: "string \<Rightarrow> char \<Rightarrow> int" where
  "lastIndexByte [] c = - 1"
| "lastIndexByte (d # s) c =
     (let i = lastIndexByte s c in if 0 \<le> i then i + 1 else if d = c then 0 else - 1)"

lemma indexByte_absent: "c \<notin> set s \<Longrightarrow> indexByte s c = - 1"
  by (induction s) (auto simp: Let_def)

lemma indexByte_append: "c \<notin> set s \<Longrightarrow> indexByte (s @ c # t) c = int (length s)"
  by (induction s) (auto simp: Let_def)

lemma lastIndexByte_absent: "c \<notin> set s \<Longrightarrow> lastIndexByte s c = - 1"
  by (induction s) (auto simp: Let_def)

lemma lastIndexByte_append: "c \<notin> set t \<Longrightarrow> lastIndexByte (s @ c # t) c = int (length s)"
  by (induction s) (auto simp: Let_def lastIndexByte_absent)

lemma lastIndexByte_cases:
  obtains "c \<notin> set s" "lastIndexByte s c = - 1"
  | a t where "s = a @ c # t" "c \<notin> set t" "lastIndexByte s c = int (length a)"
proof (cases "c \<in> set s")
  case True
  then obtain a t where "s = a @ c # t" "c \<notin> set t" by (blast dest: split_list_last)
  then show ?thesis using that(2) lastIndexByte_append by blast
qed (use that(1) lastIndexByte_absent in blast)

section \<open>Decimal numbers\<close>

definition digit :: "nat \<Rightarrow> char" where
  "digit d = char_of (48 + d)"

fun show_nat :: "nat \<Rightarrow> string" where
  "show_nat n = (if n < 10 then [digit n] else show_nat (n div 10) @ [digit (n mod 10)])"

declare show_nat.simps [simp del]

definition show_int :: "int \<Rightarrow> string" where
  "show_int i = (if i < 0 then CHR ''-'' # show_nat (nat (- i)) else show_nat (nat i))"

definition digitVal :: "char \<Rightarrow> nat option" where
  "digitVal c = (let k = of_char c :: nat in if 48 \<le> k \<and> k \<le> 57 then Some (k - 48) else None)"

lemma digitVal_digit [simp]: "d < 10 \<Longrightarrow> digitVal (digit d) = Some d"
  by (simp add: digitVal_def digit_def of_char_of)

fun parseDigits :: "nat \<Rightarrow> string \<Rightarrow> nat option" where
  "parseDigits acc [] = Some acc"
| "parseDigits acc (c # s) =
     (case digitVal c of None \<Rightarrow> None | Some d \<Rightarrow> parseDigits (10 * acc + d) s)"

lemma parseDigits_append:
  "parseDigits acc (s @ t) = (case parseDigits acc s of None \<Rightarrow> None | Some v \<Rightarrow> parseDigits v t)"
  by (induction s arbitrary: acc) (auto split: option.split)

lemma show_nat_not_Nil [simp]: "show_nat n \<noteq> []"
  by (subst show_nat.simps) simp

lemma parseDigits_show_nat [simp]: "parseDigits 0 (show_nat n) = Some n"
proof (induction n rule: show_nat.induct)
  case (1 n)
  then show ?case
    by (subst show_nat.simps) (simp add: parseDigits_append)
qed

text \<open>\<open>strconv.ParseInt(s, 10, bits)\<close>, with \<open>None\<close> for every error.\<close>

definition parseMagnitude :: "string \<Rightarrow> nat option" where
  "parseMagnitude s = (if s = [] then None else parseDigits 0 s)"

definition parseInt :: "nat \<Rightarrow> string \<Rightarrow> int option" where
  "parseInt bits s =
     (case (case s of
         c # rest \<Rightarrow>
           if c = CHR ''-'' then map_option (\<lambda>v. - int v) (parseMagnitude rest)
           else if c = CHR ''+'' then map_option int (parseMagnitude rest)
           else map_option int (parseMagnitude s)
       | [] \<Rightarrow> None) of
       None \<Rightarrow> None
     | Some v \<Rightarrow> if - (2 ^ (bits - 1)) \<le> v \<and> v < 2 ^ (bits - 1) then Some v else None)"

lemma set_show_nat: "set (show_nat n) \<subseteq> digit ` {..<10}"
proof (induction n rule: show_nat.induct)
  case (1 n)
  then show ?case by (subst show_nat.simps) auto
qed

lemma digit_ne: "d < 10 \<Longrightarrow> digit d \<noteq> CHR ''-''" "d < 10 \<Longrightarrow> digit d \<noteq> CHR ''+''"
  "d < 10 \<Longrightarrow> digit d \<noteq> CHR ''_''"
  by (auto simp: digit_def of_char_of dest!: arg_cong [where f = "of_char :: char \<Rightarrow> nat"])

lemma parseInt_show_int:
  assumes "- (2 ^ (bits - 1)) \<le> i" and "i < 2 ^ (bits - 1)"
  shows "parseInt bits (show_int i) = Some i"
proof (cases "i < 0")
  case True
  then show ?thesis using assms
    by (simp add: show_int_def parseInt_def parseMagnitude_def)
next
  case False
  obtain c rest where s: "show_nat (nat i) = c # rest" by (cases "show_nat (nat i)") auto
  with set_show_nat [of "nat i"] obtain d where "d < 10" "c = digit d" by auto
  then show ?thesis using False assms digit_ne parseDigits_show_nat [of "nat i"]
    by (simp add: show_int_def parseInt_def parseMagnitude_def s)
qed

lemma show_nat_inject [simp]: "show_nat a = show_nat b \<longleftrightarrow> a = b"
  by (metis parseDigits_show_nat option.inject)

lemma show_int_inject [simp]: "show_int a = show_int b \<longleftrightarrow> a = b"
proof
  assume eq: "show_int a = show_int b"
  have minus: "show_nat n \<noteq> CHR ''-'' # s" for n s
    using set_show_nat [of n] digit_ne(1) by auto blast
  show "a = b"
    using eq minus minus [symmetric] by (auto simp: show_int_def split: if_splits)
qed simp

section \<open>Quoting\<close>

text \<open>
  \<open>%q\<close> on a string: \<open>strconv.Quote\<close> for ASCII text.  Bytes from 128 on are parts of
  multi-byte characters and are passed through, which is right for printable characters.
\<close>

definition hexDigit :: "nat \<Rightarrow> char" where
  "hexDigit d = (if d < 10 then digit d else char_of (87 + d))"

definition quoteChar :: "char \<Rightarrow> string" where
  "quoteChar c = (let k = of_char c :: nat in
     if k = 34 \<or> k = 92 then [char_of (92 :: nat), c]
     else if k = 7 then char_of (92 :: nat) # ''a''
     else if k = 8 then char_of (92 :: nat) # ''b''
     else if k = 9 then char_of (92 :: nat) # ''t''
     else if k = 10 then char_of (92 :: nat) # ''n''
     else if k = 11 then char_of (92 :: nat) # ''v''
     else if k = 12 then char_of (92 :: nat) # ''f''
     else if k = 13 then char_of (92 :: nat) # ''r''
     else if k < 32 \<or> k = 127 then [char_of (92 :: nat), CHR ''x'', hexDigit (k div 16), hexDigit (k mod 16)]
     else [c])"

definition quote :: "string \<Rightarrow> string" where
  "quote s = CHR 0x22 # concat (map quoteChar s) @ [CHR 0x22]"

end
