(* ===== verification/Decisions_Helper.thy ===== *)
theory Decisions_Helper
  imports Decision_Machine Go_Format
begin

text \<open>
  The operations of \<open>decisionsHelper\<close> (\<open>internal_decision_state_machine.go\<close>): the
  insertion-ordered collection of decision machines of one workflow run, the commands the
  workflow environment issues (\<open>scheduleActivityTask\<close>, \<open>startTimer\<close>, \<dots>), the
  handlers the event processor calls, and \<open>getDecisions\<close>, which collects what has to be
  sent to the service.
\<close>

definition newDecisionsHelper :: decisionsHelper where
  "newDecisionsHelper =
     \<lparr>orderedDecisions = [], decisions = Map.empty, machines = Map.empty, nextRef = 0,
      scheduledEventIDToActivityID = Map.empty, scheduledEventIDToCancellationID = Map.empty,
      scheduledEventIDToSignalID = Map.empty\<rparr>"

definition getDecision :: "decisionID \<Rightarrow> ref dgo" where
  "getDecision i = go_bind (go_get (\<lambda>h. decisions h i)) (\<lambda>d. case d of
      None \<Rightarrow> panicIllegalState (unknownDecision i)
    | Some r \<Rightarrow> go_then
        (go_modify (\<lambda>h. h\<lparr>orderedDecisions := list_move_to_back r (orderedDecisions h)\<rparr>))
        (go_return r))"

definition addDecision :: "ref \<Rightarrow> unit dgo" where
  "addDecision r = go_bind (getID r) (\<lambda>i. go_bind (go_get (\<lambda>h. decisions h i)) (\<lambda>d. case d of
      Some _ \<Rightarrow> panicIllegalState (duplicateDecision i)
    | None \<Rightarrow> go_modify (\<lambda>h. h\<lparr>orderedDecisions := orderedDecisions h @ [r],
                                decisions := (decisions h)(i \<mapsto> r)\<rparr>)))"

text \<open>Create a machine and add it: the common shape of the commands.\<close>

definition addNew :: "ref dgo \<Rightarrow> ref dgo" where
  "addNew new = go_bind new (\<lambda>r. go_then (addDecision r) (go_return r))"

text \<open>Look a machine up and send it one event: the common shape of the handlers.\<close>

definition onDecision :: "decisionID \<Rightarrow> (ref \<Rightarrow> unit dgo) \<Rightarrow> ref dgo" where
  "onDecision i method = go_bind (getDecision i) (\<lambda>r. go_then (method r) (go_return r))"

section \<open>Activities\<close>

definition scheduleActivityTask :: "ScheduleActivityTaskDecisionAttributes \<Rightarrow> ref dgo" where
  "scheduleActivityTask attributes = addNew (newActivityDecisionStateMachine attributes)"

definition requestCancelActivityTask :: "string \<Rightarrow> ref dgo" where
  "requestCancelActivityTask activityID =
     onDecision (makeDecisionID decisionTypeActivity activityID) call_cancel"

definition handleActivityTaskClosed :: "string \<Rightarrow> ref dgo" where
  "handleActivityTaskClosed activityID =
     onDecision (makeDecisionID decisionTypeActivity activityID) call_handleCompletionEvent"

definition handleActivityTaskScheduled :: "int \<Rightarrow> string \<Rightarrow> unit dgo" where
  "handleActivityTaskScheduled scheduledEventID activityID =
     go_then (go_modify (\<lambda>h. h\<lparr>scheduledEventIDToActivityID :=
                (scheduledEventIDToActivityID h)(scheduledEventID \<mapsto> activityID)\<rparr>))
     (go_then (onDecision (makeDecisionID decisionTypeActivity activityID) call_handleInitiatedEvent)
     (go_return ()))"

definition handleActivityTaskCancelRequested :: "string \<Rightarrow> unit dgo" where
  "handleActivityTaskCancelRequested activityID =
     go_then (onDecision (makeDecisionID decisionTypeActivity activityID)
                call_handleCancelInitiatedEvent) (go_return ())"

definition handleActivityTaskCanceled :: "string \<Rightarrow> ref dgo" where
  "handleActivityTaskCanceled activityID =
     onDecision (makeDecisionID decisionTypeActivity activityID) call_handleCanceledEvent"

definition handleRequestCancelActivityTaskFailed :: "string \<Rightarrow> unit dgo" where
  "handleRequestCancelActivityTaskFailed activityID =
     go_then (onDecision (makeDecisionID decisionTypeActivity activityID)
                call_handleCancelFailedEvent) (go_return ())"

text \<open>
  \<open>getActivityID\<close> switches on the four activity-closing event types to read the scheduled
  event ID and panics for any other type: \<open>None\<close> stands for such an event.
\<close>

definition getActivityID :: "int option \<Rightarrow> string dgo" where
  "getActivityID closing = (case closing of
      None \<Rightarrow> panicIllegalState unexpectedEventType
    | Some scheduledEventID \<Rightarrow>
        go_bind (go_get (\<lambda>h. scheduledEventIDToActivityID h scheduledEventID)) (\<lambda>a. case a of
          None \<Rightarrow> panicIllegalState (activityIDNotFound scheduledEventID)
        | Some activityID \<Rightarrow> go_return activityID))"

section \<open>Markers\<close>

text \<open>
  \<open>recordVersionMarker\<close> encodes the pair of change ID and version with the data
  converter; the encoder is a parameter and may fail, in which case the code panics with
  the encoder's error.
\<close>

definition markerID :: "string \<Rightarrow> string \<Rightarrow> string" where
  "markerID markerName i = markerName @ ''_'' @ i"

definition recordMarker :: "string \<Rightarrow> string \<Rightarrow> bytes \<Rightarrow> ref dgo" where
  "recordMarker markerName i details =
     addNew (newMarkerDecisionStateMachine (markerID markerName i)
       \<lparr>rm_MarkerName = Some markerName, rm_Details = details\<rparr>)"

definition recordVersionMarker ::
  "(string \<Rightarrow> int \<Rightarrow> string + bytes) \<Rightarrow> string \<Rightarrow> int \<Rightarrow> ref dgo" where
  "recordVersionMarker encodeArgs changeID version = (case encodeArgs changeID version of
      Inl err \<Rightarrow> go_panic (StringPanic err)
    | Inr details \<Rightarrow> recordMarker versionMarkerName changeID details)"

definition recordSideEffectMarker :: "string \<Rightarrow> bytes \<Rightarrow> ref dgo" where
  "recordSideEffectMarker sideEffectID details =
     recordMarker sideEffectMarkerName sideEffectID details"

definition recordLocalActivityMarker :: "string \<Rightarrow> bytes \<Rightarrow> ref dgo" where
  "recordLocalActivityMarker activityID result =
     recordMarker localActivityMarkerName activityID result"

definition recordMutableSideEffectMarker :: "string \<Rightarrow> bytes \<Rightarrow> ref dgo" where
  "recordMutableSideEffectMarker mutableSideEffectID details =
     recordMarker mutableSideEffectMarkerName mutableSideEffectID details"

section \<open>Child workflows and external workflows\<close>

definition startChildWorkflowExecution ::
  "StartChildWorkflowExecutionDecisionAttributes \<Rightarrow> ref dgo" where
  "startChildWorkflowExecution attributes =
     addNew (newChildWorkflowDecisionStateMachine attributes)"

definition handleStartChildWorkflowExecutionInitiated :: "string \<Rightarrow> unit dgo" where
  "handleStartChildWorkflowExecutionInitiated workflowID =
     go_then (onDecision (makeDecisionID decisionTypeChildWorkflow workflowID)
                call_handleInitiatedEvent) (go_return ())"

definition handleStartChildWorkflowExecutionFailed :: "string \<Rightarrow> ref dgo" where
  "handleStartChildWorkflowExecutionFailed workflowID =
     onDecision (makeDecisionID decisionTypeChildWorkflow workflowID)
       call_handleInitiationFailedEvent"

definition requestCancelExternalWorkflowExecution ::
  "string \<Rightarrow> string \<Rightarrow> string \<Rightarrow> string \<Rightarrow> bool \<Rightarrow> ref dgo" where
  "requestCancelExternalWorkflowExecution domain workflowID runID cancellationID childWorkflowOnly =
     (if childWorkflowOnly then
        (if length cancellationID \<noteq> 0
         then go_panic (StringPanic ''cancellation on child workflow should not use cancellation ID'')
         else if length runID \<noteq> 0
         then go_panic (StringPanic ''cancellation on child workflow should not use run ID'')
         else onDecision (makeDecisionID decisionTypeChildWorkflow workflowID) call_cancel)
      else if length cancellationID = 0
      then go_panic (StringPanic ''cancellation on external workflow should use cancellation ID'')
      else addNew (newCancelExternalWorkflowStateMachine
             \<lparr>rce_Domain = Some domain, rce_WorkflowId = Some workflowID, rce_RunId = Some runID,
              rce_Control = cancellationID, rce_ChildWorkflowOnly = Some False\<rparr> cancellationID))"

definition isCancelExternalWorkflowEventForChildWorkflow :: "string \<Rightarrow> bool" where
  "isCancelExternalWorkflowEventForChildWorkflow cancellationID \<longleftrightarrow> length cancellationID = 0"

definition handleRequestCancelExternalWorkflowExecutionInitiated ::
  "int \<Rightarrow> string \<Rightarrow> string \<Rightarrow> unit dgo" where
  "handleRequestCancelExternalWorkflowExecutionInitiated initiatedeventID workflowID cancellationID =
     (if isCancelExternalWorkflowEventForChildWorkflow cancellationID then
        go_then (onDecision (makeDecisionID decisionTypeChildWorkflow workflowID)
                   call_handleCancelInitiatedEvent) (go_return ())
      else
        go_then (go_modify (\<lambda>h. h\<lparr>scheduledEventIDToCancellationID :=
                   (scheduledEventIDToCancellationID h)(initiatedeventID \<mapsto> cancellationID)\<rparr>))
        (go_then (onDecision (makeDecisionID decisionTypeCancellation cancellationID)
                   call_handleInitiatedEvent) (go_return ())))"

definition handleExternalWorkflowExecutionCancelRequested ::
  "int \<Rightarrow> string \<Rightarrow> (bool \<times> ref) dgo" where
  "handleExternalWorkflowExecutionCancelRequested initiatedeventID workflowID =
     go_bind (go_get (\<lambda>h. scheduledEventIDToCancellationID h initiatedeventID)) (\<lambda>c. case c of
        None \<Rightarrow> go_bind (getDecision (makeDecisionID decisionTypeChildWorkflow workflowID))
                  (\<lambda>r. go_return (False, r))
      | Some cancellationID \<Rightarrow>
          go_bind (onDecision (makeDecisionID decisionTypeCancellation cancellationID)
                     call_handleCompletionEvent) (\<lambda>r. go_return (True, r)))"

definition handleRequestCancelExternalWorkflowExecutionFailed ::
  "int \<Rightarrow> string \<Rightarrow> (bool \<times> ref) dgo" where
  "handleRequestCancelExternalWorkflowExecutionFailed initiatedeventID workflowID =
     go_bind (go_get (\<lambda>h. scheduledEventIDToCancellationID h initiatedeventID)) (\<lambda>c. case c of
        None \<Rightarrow> go_bind (onDecision (makeDecisionID decisionTypeChildWorkflow workflowID)
                  call_handleCancelFailedEvent) (\<lambda>r. go_return (False, r))
      | Some cancellationID \<Rightarrow>
          go_bind (onDecision (makeDecisionID decisionTypeCancellation cancellationID)
                     call_handleCompletionEvent) (\<lambda>r. go_return (True, r)))"

definition signalExternalWorkflowExecution ::
  "string \<Rightarrow> string \<Rightarrow> string \<Rightarrow> string \<Rightarrow> bytes \<Rightarrow> string \<Rightarrow> bool \<Rightarrow> ref dgo" where
  "signalExternalWorkflowExecution domain workflowID runID signalName input signalID childWorkflowOnly =
     addNew (newSignalExternalWorkflowStateMachine
       \<lparr>sew_Domain = Some domain,
        sew_Execution = Some \<lparr>we_WorkflowId = Some workflowID, we_RunId = Some runID\<rparr>,
        sew_SignalName = Some signalName, sew_Input = input, sew_Control = signalID,
        sew_ChildWorkflowOnly = Some childWorkflowOnly\<rparr> signalID)"

definition upsertSearchAttributes :: "string \<Rightarrow> fields option \<Rightarrow> ref dgo" where
  "upsertSearchAttributes upsertID searchAttr =
     addNew (newUpsertSearchAttributesStateMachine searchAttr upsertID)"

definition handleSignalExternalWorkflowExecutionInitiated :: "int \<Rightarrow> string \<Rightarrow> unit dgo" where
  "handleSignalExternalWorkflowExecutionInitiated initiatedEventID signalID =
     go_then (go_modify (\<lambda>h. h\<lparr>scheduledEventIDToSignalID :=
                (scheduledEventIDToSignalID h)(initiatedEventID \<mapsto> signalID)\<rparr>))
     (go_then (onDecision (makeDecisionID decisionTypeSignal signalID) call_handleInitiatedEvent)
     (go_return ()))"

definition getSignalID :: "int \<Rightarrow> string dgo" where
  "getSignalID initiatedEventID =
     go_bind (go_get (\<lambda>h. scheduledEventIDToSignalID h initiatedEventID)) (\<lambda>s. case s of
        None \<Rightarrow> go_panic (StringPanic (''unable to find signal ID: '' @ show_int initiatedEventID))
      | Some signalID \<Rightarrow> go_return signalID)"

definition handleSignalExternalWorkflowExecutionCompleted :: "int \<Rightarrow> ref dgo" where
  "handleSignalExternalWorkflowExecutionCompleted initiatedEventID =
     go_bind (getSignalID initiatedEventID) (\<lambda>signalID.
       onDecision (makeDecisionID decisionTypeSignal signalID) call_handleCompletionEvent)"

definition handleSignalExternalWorkflowExecutionFailed :: "int \<Rightarrow> ref dgo" where
  "handleSignalExternalWorkflowExecutionFailed initiatedEventID =
     go_bind (getSignalID initiatedEventID) (\<lambda>signalID.
       onDecision (makeDecisionID decisionTypeSignal signalID) call_handleCompletionEvent)"

section \<open>Timers\<close>

definition startTimer :: "StartTimerDecisionAttributes \<Rightarrow> ref dgo" where
  "startTimer attributes = addNew (newTimerDecisionStateMachine attributes)"

definition cancelTimer :: "string \<Rightarrow> ref dgo" where
  "cancelTimer timerID = onDecision (makeDecisionID decisionTypeTimer timerID) call_cancel"

definition handleTimerClosed :: "string \<Rightarrow> ref dgo" where
  "handleTimerClosed timerID =
     onDecision (makeDecisionID decisionTypeTimer timerID) call_handleCompletionEvent"

definition handleTimerStarted :: "string \<Rightarrow> unit dgo" where
  "handleTimerStarted timerID =
     go_then (onDecision (makeDecisionID decisionTypeTimer timerID) call_handleInitiatedEvent)
       (go_return ())"

definition handleTimerCanceled :: "string \<Rightarrow> unit dgo" where
  "handleTimerCanceled timerID =
     go_then (onDecision (makeDecisionID decisionTypeTimer timerID) call_handleCanceledEvent)
       (go_return ())"

definition handleCancelTimerFailed :: "string \<Rightarrow> unit dgo" where
  "handleCancelTimerFailed timerID =
     go_then (onDecision (makeDecisionID decisionTypeTimer timerID) call_handleCancelFailedEvent)
       (go_return ())"

definition handleChildWorkflowExecutionStarted :: "string \<Rightarrow> ref dgo" where
  "handleChildWorkflowExecutionStarted workflowID =
     onDecision (makeDecisionID decisionTypeChildWorkflow workflowID) call_handleStartedEvent"

definition handleChildWorkflowExecutionClosed :: "string \<Rightarrow> ref dgo" where
  "handleChildWorkflowExecutionClosed workflowID =
     onDecision (makeDecisionID decisionTypeChildWorkflow workflowID) call_handleCompletionEvent"

definition handleChildWorkflowExecutionCanceled :: "string \<Rightarrow> ref dgo" where
  "handleChildWorkflowExecutionCanceled workflowID =
     onDecision (makeDecisionID decisionTypeChildWorkflow workflowID) call_handleCanceledEvent"

section \<open>Collecting the decisions to send\<close>

text \<open>
  One iteration of the loop in \<open>getDecisions\<close> at element \<open>cur\<close>: emit the machine's
  decision, mark it as sent, and remove it when it is completed.  \<open>getDecisions_from\<close> is
  the loop; it takes the next element before it works on the current one, as the code does,
  and the first argument bounds the number of iterations by the length of the list.
\<close>

definition getDecisions_step :: "bool \<Rightarrow> ref \<Rightarrow> Decision list dgo" where
  "getDecisions_step markAsSent cur =
     go_bind (call_getDecision cur) (\<lambda>d.
     go_then (if markAsSent then call_handleDecisionSent cur else go_return ())
     (go_bind (deref cur) (\<lambda>m.
     go_then (if m_state m = decisionStateCompleted
              then go_modify (removeDecision (m_id m) cur) else go_return ())
     (go_return (case d of None \<Rightarrow> [] | Some decision \<Rightarrow> [decision])))))"

fun getDecisions_from :: "nat \<Rightarrow> bool \<Rightarrow> ref option \<Rightarrow> Decision list dgo" where
  "getDecisions_from fuel markAsSent None = go_return []"
| "getDecisions_from 0 markAsSent (Some cur) = go_panic LoopBound"
| "getDecisions_from (Suc fuel) markAsSent (Some cur) =
     go_bind (go_get (\<lambda>h. list_next cur (orderedDecisions h))) (\<lambda>next.
     go_bind (getDecisions_step markAsSent cur) (\<lambda>ds.
     go_bind (getDecisions_from fuel markAsSent next) (\<lambda>rest. go_return (ds @ rest))))"

definition getDecisions :: "bool \<Rightarrow> Decision list dgo" where
  "getDecisions markAsSent =
     go_bind (go_get (\<lambda>h. (length (orderedDecisions h), list_front (orderedDecisions h))))
       (\<lambda>(n, front). getDecisions_from n markAsSent front)"

end
