(* ===== verification/Decision_Lifecycle.thy ===== *)
theory Decision_Lifecycle
  imports Decisions_Helper
begin

text \<open>
  The life cycle of a decision machine as an abstract specification, and the proof that the
  methods of \<open>Decision_Machine\<close> implement it.

  The specification is one transition diagram per kind of machine (\<open>edges\<close>), a list of
  labelled edges with no heap, no inheritance and no dispatch, and the events a state
  tolerates without moving (\<open>tolerates\<close>).  \<open>next_state\<close> reads the diagram.
\<close>

section \<open>The diagrams\<close>

datatype machineEvent =
    EvCancel | EvDecisionSent | EvInitiated | EvInitiationFailed | EvStarted
  | EvCompletion | EvCancelInitiated | EvCancelFailed | EvCanceled

datatype kindTag =
    ActivityKind | TimerKind | ChildWorkflowKind | CancelExternalKind | SignalExternalKind
  | MarkerKind | UpsertKind

fun kind_tag :: "machineKind \<Rightarrow> kindTag" where
  "kind_tag (activityDecisionStateMachine _) = ActivityKind"
| "kind_tag (timerDecisionStateMachine _ _) = TimerKind"
| "kind_tag (childWorkflowDecisionStateMachine _) = ChildWorkflowKind"
| "kind_tag (cancelExternalWorkflowDecisionStateMachine _) = CancelExternalKind"
| "kind_tag (signalExternalWorkflowDecisionStateMachine _) = SignalExternalKind"
| "kind_tag (markerDecisionStateMachine _) = MarkerKind"
| "kind_tag (upsertSearchAttributesDecisionStateMachine _) = UpsertKind"

type_synonym edge = "decisionState \<times> machineEvent \<times> decisionState"

text \<open>Edges shared by activities, timers and child workflows.\<close>

definition cancellable_edges :: "edge list" where
  "cancellable_edges =
    [(decisionStateCreated, EvDecisionSent, decisionStateDecisionSent),
     (decisionStateCreated, EvCancel, decisionStateCompleted),
     (decisionStateDecisionSent, EvInitiated, decisionStateInitiated),
     (decisionStateDecisionSent, EvCancel, decisionStateCanceledBeforeInitiated),
     (decisionStateDecisionSent, EvInitiationFailed, decisionStateCompleted),
     (decisionStateCanceledBeforeInitiated, EvInitiated, decisionStateCanceledAfterInitiated),
     (decisionStateCanceledBeforeInitiated, EvInitiationFailed, decisionStateCompleted),
     (decisionStateInitiated, EvCancel, decisionStateCanceledAfterInitiated),
     (decisionStateInitiated, EvInitiationFailed, decisionStateCompleted),
     (decisionStateInitiated, EvCompletion, decisionStateCompleted),
     (decisionStateCanceledAfterInitiated, EvCompletion, decisionStateCompleted),
     (decisionStateCancellationDecisionSent, EvCompletion,
        decisionStateCompletedAfterCancellationDecisionSent),
     (decisionStateCancellationDecisionSent, EvCanceled, decisionStateCompleted),
     (decisionStateCompletedAfterCancellationDecisionSent, EvCancelFailed, decisionStateCompleted)]"

definition simple_edges :: "edge list" where
  "simple_edges =
    [(decisionStateCanceledAfterInitiated, EvDecisionSent, decisionStateCancellationDecisionSent),
     (decisionStateCancellationDecisionSent, EvCancelFailed, decisionStateInitiated)]"

definition child_edges :: "edge list" where
  "child_edges =
    [(decisionStateInitiated, EvStarted, decisionStateStarted),
     (decisionStateCanceledAfterInitiated, EvStarted, decisionStateCanceledAfterStarted),
     (decisionStateStarted, EvCancel, decisionStateCanceledAfterStarted),
     (decisionStateStarted, EvCanceled, decisionStateCompleted),
     (decisionStateStarted, EvCompletion, decisionStateCompleted),
     (decisionStateCanceledAfterStarted, EvCompletion, decisionStateCompleted),
     (decisionStateCanceledAfterStarted, EvDecisionSent, decisionStateCancellationDecisionSent),
     (decisionStateCancellationDecisionSent, EvCancelFailed, decisionStateStarted)]"

definition external_edges :: "edge list" where
  "external_edges =
    [(decisionStateCreated, EvDecisionSent, decisionStateDecisionSent),
     (decisionStateDecisionSent, EvInitiated, decisionStateInitiated),
     (decisionStateInitiated, EvCompletion, decisionStateCompleted)]"

definition fire_and_forget_edges :: "edge list" where
  "fire_and_forget_edges = [(decisionStateCreated, EvDecisionSent, decisionStateCompleted)]"

fun edges :: "kindTag \<Rightarrow> edge list" where
  "edges ActivityKind = cancellable_edges @ simple_edges"
| "edges TimerKind = cancellable_edges @ simple_edges"
| "edges ChildWorkflowKind = cancellable_edges @ child_edges"
| "edges CancelExternalKind = external_edges"
| "edges SignalExternalKind = external_edges"
| "edges MarkerKind = fire_and_forget_edges"
| "edges UpsertKind = fire_and_forget_edges"

lemmas edge_defs = cancellable_edges_def simple_edges_def child_edges_def external_edges_def
  fire_and_forget_edges_def

definition cancellable :: "kindTag \<Rightarrow> bool" where
  "cancellable k \<longleftrightarrow> k \<in> {ActivityKind, TimerKind, ChildWorkflowKind}"

text \<open>Events that leave the state as it is without being an error.\<close>

fun tolerates :: "kindTag \<Rightarrow> machineEvent \<Rightarrow> decisionState \<Rightarrow> bool" where
  "tolerates k EvDecisionSent s = True"
| "tolerates k EvStarted s = cancellable k"
| "tolerates k EvCancel s = (cancellable k \<and>
     (s = decisionStateCompleted \<or> s = decisionStateCompletedAfterCancellationDecisionSent))"
| "tolerates k EvCancelInitiated s = (cancellable k \<and> s = decisionStateCancellationDecisionSent)"
| "tolerates k _ s = False"

definition next_state :: "kindTag \<Rightarrow> machineEvent \<Rightarrow> decisionState \<Rightarrow> decisionState option" where
  "next_state k ev s = (case List.find (\<lambda>(a, e, b). a = s \<and> e = ev) (edges k) of
      Some (_, _, s') \<Rightarrow> Some s'
    | None \<Rightarrow> if tolerates k ev s then Some s else None)"

section \<open>The machines as computations on the heap\<close>

text \<open>Send one event to a machine through the interface.\<close>

fun send :: "machineEvent \<Rightarrow> ref \<Rightarrow> unit dgo" where
  "send EvCancel = call_cancel"
| "send EvDecisionSent = call_handleDecisionSent"
| "send EvInitiated = call_handleInitiatedEvent"
| "send EvInitiationFailed = call_handleInitiationFailedEvent"
| "send EvStarted = call_handleStartedEvent"
| "send EvCompletion = call_handleCompletionEvent"
| "send EvCancelInitiated = call_handleCancelInitiatedEvent"
| "send EvCancelFailed = call_handleCancelFailedEvent"
| "send EvCanceled = call_handleCanceledEvent"

lemma deref_bind [go_simps]: "machines h r = Some m \<Longrightarrow> go_bind (deref r) f h = f m h"
  by (simp add: go_bind_def deref_def)

lemma deref_run [go_simps]: "machines h r = Some m \<Longrightarrow> deref r h = (Inr m, h)"
  by (simp add: deref_def)

lemma getState_bind [go_simps]: "machines h r = Some m \<Longrightarrow> go_bind (getState r) f h = f (m_state m) h"
  by (simp add: getState_def go_bind_assoc go_simps)

lemma getID_bind [go_simps]: "machines h r = Some m \<Longrightarrow> go_bind (getID r) f h = f (m_id m) h"
  by (simp add: getID_def go_bind_assoc go_simps)

lemma getData_bind [go_simps]: "machines h r = Some m \<Longrightarrow> go_bind (getData r) f h = f (m_data m) h"
  by (simp add: getData_def go_bind_assoc go_simps)

lemma update_machine_run [go_simps]:
  "machines h r = Some m \<Longrightarrow>
   update_machine r f h = (Inr (), h\<lparr>machines := (machines h)(r \<mapsto> f m)\<rparr>)"
  by (simp add: update_machine_def go_simps)

text \<open>What \<open>moveState\<close> does to the heap and the two collections.\<close>

definition drop_if_completed :: "machine \<Rightarrow> decisionsHelper \<Rightarrow> decisionsHelper" where
  "drop_if_completed m h = (if m_state m = decisionStateCompleted
     then (case decisions h (m_id m) of None \<Rightarrow> h | Some elem \<Rightarrow> removeDecision (m_id m) elem h)
     else h)"

lemma enterState_simps [simp]:
  "m_id (enterState s ev m) = m_id m" "m_state (enterState s ev m) = s"
  "m_data (enterState s ev m) = m_data m" "m_kind (enterState s ev m) = m_kind m"
  by (simp_all add: enterState_def)

lemma set_canceled_simps [simp]:
  "m_id (set_canceled m) = m_id m" "m_state (set_canceled m) = m_state m"
  "m_data (set_canceled m) = m_data m" "kind_tag (m_kind (set_canceled m)) = kind_tag (m_kind m)"
  by (simp_all add: set_canceled_def split: machineKind.split)

lemma moveState_run [go_simps]:
  "machines h r = Some m \<Longrightarrow> moveState r s ev h =
     (Inr (), drop_if_completed (enterState s ev m)
        (h\<lparr>machines := (machines h)(r \<mapsto> enterState s ev m)\<rparr>))"
  by (auto simp: moveState_def drop_if_completed_def go_simps split: option.split)

lemma failStateTransition_run [go_simps]:
  "machines h r = Some m \<Longrightarrow> failStateTransition r ev h =
     (Inl (stateMachineIllegalStatePanic (invalidTransition ev (m_id m) (m_state m))), h)"
  by (simp add: failStateTransition_def panicIllegalState_def go_simps)

lemma appendHistory_run [go_simps]:
  "machines h r = Some m \<Longrightarrow> appendHistory r ev h =
     (Inr (), h\<lparr>machines := (machines h)(r \<mapsto> m\<lparr>m_history := m_history m @ [ev]\<rparr>)\<rparr>)"
  by (simp add: appendHistory_def go_simps)

lemmas base_method_defs =
  base_handleDecisionSent_def base_cancel_def base_handleInitiatedEvent_def
  base_handleInitiationFailedEvent_def base_handleStartedEvent_def base_handleCompletionEvent_def
  base_handleCancelInitiatedEvent_def base_handleCancelFailedEvent_def base_handleCanceledEvent_def

lemmas override_defs =
  activity_handleDecisionSent_def activity_handleCancelFailedEvent_def
  timer_cancel_def timer_handleDecisionSent_def timer_handleCancelFailedEvent_def
  childWorkflow_handleDecisionSent_def childWorkflow_handleStartedEvent_def
  childWorkflow_handleCancelFailedEvent_def childWorkflow_cancel_def
  childWorkflow_handleCanceledEvent_def childWorkflow_handleCompletionEvent_def
  naive_unsupported_def cancelExternal_handleInitiatedEvent_def
  cancelExternal_handleCompletionEvent_def signalExternal_handleInitiatedEvent_def
  signalExternal_handleCompletionEvent_def marker_handleDecisionSent_def upsert_handleDecisionSent_def

lemmas call_defs =
  call_cancel_def call_handleDecisionSent_def call_handleInitiatedEvent_def
  call_handleInitiationFailedEvent_def call_handleStartedEvent_def call_handleCompletionEvent_def
  call_handleCancelInitiatedEvent_def call_handleCancelFailedEvent_def call_handleCanceledEvent_def

section \<open>The code implements the diagrams\<close>

text \<open>
  \<open>moves_to m h h' r s\<close>: from \<open>h\<close> to \<open>h'\<close> the machine \<open>r\<close>, which was
  \<open>m\<close>, went to state \<open>s\<close>; its identity, payload and kind are kept, no other machine
  changed, and the machine left the helper's collections exactly when it became completed.
\<close>

definition moves_to ::
  "machine \<Rightarrow> decisionsHelper \<Rightarrow> decisionsHelper \<Rightarrow> ref \<Rightarrow> decisionState \<Rightarrow> bool" where
  "moves_to m h h' r s \<longleftrightarrow> (\<exists>m'. m_id m' = m_id m \<and> m_state m' = s \<and> m_data m' = m_data m \<and>
      kind_tag (m_kind m') = kind_tag (m_kind m) \<and>
      h' = (if s = m_state m then (\<lambda>h. h) else drop_if_completed m')
             (h\<lparr>machines := (machines h)(r \<mapsto> m')\<rparr>))"

text \<open>A rejected event: a panic, with state, identity and collections as they were.\<close>

definition rejected :: "machine \<Rightarrow> decisionsHelper \<Rightarrow> decisionsHelper \<Rightarrow> ref \<Rightarrow> bool" where
  "rejected m h h' r \<longleftrightarrow> (\<exists>m'. m_id m' = m_id m \<and> m_state m' = m_state m \<and> m_data m' = m_data m \<and>
      kind_tag (m_kind m') = kind_tag (m_kind m) \<and> h' = h\<lparr>machines := (machines h)(r \<mapsto> m')\<rparr>)"

definition implements :: "machineEvent \<Rightarrow> ref \<Rightarrow> machine \<Rightarrow> decisionsHelper \<Rightarrow> bool" where
  "implements ev r m h \<longleftrightarrow> (case next_state (kind_tag (m_kind m)) ev (m_state m) of
      Some s \<Rightarrow> fst (send ev r h) = Inr () \<and> moves_to m h (snd (send ev r h)) r s
    | None \<Rightarrow> (\<exists>p. fst (send ev r h) = Inl p) \<and> rejected m h (snd (send ev r h)) r)"

lemma moves_to_enterState:
  "machines h r = Some m \<Longrightarrow> s \<noteq> m_state m \<Longrightarrow> m_id m' = m_id m \<Longrightarrow> m_data m' = m_data m \<Longrightarrow>
   kind_tag (m_kind m') = kind_tag (m_kind m) \<Longrightarrow>
   moves_to m h (drop_if_completed (enterState s ev m')
     (h\<lparr>machines := (machines h)(r \<mapsto> enterState s ev m')\<rparr>)) r s"
  unfolding moves_to_def by (intro exI [of _ "enterState s ev m'"]) simp

lemma moves_to_note:
  "m_id m' = m_id m \<Longrightarrow> m_state m' = m_state m \<Longrightarrow> m_data m' = m_data m \<Longrightarrow>
   kind_tag (m_kind m') = kind_tag (m_kind m) \<Longrightarrow>
   s = m_state m \<Longrightarrow> moves_to m h (h\<lparr>machines := (machines h)(r \<mapsto> m')\<rparr>) r s"
  unfolding moves_to_def by (intro exI [of _ m']) simp

lemma heap_update_same [simp]:
  "machines h r = Some m \<Longrightarrow> h\<lparr>machines := (machines h)(r \<mapsto> m)\<rparr> = h"
  by (cases h) (simp add: fun_upd_idem)

lemma moves_to_same: "machines h r = Some m \<Longrightarrow> s = m_state m \<Longrightarrow> moves_to m h h r s"
  unfolding moves_to_def by (intro exI [of _ m]) simp

lemma rejected_same: "machines h r = Some m \<Longrightarrow> rejected m h h r"
  unfolding rejected_def by (intro exI [of _ m]) simp

lemma rejected_note:
  "m_id m' = m_id m \<Longrightarrow> m_state m' = m_state m \<Longrightarrow> m_data m' = m_data m \<Longrightarrow>
   kind_tag (m_kind m') = kind_tag (m_kind m) \<Longrightarrow>
   rejected m h (h\<lparr>machines := (machines h)(r \<mapsto> m')\<rparr>) r"
  unfolding rejected_def by (intro exI [of _ m']) simp

lemmas implements_simps = implements_def next_state_def edge_defs cancellable_def call_defs
  override_defs base_method_defs go_simps moves_to_enterState moves_to_same moves_to_note
  rejected_same rejected_note

lemma implements_DecisionSent:
  "machines h r = Some m \<Longrightarrow> implements EvDecisionSent r m h"
  by (cases "m_kind m"; cases "m_state m") (simp_all add: implements_simps)

lemma implements_Cancel: "machines h r = Some m \<Longrightarrow> implements EvCancel r m h"
  by (cases "m_kind m"; cases "m_state m") (simp_all add: implements_simps)

lemma implements_Initiated: "machines h r = Some m \<Longrightarrow> implements EvInitiated r m h"
  by (cases "m_kind m"; cases "m_state m") (simp_all add: implements_simps)

lemma implements_InitiationFailed:
  "machines h r = Some m \<Longrightarrow> implements EvInitiationFailed r m h"
  by (cases "m_kind m"; cases "m_state m") (simp_all add: implements_simps)

lemma implements_Started: "machines h r = Some m \<Longrightarrow> implements EvStarted r m h"
  by (cases "m_kind m"; cases "m_state m") (simp_all add: implements_simps)

lemma implements_Completion: "machines h r = Some m \<Longrightarrow> implements EvCompletion r m h"
  by (cases "m_kind m"; cases "m_state m") (simp_all add: implements_simps)

lemma implements_CancelInitiated: "machines h r = Some m \<Longrightarrow> implements EvCancelInitiated r m h"
  by (cases "m_kind m"; cases "m_state m") (simp_all add: implements_simps)

lemma implements_CancelFailed: "machines h r = Some m \<Longrightarrow> implements EvCancelFailed r m h"
  by (cases "m_kind m"; cases "m_state m") (simp_all add: implements_simps)

lemma implements_Canceled: "machines h r = Some m \<Longrightarrow> implements EvCanceled r m h"
  by (cases "m_kind m"; cases "m_state m") (simp_all add: implements_simps)


lemma send_implements: "machines h r = Some m \<Longrightarrow> implements ev r m h"
  by (cases ev) (simp_all only: implements_DecisionSent implements_Cancel implements_Initiated
    implements_InitiationFailed implements_Started implements_Completion
    implements_CancelInitiated implements_CancelFailed implements_Canceled)

lemma send_Some:
  assumes "machines h r = Some m" and "next_state (kind_tag (m_kind m)) ev (m_state m) = Some s"
  obtains h' where "send ev r h = (Inr (), h')" and "moves_to m h h' r s"
  using send_implements [OF assms(1), of ev] assms(2)
  by (cases "send ev r h") (auto simp: implements_def)

lemma send_None:
  assumes "machines h r = Some m" and "next_state (kind_tag (m_kind m)) ev (m_state m) = None"
  obtains p h' where "send ev r h = (Inl p, h')" and "rejected m h h' r"
  using send_implements [OF assms(1), of ev] assms(2)
  by (cases "send ev r h") (auto simp: implements_def)

lemma send_dangling: "machines h r = None \<Longrightarrow> send ev r h = (Inl nilDereference, h)"
  by (cases ev) (simp_all add: call_defs go_bind_def deref_def)

section \<open>Laws of a life cycle\<close>

text \<open>
  What the helper relies on, stated for any machine with a step function, an initial and a
  final state, a flush event (the decision task completed) and a predicate that says
  whether a state has a decision to send.
\<close>

locale lifecycle =
  fixes step :: "'e \<Rightarrow> 's \<Rightarrow> 's option"
    and init :: 's and final :: 's
    and flush :: 'e
    and pending :: "'s \<Rightarrow> bool"
  assumes final_absorbs: "step e final = Some s \<Longrightarrow> s = final"
    and no_return: "step e s = Some init \<Longrightarrow> s = init"
    and flush_clears: "\<exists>t. step flush s = Some t \<and> \<not> pending t"
    and init_pending: "pending init"
    and final_done: "\<not> pending final"
begin

fun run :: "'e list \<Rightarrow> 's \<Rightarrow> 's option" where
  "run [] s = Some s"
| "run (e # es) s = Option.bind (step e s) (run es)"

lemma run_append: "run (xs @ ys) s = Option.bind (run xs s) (run ys)"
proof (induction xs arbitrary: s)
  case (Cons x xs)
  then show ?case by (cases "step x s") simp_all
qed simp

lemma run_final: "run es final = Some s \<Longrightarrow> s = final"
  by (induction es) (auto simp: bind_eq_Some_conv dest: final_absorbs)

lemma run_no_return: "run es s = Some t \<Longrightarrow> s \<noteq> init \<Longrightarrow> t \<noteq> init"
  by (induction es arbitrary: s) (auto simp: bind_eq_Some_conv dest: no_return)

lemma flush_leaves_init: "step flush init = Some t \<Longrightarrow> t \<noteq> init"
  using flush_clears [of init] init_pending by auto

text \<open>Once flushed, a machine never offers its initial decision again.\<close>

lemma start_once: "run (flush # es) init = Some t \<Longrightarrow> t \<noteq> init"
  using flush_leaves_init run_no_return by (auto simp: bind_eq_Some_conv)

text \<open>Two flushes in a row: the second has nothing to send.\<close>

lemma flush_idle: "step flush s = Some t \<Longrightarrow> \<not> pending t"
  using flush_clears [of s] by auto

end

definition emits :: "kindTag \<Rightarrow> decisionState \<Rightarrow> bool" where
  "emits k s \<longleftrightarrow> s = decisionStateCreated \<or>
     (s = decisionStateCanceledAfterInitiated \<and> k \<in> {ActivityKind, TimerKind}) \<or>
     (s = decisionStateCanceledAfterStarted \<and> k = ChildWorkflowKind)"

lemma getDecision_emits: "machine_getDecision m \<noteq> None \<longleftrightarrow> emits (kind_tag (m_kind m)) (m_state m)"
  by (cases "m_kind m"; cases "m_state m")
    (simp_all add: machine_getDecision_def activity_getDecision_def timer_getDecision_def
      childWorkflow_getDecision_def naive_getDecision_def emits_def)

interpretation dl: lifecycle "next_state k" decisionStateCreated decisionStateCompleted
  EvDecisionSent "emits k" for k
proof unfold_locales
  show "s = decisionStateCompleted" if "next_state k e decisionStateCompleted = Some s" for e s
    using that by (cases k; cases e) (simp_all add: next_state_def edge_defs cancellable_def)
  show "s = decisionStateCreated" if "next_state k e s = Some decisionStateCreated" for e s
    using that by (cases k; cases e; cases s) (simp_all add: next_state_def edge_defs cancellable_def)
  show "\<exists>t. next_state k EvDecisionSent s = Some t \<and> \<not> emits k t" for s
    by (cases k; cases s) (simp_all add: next_state_def edge_defs emits_def)
qed (simp_all add: emits_def)

section \<open>Reachable states and completion\<close>

inductive reach_state :: "kindTag \<Rightarrow> decisionState \<Rightarrow> bool" for k where
  created: "reach_state k decisionStateCreated"
| step: "reach_state k s \<Longrightarrow> next_state k ev s = Some t \<Longrightarrow> reach_state k t"

fun states_of :: "kindTag \<Rightarrow> decisionState set" where
  "states_of ActivityKind = UNIV - {decisionStateStarted, decisionStateCanceledAfterStarted}"
| "states_of TimerKind = UNIV - {decisionStateStarted, decisionStateCanceledAfterStarted}"
| "states_of ChildWorkflowKind = UNIV"
| "states_of CancelExternalKind = {decisionStateCreated, decisionStateDecisionSent,
     decisionStateInitiated, decisionStateCompleted}"
| "states_of SignalExternalKind = {decisionStateCreated, decisionStateDecisionSent,
     decisionStateInitiated, decisionStateCompleted}"
| "states_of MarkerKind = {decisionStateCreated, decisionStateCompleted}"
| "states_of UpsertKind = {decisionStateCreated, decisionStateCompleted}"

lemma states_of_step: "s \<in> states_of k \<Longrightarrow> next_state k ev s = Some t \<Longrightarrow> t \<in> states_of k"
  by (cases k; cases ev; cases s) (auto simp: next_state_def edge_defs cancellable_def)

lemma reach_states_of: "reach_state k s \<Longrightarrow> s \<in> states_of k"
proof (induction rule: reach_state.induct)
  case created
  show ?case by (cases k) simp_all
next
  case (step s ev t)
  then show ?case by (blast intro: states_of_step)
qed

text \<open>
  A sequence of service responses that completes a machine from any reachable state, with
  no further command of the workflow.
\<close>

fun drain :: "kindTag \<Rightarrow> decisionState \<Rightarrow> machineEvent list" where
  "drain k decisionStateCreated =
     (if k = MarkerKind \<or> k = UpsertKind then [EvDecisionSent]
      else [EvDecisionSent, EvInitiated, EvCompletion])"
| "drain k decisionStateDecisionSent = [EvInitiated, EvCompletion]"
| "drain k decisionStateCanceledBeforeInitiated = [EvInitiated, EvCompletion]"
| "drain k decisionStateInitiated = [EvCompletion]"
| "drain k decisionStateStarted = [EvCompletion]"
| "drain k decisionStateCanceledAfterInitiated = [EvCompletion]"
| "drain k decisionStateCanceledAfterStarted = [EvCompletion]"
| "drain k decisionStateCancellationDecisionSent = [EvCompletion, EvCancelFailed]"
| "drain k decisionStateCompletedAfterCancellationDecisionSent = [EvCancelFailed]"
| "drain k decisionStateCompleted = []"

lemma drain_no_cancel: "EvCancel \<notin> set (drain k s)"
  by (cases s) auto

lemma drain_completes:
  "s \<in> states_of k \<Longrightarrow> dl.run k (drain k s) s = Some decisionStateCompleted"
  by (cases k; cases s) (simp_all add: next_state_def edge_defs)

end
