(* ===== verification/Helper_Refinement.thy ===== *)
theory Helper_Refinement
  imports Decision_Lifecycle
begin

text \<open>
  The decisions helper keeps one collection in two Go containers: a doubly linked list of
  machines in decision order and a map from decision ID to list element.  This theory
  states their coherence as an invariant, shows that every operation keeps it, and shows
  that the pair of containers behaves like one abstract object: a list of machines with
  pairwise different IDs (\<open>contents\<close>).
\<close>

section \<open>The coherence invariant\<close>

definition listed :: "decisionsHelper \<Rightarrow> decisionID \<Rightarrow> ref \<Rightarrow> bool" where
  "listed h i r \<longleftrightarrow> r \<in> set (orderedDecisions h) \<and> (\<exists>m. machines h r = Some m \<and> m_id m = i)"

definition helper_inv :: "decisionsHelper \<Rightarrow> bool" where
  "helper_inv h \<longleftrightarrow>
     distinct (orderedDecisions h) \<and>
     (\<forall>r \<in> set (orderedDecisions h). \<exists>m. machines h r = Some m \<and> m_state m \<noteq> decisionStateCompleted) \<and>
     (\<forall>i r. decisions h i = Some r \<longleftrightarrow> listed h i r) \<and>
     (\<forall>r m. machines h r = Some m \<longrightarrow> r < nextRef h)"

lemma helper_inv_distinct: "helper_inv h \<Longrightarrow> distinct (orderedDecisions h)"
  by (simp add: helper_inv_def)

lemma helper_inv_listed:
  assumes "helper_inv h" and "r \<in> set (orderedDecisions h)"
  obtains m where "machines h r = Some m" and "decisions h (m_id m) = Some r"
    and "m_state m \<noteq> decisionStateCompleted"
  using assms by (fastforce simp: helper_inv_def listed_def)

lemma helper_inv_mapped:
  assumes "helper_inv h" and "decisions h i = Some r"
  obtains m where "machines h r = Some m" and "m_id m = i" and "r \<in> set (orderedDecisions h)"
    and "m_state m \<noteq> decisionStateCompleted"
  using assms by (fastforce simp: helper_inv_def listed_def)

lemma helper_inv_new: "helper_inv newDecisionsHelper"
  by (simp add: helper_inv_def listed_def newDecisionsHelper_def)

lemma helper_inv_fresh: "helper_inv h \<Longrightarrow> machines h (nextRef h) = None"
  by (cases "machines h (nextRef h)") (auto simp: helper_inv_def)

text \<open>A heap update that keeps the identity of a machine and does not complete it.\<close>

lemma helper_inv_update:
  assumes "helper_inv h" and "machines h r = Some m" and "m_id m' = m_id m"
    and "m_state m' = decisionStateCompleted \<Longrightarrow> m_state m = decisionStateCompleted"
  shows "helper_inv (h\<lparr>machines := (machines h)(r \<mapsto> m')\<rparr>)"
  using assms by (fastforce simp: helper_inv_def listed_def)

lemma helper_invI:
  assumes "distinct (orderedDecisions h)"
    and "\<And>r. r \<in> set (orderedDecisions h) \<Longrightarrow>
      \<exists>m. machines h r = Some m \<and> m_state m \<noteq> decisionStateCompleted"
    and "\<And>i r. decisions h i = Some r \<Longrightarrow> listed h i r"
    and "\<And>i r. listed h i r \<Longrightarrow> decisions h i = Some r"
    and "\<And>r m. machines h r = Some m \<Longrightarrow> r < nextRef h"
  shows "helper_inv h"
  using assms unfolding helper_inv_def by blast

lemma helper_inv_bound: "helper_inv h \<Longrightarrow> machines h r = Some m \<Longrightarrow> r < nextRef h"
  by (auto simp: helper_inv_def)

lemma helper_inv_decisions: "helper_inv h \<Longrightarrow> decisions h i = Some r \<longleftrightarrow> listed h i r"
  by (auto simp: helper_inv_def)

text \<open>Completing a machine: the update followed by its removal under its own ID.\<close>

lemma helper_inv_remove:
  assumes inv: "helper_inv h" and e: "decisions h (m_id m) = Some e"
    and m: "machines h r = Some m" and i: "m_id m' = m_id m"
  shows "helper_inv (removeDecision (m_id m) e (h\<lparr>machines := (machines h)(r \<mapsto> m')\<rparr>))" (is "helper_inv ?h")
proof (rule helper_invI)
  have fields: "orderedDecisions ?h = remove1 e (orderedDecisions h)"
    "decisions ?h = (decisions h)(m_id m := None)" "machines ?h = (machines h)(r \<mapsto> m')"
    "nextRef ?h = nextRef h"
    by (simp_all add: removeDecision_def)
  note dist = helper_inv_distinct [OF inv]
  have rset: "r' = e" if "listed h (m_id m) r'" for r'
    using that e by (simp flip: helper_inv_decisions [OF inv])
  have r_out: "r \<notin> set (orderedDecisions h) \<or> r = e"
    using rset m by (auto simp: listed_def)
  show "distinct (orderedDecisions ?h)" using dist by (simp add: fields)
  show "\<exists>x. machines ?h r' = Some x \<and> m_state x \<noteq> decisionStateCompleted"
    if "r' \<in> set (orderedDecisions ?h)" for r'
    using that dist r_out inv by (auto simp: fields elim!: helper_inv_listed)
  show "listed ?h i' r'" if "decisions ?h i' = Some r'" for i' r'
    using that dist r_out m e helper_inv_decisions [OF inv]
    by (auto simp: fields listed_def split: if_splits)
  show "decisions ?h i' = Some r'" if l: "listed ?h i' r'" for i' r'
  proof -
    from l r_out dist have l': "listed h i' r'" and ne: "r' \<noteq> e"
      by (auto simp: fields listed_def split: if_splits)
    then have "decisions h i' = Some r'" by (simp add: helper_inv_decisions [OF inv])
    moreover from l' ne rset have "i' \<noteq> m_id m" by blast
    ultimately show ?thesis by (simp add: fields)
  qed
  show "r' < nextRef ?h" if "machines ?h r' = Some x" for r' x
    using that helper_inv_bound [OF inv] m by (auto simp: fields split: if_splits)
qed

lemma helper_inv_complete:
  assumes inv: "helper_inv h" and m: "machines h r = Some m" and i: "m_id m' = m_id m"
  shows "helper_inv (drop_if_completed m' (h\<lparr>machines := (machines h)(r \<mapsto> m')\<rparr>))"
proof (cases "m_state m' = decisionStateCompleted")
  case False
  then show ?thesis using helper_inv_update [OF inv m i] by (simp add: drop_if_completed_def)
next
  case True
  show ?thesis
  proof (cases "decisions h (m_id m)")
    case None
    let ?h = "h\<lparr>machines := (machines h)(r \<mapsto> m')\<rparr>"
    have out: "r \<notin> set (orderedDecisions h)"
      using None m inv by (auto elim!: helper_inv_listed)
    have same: "listed ?h i' r' \<longleftrightarrow> listed h i' r'" for i' r'
      using out by (auto simp: listed_def)
    have "helper_inv ?h"
      using inv out m helper_inv_bound [OF inv m]
      by (intro helper_invI) (auto simp: same helper_inv_decisions [OF inv] elim: helper_inv_listed
        dest: helper_inv_distinct helper_inv_bound split: if_splits)
    with None True i show ?thesis by (simp add: drop_if_completed_def)
  next
    case (Some e)
    then show ?thesis using helper_inv_remove [OF inv Some m i] True i
      by (simp add: drop_if_completed_def)
  qed
qed

section \<open>Every operation keeps the invariant\<close>

lemma inv_moves_to: "helper_inv h \<Longrightarrow> machines h r = Some m \<Longrightarrow> moves_to m h h' r s \<Longrightarrow> helper_inv h'"
  by (auto simp: moves_to_def split: if_splits intro: helper_inv_update helper_inv_complete)

lemma inv_rejected: "helper_inv h \<Longrightarrow> machines h r = Some m \<Longrightarrow> rejected m h h' r \<Longrightarrow> helper_inv h'"
  by (auto simp: rejected_def intro: helper_inv_update)

lemma inv_send [go_keeps]: "go_inv helper_inv (send ev r)"
proof (rule go_invI)
  fix h assume inv: "helper_inv h"
  show "helper_inv (snd (send ev r h))"
  proof (cases "machines h r")
    case None
    with inv show ?thesis by (simp add: send_dangling)
  next
    case (Some m)
    show ?thesis
    proof (cases "next_state (kind_tag (m_kind m)) ev (m_state m)")
      case None
      with Some inv show ?thesis by (auto elim!: send_None intro: inv_rejected [OF inv Some])
    next
      case (Some s)
      with \<open>machines h r = Some m\<close> show ?thesis
        by (auto elim!: send_Some intro: inv_moves_to [OF inv \<open>machines h r = Some m\<close>])
    qed
  qed
qed

lemmas inv_calls [go_keeps] =
  inv_send [of EvCancel, unfolded send.simps] inv_send [of EvDecisionSent, unfolded send.simps]
  inv_send [of EvInitiated, unfolded send.simps] inv_send [of EvInitiationFailed, unfolded send.simps]
  inv_send [of EvStarted, unfolded send.simps] inv_send [of EvCompletion, unfolded send.simps]
  inv_send [of EvCancelInitiated, unfolded send.simps] inv_send [of EvCancelFailed, unfolded send.simps]
  inv_send [of EvCanceled, unfolded send.simps]

lemma inv_deref [go_keeps]: "go_inv helper_inv (deref r)"
  by (rule go_invI) (simp add: deref_def split: option.split)

lemma inv_setData [go_keeps]: "go_inv helper_inv (setData r d)"
proof (rule go_invI)
  fix h assume inv: "helper_inv h"
  show "helper_inv (snd (setData r d h))"
  proof (cases "machines h r")
    case None
    with inv show ?thesis by (simp add: setData_def update_machine_def go_bind_def deref_def)
  next
    case (Some m)
    then show ?thesis
      using helper_inv_update [OF inv Some, of "m\<lparr>m_data := d\<rparr>"] by (simp add: setData_def go_simps)
  qed
qed

lemma listed_reorder: "set (orderedDecisions h') = set (orderedDecisions h) \<Longrightarrow>
    machines h' = machines h \<Longrightarrow> listed h' i r = listed h i r"
  by (simp add: listed_def)

lemma helper_inv_reorder:
  assumes "helper_inv h"
  shows "helper_inv (h\<lparr>orderedDecisions := list_move_to_back r (orderedDecisions h)\<rparr>)"
  using assms by (auto simp: helper_inv_def listed_def)

lemma inv_getDecision [go_keeps]: "go_inv helper_inv (getDecision i)"
  unfolding getDecision_def panicIllegalState_def
  by (intro go_keeps go_inv_modify helper_inv_reorder)

lemma inv_bookkeeping [go_keeps]:
  "go_inv helper_inv (go_modify (\<lambda>h. h\<lparr>scheduledEventIDToActivityID := f h\<rparr>))"
  "go_inv helper_inv (go_modify (\<lambda>h. h\<lparr>scheduledEventIDToCancellationID := f h\<rparr>))"
  "go_inv helper_inv (go_modify (\<lambda>h. h\<lparr>scheduledEventIDToSignalID := f h\<rparr>))"
  by (rule go_inv_modify; simp add: helper_inv_def listed_def)+

lemma inv_onDecision [go_keeps]:
  "(\<And>r. go_inv helper_inv (method r)) \<Longrightarrow> go_inv helper_inv (onDecision i method)"
  unfolding onDecision_def by (intro go_keeps)

text \<open>Adding a machine that was just created.\<close>

lemma addNew_run:
  "addNew (alloc_machine m) h = (let h1 = snd (alloc_machine m h) in
     (case decisions h (m_id m) of
        Some _ \<Rightarrow> (Inl (stateMachineIllegalStatePanic (duplicateDecision (m_id m))), h1)
      | None \<Rightarrow> (Inr (nextRef h), h1\<lparr>orderedDecisions := orderedDecisions h @ [nextRef h],
                                   decisions := (decisions h)(m_id m \<mapsto> nextRef h)\<rparr>)))"
  by (cases "decisions h (m_id m)")
    (simp_all add: addNew_def addDecision_def alloc_machine_def panicIllegalState_def go_simps Let_def)

lemma inv_addNew:
  assumes "m_state m \<noteq> decisionStateCompleted"
  shows "go_inv helper_inv (addNew (alloc_machine m))"
proof (rule go_invI)
  fix h assume inv: "helper_inv h"
  note fresh = helper_inv_fresh [OF inv]
  have out: "nextRef h \<notin> set (orderedDecisions h)"
    using fresh inv by (auto elim: helper_inv_listed)
  have alloc: "helper_inv (snd (alloc_machine m h))"
    using inv out by (auto simp: helper_inv_def listed_def alloc_machine_def less_Suc_eq)
  show "helper_inv (snd (addNew (alloc_machine m) h))"
  proof (cases "decisions h (m_id m)")
    case (Some r)
    with alloc show ?thesis by (simp add: addNew_run)
  next
    case None
    then have new: "\<not> listed h (m_id m) r" for r
      using helper_inv_decisions [OF inv, of "m_id m" r] by simp
    show ?thesis
      unfolding addNew_run Let_def None option.case snd_conv
    proof (rule helper_invI, goal_cases)
      case (3 i r)
      then show ?case using out inv helper_inv_decisions [OF inv]
        by (auto simp: listed_def alloc_machine_def split: if_splits)
    next
      case (4 i r)
      then show ?case using out new helper_inv_decisions [OF inv]
        by (auto simp: listed_def alloc_machine_def split: if_splits)
    qed (use out inv assms in \<open>auto simp: alloc_machine_def less_Suc_eq dest: helper_inv_distinct
          helper_inv_bound elim: helper_inv_listed split: if_splits\<close>)
  qed
qed

lemma newDecisionStateMachineBase_simps [simp]:
  "m_id (newDecisionStateMachineBase t i k) = makeDecisionID t i"
  "m_state (newDecisionStateMachineBase t i k) = decisionStateCreated"
  "m_data (newDecisionStateMachineBase t i k) = NilData"
  "m_kind (newDecisionStateMachineBase t i k) = k"
  by (simp_all add: newDecisionStateMachineBase_def)

lemmas new_machine_defs =
  newActivityDecisionStateMachine_def newTimerDecisionStateMachine_def
  newChildWorkflowDecisionStateMachine_def newMarkerDecisionStateMachine_def
  newCancelExternalWorkflowStateMachine_def newSignalExternalWorkflowStateMachine_def
  newUpsertSearchAttributesStateMachine_def

lemma inv_addNew_machines [go_keeps]:
  "go_inv helper_inv (addNew (newActivityDecisionStateMachine a1))"
  "go_inv helper_inv (addNew (newTimerDecisionStateMachine a2))"
  "go_inv helper_inv (addNew (newChildWorkflowDecisionStateMachine a3))"
  "go_inv helper_inv (addNew (newMarkerDecisionStateMachine i a4))"
  "go_inv helper_inv (addNew (newCancelExternalWorkflowStateMachine a5 i))"
  "go_inv helper_inv (addNew (newSignalExternalWorkflowStateMachine a6 i))"
  "go_inv helper_inv (addNew (newUpsertSearchAttributesStateMachine a7 i))"
  unfolding new_machine_defs by (simp_all add: inv_addNew)

section \<open>The abstract collection\<close>

definition heap :: "decisionsHelper \<Rightarrow> ref \<Rightarrow> machine" where
  "heap h r = the (machines h r)"

definition contents :: "decisionsHelper \<Rightarrow> machine list" where
  "contents h = map (heap h) (orderedDecisions h)"

lemma heap_listed: "helper_inv h \<Longrightarrow> r \<in> set (orderedDecisions h) \<Longrightarrow> machines h r = Some (heap h r)"
  by (auto simp: heap_def elim: helper_inv_listed)

lemma heap_open:
  "helper_inv h \<Longrightarrow> r \<in> set (orderedDecisions h) \<Longrightarrow> m_state (heap h r) \<noteq> decisionStateCompleted"
  by (auto simp: heap_def elim: helper_inv_listed)

lemma heap_decisions:
  "helper_inv h \<Longrightarrow> r \<in> set (orderedDecisions h) \<Longrightarrow> decisions h (m_id (heap h r)) = Some r"
  by (auto simp: heap_def elim: helper_inv_listed)

lemma inj_on_ids: "helper_inv h \<Longrightarrow> inj_on (\<lambda>r. m_id (heap h r)) (set (orderedDecisions h))"
  by (rule inj_onI) (metis heap_decisions option.inject)

lemma contents_distinct: "helper_inv h \<Longrightarrow> distinct (map m_id (contents h))"
  by (simp add: contents_def distinct_map comp_def inj_on_ids helper_inv_distinct)

lemma contents_lookup:
  assumes "helper_inv h"
  shows "decisions h i = None \<longleftrightarrow> i \<notin> m_id ` set (contents h)"
proof
  assume "decisions h i = None"
  with assms show "i \<notin> m_id ` set (contents h)"
    by (auto simp: contents_def dest: heap_decisions)
next
  assume out: "i \<notin> m_id ` set (contents h)"
  show "decisions h i = None"
  proof (cases "decisions h i")
    case (Some r)
    obtain m where "machines h r = Some m" "m_id m = i" "r \<in> set (orderedDecisions h)"
      using helper_inv_mapped [OF assms Some] by blast
    with out show ?thesis by (force simp: contents_def heap_def)
  qed simp
qed

section \<open>\<open>getDecisions\<close> against a reference\<close>

text \<open>
  The reference: a machine marked as sent takes its \<open>handleDecisionSent\<close> step; the
  result lists the decisions of all machines in order.
\<close>

definition mark_sent :: "machine \<Rightarrow> machine" where
  "mark_sent m = (case next_state (kind_tag (m_kind m)) EvDecisionSent (m_state m) of
      None \<Rightarrow> m
    | Some s \<Rightarrow> if s = m_state m then m else enterState s eventDecisionSent m)"

definition mark :: "bool \<Rightarrow> machine \<Rightarrow> machine" where
  "mark markAsSent m = (if markAsSent then mark_sent m else m)"

lemma mark_sent_id [simp]: "m_id (mark_sent m) = m_id m" "m_id (mark b m) = m_id m"
  by (simp_all add: mark_sent_def mark_def split: option.split)

lemma handleDecisionSent_run:
  assumes "machines h r = Some m" and "m_state m \<noteq> decisionStateCompleted"
  shows "call_handleDecisionSent r h =
    (Inr (), drop_if_completed (mark_sent m) (h\<lparr>machines := (machines h)(r \<mapsto> mark_sent m)\<rparr>))"
  using assms by (cases "m_kind m"; cases "m_state m")
    (simp_all add: call_handleDecisionSent_def override_defs base_method_defs go_simps
      mark_sent_def next_state_def edge_defs drop_if_completed_def)

text \<open>One iteration: the trailing removal of a completed machine has nothing left to do.\<close>

lemma getDecisions_step_run:
  assumes inv: "helper_inv h" and r: "r \<in> set (orderedDecisions h)"
  shows "getDecisions_step b r h =
    (Inr (case machine_getDecision (heap h r) of None \<Rightarrow> [] | Some d \<Rightarrow> [d]),
     drop_if_completed (mark b (heap h r)) (h\<lparr>machines := (machines h)(r \<mapsto> mark b (heap h r))\<rparr>))"
proof -
  note m = heap_listed [OF inv r]
  note op = heap_open [OF inv r]
  note dec = heap_decisions [OF inv r]
  show ?thesis
  proof (cases b)
    case False
    with m op show ?thesis
      by (simp add: getDecisions_step_def call_getDecision_def mark_def drop_if_completed_def
        go_bind_assoc go_simps split: option.split)
  next
    case True
    show ?thesis
    proof (cases "m_state (mark_sent (heap h r)) = decisionStateCompleted")
      case False
      with True m op show ?thesis
        by (simp add: getDecisions_step_def call_getDecision_def mark_def handleDecisionSent_run
          drop_if_completed_def go_bind_assoc go_simps split: option.split)
    next
      case completed: True
      with True m op dec show ?thesis
        by (simp add: getDecisions_step_def call_getDecision_def mark_def handleDecisionSent_run
          drop_if_completed_def removeDecision_def helper_inv_distinct [OF inv] remove1_idem go_bind_assoc go_simps
          split: option.split)
    qed
  qed
qed

lemma step_effect:
  assumes inv: "helper_inv h" and o: "orderedDecisions h = pre @ r # rest"
    and b: "m_id m' = m_id (heap h r)"
  defines "h' \<equiv> drop_if_completed m' (h\<lparr>machines := (machines h)(r \<mapsto> m')\<rparr>)"
  shows "helper_inv h'"
    and "orderedDecisions h' = (if m_state m' = decisionStateCompleted then pre @ rest else pre @ r # rest)"
    and "machines h' = (machines h)(r \<mapsto> m')"
proof -
  have r: "r \<in> set (orderedDecisions h)" by (simp add: o)
  note m = heap_listed [OF inv r]
  show "helper_inv h'"
    unfolding h'_def by (rule helper_inv_complete [OF inv m]) (simp add: b)
  have "r \<notin> set pre" using helper_inv_distinct [OF inv] by (simp add: o)
  then show "orderedDecisions h' =
      (if m_state m' = decisionStateCompleted then pre @ rest else pre @ r # rest)"
    using heap_decisions [OF inv r]
    by (simp add: h'_def drop_if_completed_def removeDecision_def o b remove1_append)
  show "machines h' = (machines h)(r \<mapsto> m')"
    by (simp add: h'_def drop_if_completed_def removeDecision_def split: option.split)
qed

definition emitted :: "machine \<Rightarrow> Decision list" where
  "emitted m = (case machine_getDecision m of None \<Rightarrow> [] | Some d \<Rightarrow> [d])"

definition still_open :: "machine \<Rightarrow> bool" where
  "still_open m \<longleftrightarrow> m_state m \<noteq> decisionStateCompleted"

lemma getDecisions_from_run:
  assumes "helper_inv h" and "orderedDecisions h = pre @ todo" and "length todo \<le> fuel"
  shows "\<exists>h'. getDecisions_from fuel b (list_front todo) h = (Inr (concat (map (\<lambda>r. emitted (heap h r)) todo)), h') \<and>
     helper_inv h' \<and>
     orderedDecisions h' = pre @ filter (\<lambda>r. still_open (mark b (heap h r))) todo \<and>
     (\<forall>r. machines h' r = (if r \<in> set todo then Some (mark b (heap h r)) else machines h r))"
  using assms
proof (induction todo arbitrary: fuel h pre)
  case Nil
  then show ?case by (simp add: list_front_def go_return_def)
next
  case (Cons r rest)
  then obtain n where fuel: "fuel = Suc n" by (cases fuel) auto
  let ?m' = "mark b (heap h r)"
  let ?h1 = "drop_if_completed ?m' (h\<lparr>machines := (machines h)(r \<mapsto> ?m')\<rparr>)"
  let ?pre = "if still_open ?m' then pre @ [r] else pre"
  note inv = Cons.prems(1)
  note eff = step_effect [OF inv Cons.prems(2), of ?m', simplified]
  have dist: "distinct (pre @ r # rest)" using helper_inv_distinct [OF inv] by (simp add: Cons.prems(2))
  have o1: "orderedDecisions ?h1 = ?pre @ rest" using eff(2) by (simp add: still_open_def)
  from Cons.IH [OF eff(1) o1, of n] Cons.prems(3) fuel obtain h2 where
    run: "getDecisions_from n b (list_front rest) ?h1 = (Inr (concat (map (\<lambda>r. emitted (heap ?h1 r)) rest)), h2)"
    and inv2: "helper_inv h2"
    and o2: "orderedDecisions h2 = ?pre @ filter (\<lambda>r. still_open (mark b (heap ?h1 r))) rest"
    and m2: "\<And>x. machines h2 x = (if x \<in> set rest then Some (mark b (heap ?h1 x)) else machines ?h1 x)"
    by auto
  have same: "heap ?h1 x = heap h x" if "x \<in> set rest" for x
    using that dist by (auto simp: heap_def [of ?h1 x] heap_def [of h x] eff(3))
  have "getDecisions_from fuel b (list_front (r # rest)) h =
      (Inr (emitted (heap h r) @ concat (map (\<lambda>r. emitted (heap h r)) rest)), h2)"
    using run same list_next_append [OF dist] getDecisions_step_run [OF inv, of r b] Cons.prems(2)
    by (simp add: fuel list_front_def [of "r # rest"] go_simps emitted_def cong: map_cong)
  moreover have "orderedDecisions h2 = pre @ filter (\<lambda>r. still_open (mark b (heap h r))) (r # rest)"
    using o2 same by (simp cong: filter_cong)
  moreover have "machines h2 x = (if x \<in> set (r # rest) then Some (mark b (heap h x)) else machines h x)" for x
    using m2 [of x] same [of x] dist by (auto simp: eff(3))
  ultimately show ?case using inv2 by auto
qed

text \<open>
  \<open>getDecisions\<close> returns the decisions of all machines in list order and leaves the
  collection of the marked, still open machines.
\<close>

lemma getDecisions_run:
  assumes "helper_inv h"
  obtains h' where "getDecisions b h = (Inr (concat (map emitted (contents h))), h')"
    and "helper_inv h'" and "contents h' = filter still_open (map (mark b) (contents h))"
proof -
  from getDecisions_from_run [OF assms, of "[]" "orderedDecisions h" "length (orderedDecisions h)" b]
  obtain h' where run: "getDecisions_from (length (orderedDecisions h)) b (list_front (orderedDecisions h)) h =
      (Inr (concat (map (\<lambda>r. emitted (heap h r)) (orderedDecisions h))), h')"
    and inv: "helper_inv h'"
    and o: "orderedDecisions h' = filter (\<lambda>r. still_open (mark b (heap h r))) (orderedDecisions h)"
    and m: "\<And>r. machines h' r = (if r \<in> set (orderedDecisions h) then Some (mark b (heap h r)) else machines h r)"
    by auto
  have "getDecisions b h = (Inr (concat (map emitted (contents h))), h')"
    using run by (simp add: getDecisions_def contents_def comp_def go_simps)
  moreover have "contents h' = filter still_open (map (mark b) (contents h))"
    by (simp add: contents_def o filter_map comp_def heap_def m cong: map_cong filter_cong)
  ultimately show ?thesis using inv that by blast
qed

lemma inv_getDecisions [go_keeps]: "go_inv helper_inv (getDecisions b)"
  by (rule go_invI) (metis getDecisions_run snd_conv)

section \<open>The helper as an ordered store of machines\<close>

text \<open>
  The contract of the collection, as the workflow environment and the event processor use
  it: machines have different keys, a new machine goes to the back, a duplicate is refused,
  and looking a machine up moves it to the back.
\<close>

locale decision_store =
  fixes contents_of :: "'h \<Rightarrow> 'm list"
    and inv :: "'h \<Rightarrow> bool"
    and key :: "'m \<Rightarrow> 'k"
    and fresh :: "'m \<Rightarrow> bool"
    and insert_new :: "'m \<Rightarrow> ('h, 'e, 'r) go"
    and touch :: "'k \<Rightarrow> ('h, 'e, 'r) go"
  assumes keys_distinct: "inv h \<Longrightarrow> distinct (map key (contents_of h))"
    and insert_ok: "inv h \<Longrightarrow> fresh m \<Longrightarrow> key m \<notin> key ` set (contents_of h) \<Longrightarrow>
      \<exists>r h'. insert_new m h = (Inr r, h') \<and> inv h' \<and> contents_of h' = contents_of h @ [m]"
    and insert_duplicate: "inv h \<Longrightarrow> fresh m \<Longrightarrow> key m \<in> key ` set (contents_of h) \<Longrightarrow>
      \<exists>e h'. insert_new m h = (Inl e, h') \<and> inv h' \<and> contents_of h' = contents_of h"
    and touch_known: "inv h \<Longrightarrow> m \<in> set (contents_of h) \<Longrightarrow>
      \<exists>r h'. touch (key m) h = (Inr r, h') \<and> inv h' \<and> contents_of h' = remove1 m (contents_of h) @ [m]"
    and touch_unknown: "inv h \<Longrightarrow> k \<notin> key ` set (contents_of h) \<Longrightarrow> \<exists>e. touch k h = (Inl e, h)"
begin

lemma contents_distinct_elems: "inv h \<Longrightarrow> distinct (contents_of h)"
  using keys_distinct by (rule distinct_map [THEN iffD1, THEN conjunct1])

lemma insert_then_touch:
  assumes "inv h" and "fresh m" and "key m \<notin> key ` set (contents_of h)"
  shows "\<exists>r r' h1 h2. insert_new m h = (Inr r, h1) \<and> touch (key m) h1 = (Inr r', h2) \<and>
           contents_of h2 = contents_of h @ [m]"
proof -
  from insert_ok [OF assms] obtain r h1 where 1: "insert_new m h = (Inr r, h1)" "inv h1"
    "contents_of h1 = contents_of h @ [m]" by blast
  then have "m \<in> set (contents_of h1)" by simp
  from touch_known [OF 1(2) this] obtain r' h2 where 2: "touch (key m) h1 = (Inr r', h2)"
    "contents_of h2 = remove1 m (contents_of h1) @ [m]" by blast
  have "m \<notin> set (contents_of h)" using assms(3) by blast
  with 1 2 show ?thesis by (simp add: remove1_append)
qed

lemma insert_twice:
  assumes "inv h" and "fresh m" and "fresh n" and "key n = key m"
    and "key m \<notin> key ` set (contents_of h)"
  shows "\<exists>r e h1 h2. insert_new m h = (Inr r, h1) \<and> insert_new n h1 = (Inl e, h2) \<and>
           contents_of h2 = contents_of h @ [m]"
proof -
  from insert_ok [OF assms(1,2,5)] obtain r h1 where 1: "insert_new m h = (Inr r, h1)" "inv h1"
    "contents_of h1 = contents_of h @ [m]" by blast
  then have "key n \<in> key ` set (contents_of h1)" using assms(4) by simp
  from insert_duplicate [OF 1(2) assms(3) this] 1 show ?thesis by auto
qed

text \<open>The order of the collection is the order of the last lookups.\<close>

lemma touch_order:
  assumes "inv h" and "m \<in> set (contents_of h)" and "n \<in> set (contents_of h)" and "m \<noteq> n"
  shows "\<exists>r r' h1 h2. touch (key m) h = (Inr r, h1) \<and> touch (key n) h1 = (Inr r', h2) \<and>
           contents_of h2 = remove1 n (remove1 m (contents_of h)) @ [m, n]"
proof -
  from touch_known [OF assms(1,2)] obtain r h1 where 1: "touch (key m) h = (Inr r, h1)" "inv h1"
    "contents_of h1 = remove1 m (contents_of h) @ [m]" by blast
  then have n: "n \<in> set (contents_of h1)"
    using assms(3,4) by (simp add: contents_distinct_elems [OF assms(1)])
  then have n': "n \<in> set (remove1 m (contents_of h))" using 1(3) assms(4) by simp
  from touch_known [OF 1(2) n] obtain r' h2 where 2: "touch (key n) h1 = (Inr r', h2)"
    "contents_of h2 = remove1 n (contents_of h1) @ [n]" by blast
  with 1 n' show ?thesis by (simp add: remove1_append)
qed

end

lemma getDecision_known:
  assumes inv: "helper_inv h" and m: "m \<in> set (contents h)"
  shows "\<exists>r h'. getDecision (m_id m) h = (Inr r, h') \<and> machines h' r = Some m \<and> helper_inv h' \<and>
           (\<exists>pre. orderedDecisions h' = pre @ [r]) \<and> contents h' = remove1 m (contents h) @ [m]"
proof -
  from m obtain r where r: "r \<in> set (orderedDecisions h)" and hr: "m = heap h r"
    by (auto simp: contents_def)
  let ?h = "h\<lparr>orderedDecisions := list_move_to_back r (orderedDecisions h)\<rparr>"
  have run: "getDecision (m_id m) h = (Inr r, ?h)"
    using heap_decisions [OF inv r] by (simp add: getDecision_def hr go_simps)
  have inj: "inj_on (heap h) (insert r (set (orderedDecisions h)))"
    using inj_on_ids [OF inv] r by (auto simp: inj_on_def insert_absorb)
  have "contents ?h = remove1 m (contents h) @ [m]"
    using r by (simp add: contents_def list_move_to_back_def heap_def [abs_def] hr)
       (use map_remove1_inj [OF inj] in \<open>simp add: heap_def [abs_def]\<close>)
  moreover have "orderedDecisions ?h = remove1 r (orderedDecisions h) @ [r]"
    using r by (simp add: list_move_to_back_def)
  ultimately show ?thesis
    using run helper_inv_reorder [OF inv, of r] heap_listed [OF inv r] by (intro exI conjI) (auto simp: hr)
qed

interpretation store: decision_store contents helper_inv m_id still_open
  "\<lambda>m. addNew (alloc_machine m)" getDecision
proof unfold_locales
  fix h assume inv: "helper_inv h"
  show "distinct (map m_id (contents h))" by (rule contents_distinct [OF inv])
  have keep: "contents (snd (alloc_machine m h)) = contents h" for m
    using helper_inv_fresh [OF inv] heap_listed [OF inv]
    by (force simp: contents_def alloc_machine_def heap_def)
  {
    fix m assume fr: "still_open m"
    have inv': "helper_inv (snd (addNew (alloc_machine m) h))"
      using go_invD [OF inv_addNew inv] fr by (simp add: still_open_def)
    show "\<exists>r h'. addNew (alloc_machine m) h = (Inr r, h') \<and> helper_inv h' \<and> contents h' = contents h @ [m]"
      if "m_id m \<notin> m_id ` set (contents h)"
    proof -
      have none: "decisions h (m_id m) = None" using that contents_lookup [OF inv] by blast
      have "contents (snd (addNew (alloc_machine m) h)) = contents (snd (alloc_machine m h)) @ [m]"
        by (simp add: addNew_run none Let_def contents_def heap_def alloc_machine_def)
      with none inv' keep show ?thesis by (auto simp: addNew_run Let_def)
    qed
    show "\<exists>e h'. addNew (alloc_machine m) h = (Inl e, h') \<and> helper_inv h' \<and> contents h' = contents h"
      if dup: "m_id m \<in> m_id ` set (contents h)"
    proof -
      obtain r where "decisions h (m_id m) = Some r"
        using dup contents_lookup [OF inv, of "m_id m"] by (cases "decisions h (m_id m)") auto
      with inv' keep show ?thesis by (auto simp: addNew_run Let_def)
    qed
  }
  show "\<exists>r h'. getDecision (m_id m) h = (Inr r, h') \<and> helper_inv h' \<and>
      contents h' = remove1 m (contents h) @ [m]" if "m \<in> set (contents h)" for m
    using getDecision_known [OF inv that] by blast
  show "\<exists>e. getDecision k h = (Inl e, h)" if "k \<notin> m_id ` set (contents h)" for k
    using that contents_lookup [OF inv, of k]
    by (auto simp: getDecision_def panicIllegalState_def go_simps)
qed

section \<open>One event for one machine\<close>

lemma contents_moves_to:
  assumes inv: "helper_inv h" and m: "machines h r = Some m" and o: "orderedDecisions h = pre @ [r]"
    and mv: "moves_to m h h' r s"
  obtains m' where "helper_inv h'" and "machines h' r = Some m'" and "m_id m' = m_id m"
    and "m_state m' = s" and "m_data m' = m_data m"
    and "kind_tag (m_kind m') = kind_tag (m_kind m)"
    and "contents h' = butlast (contents h) @ filter still_open [m']"
proof -
  have r: "r \<in> set (orderedDecisions h)" by (simp add: o)
  have hm: "heap h r = m" using m by (simp add: heap_def)
  obtain m' where m': "m_id m' = m_id m" "m_state m' = s" "m_data m' = m_data m"
    "kind_tag (m_kind m') = kind_tag (m_kind m)"
    and h': "h' = (if s = m_state m then (\<lambda>h. h) else drop_if_completed m')
             (h\<lparr>machines := (machines h)(r \<mapsto> m')\<rparr>)"
    using mv by (auto simp: moves_to_def)
  have "s = m_state m \<Longrightarrow> s \<noteq> decisionStateCompleted" using heap_open [OF inv r] hm by simp
  then have h'': "h' = drop_if_completed m' (h\<lparr>machines := (machines h)(r \<mapsto> m')\<rparr>)"
    using h' m' by (simp add: drop_if_completed_def)
  have "m_id m' = m_id (heap h r)" using m' hm by simp
  note eff = step_effect [OF inv o this, folded h'']
  have "r \<notin> set pre" using helper_inv_distinct [OF inv] by (simp add: o)
  then have "map (heap h') pre = map (heap h) pre" by (auto simp: heap_def eff(3))
  moreover have "heap h' r = m'" by (simp add: heap_def eff(3))
  ultimately have "contents h' = butlast (contents h) @ filter still_open [m']"
    using eff(2) by (simp add: contents_def o butlast_append still_open_def)
  with that m' eff(1,3) show ?thesis by simp
qed

lemma onDecision_accepts:
  assumes inv: "helper_inv h" and m: "m \<in> set (contents h)"
    and s: "next_state (kind_tag (m_kind m)) ev (m_state m) = Some s"
  obtains r h' m' where "onDecision (m_id m) (send ev) h = (Inr r, h')" and "helper_inv h'"
    and "machines h' r = Some m'" and "m_id m' = m_id m" and "m_state m' = s"
    and "m_data m' = m_data m" and "kind_tag (m_kind m') = kind_tag (m_kind m)"
    and "contents h' = remove1 m (contents h) @ filter still_open [m']"
proof -
  from getDecision_known [OF inv m] obtain r h1 pre where 1: "getDecision (m_id m) h = (Inr r, h1)"
    "machines h1 r = Some m" "helper_inv h1" "orderedDecisions h1 = pre @ [r]"
    "contents h1 = remove1 m (contents h) @ [m]" by blast
  from send_Some [OF 1(2) s] obtain h2 where 2: "send ev r h1 = (Inr (), h2)" "moves_to m h1 h2 r s" .
  from contents_moves_to [OF 1(3,2,4) 2(2)] obtain m' where 3: "helper_inv h2" "machines h2 r = Some m'"
    "m_id m' = m_id m" "m_state m' = s" "m_data m' = m_data m"
    "kind_tag (m_kind m') = kind_tag (m_kind m)"
    "contents h2 = butlast (contents h1) @ filter still_open [m']" .
  have "onDecision (m_id m) (send ev) h = (Inr r, h2)"
    using 1(1) 2(1) by (simp add: onDecision_def go_simps)
  with that 3 1(5) show ?thesis by simp
qed

lemma onDecision_rejects:
  assumes inv: "helper_inv h" and m: "m \<in> set (contents h)"
    and s: "next_state (kind_tag (m_kind m)) ev (m_state m) = None"
  shows "\<exists>p h'. onDecision (m_id m) (send ev) h = (Inl p, h')"
proof -
  from getDecision_known [OF inv m] obtain r h1 where 1: "getDecision (m_id m) h = (Inr r, h1)"
    "machines h1 r = Some m" by blast
  from send_None [OF 1(2) s] obtain p h2 where "send ev r h1 = (Inl p, h2)" by blast
  with 1(1) show ?thesis by (simp add: onDecision_def go_simps)
qed

lemma onDecision_unknown:
  assumes "helper_inv h" and "i \<notin> m_id ` set (contents h)"
  shows "onDecision i f h = (Inl (stateMachineIllegalStatePanic (unknownDecision i)), h)"
  using contents_lookup [OF assms(1), of i] assms(2)
  by (simp add: onDecision_def getDecision_def panicIllegalState_def go_simps)

section \<open>Runs of the helper\<close>

lemmas helper_op_defs =
  scheduleActivityTask_def requestCancelActivityTask_def handleActivityTaskClosed_def
  handleActivityTaskScheduled_def handleActivityTaskCancelRequested_def
  handleActivityTaskCanceled_def handleRequestCancelActivityTaskFailed_def
  recordMarker_def startChildWorkflowExecution_def handleStartChildWorkflowExecutionInitiated_def
  handleStartChildWorkflowExecutionFailed_def requestCancelExternalWorkflowExecution_def
  handleRequestCancelExternalWorkflowExecutionInitiated_def
  handleExternalWorkflowExecutionCancelRequested_def
  handleRequestCancelExternalWorkflowExecutionFailed_def signalExternalWorkflowExecution_def
  upsertSearchAttributes_def handleSignalExternalWorkflowExecutionInitiated_def getSignalID_def
  handleSignalExternalWorkflowExecutionCompleted_def handleSignalExternalWorkflowExecutionFailed_def
  startTimer_def cancelTimer_def handleTimerClosed_def handleTimerStarted_def handleTimerCanceled_def
  handleCancelTimerFailed_def handleChildWorkflowExecutionStarted_def
  handleChildWorkflowExecutionClosed_def handleChildWorkflowExecutionCanceled_def

lemma inv_helper_ops [go_keeps]:
  "go_inv helper_inv (scheduleActivityTask a)"
  "go_inv helper_inv (requestCancelActivityTask i)"
  "go_inv helper_inv (handleActivityTaskClosed i)"
  "go_inv helper_inv (handleActivityTaskScheduled n i)"
  "go_inv helper_inv (handleActivityTaskCancelRequested i)"
  "go_inv helper_inv (handleActivityTaskCanceled i)"
  "go_inv helper_inv (handleRequestCancelActivityTaskFailed i)"
  "go_inv helper_inv (recordMarker i j d)"
  "go_inv helper_inv (startChildWorkflowExecution c)"
  "go_inv helper_inv (handleStartChildWorkflowExecutionInitiated i)"
  "go_inv helper_inv (handleStartChildWorkflowExecutionFailed i)"
  "go_inv helper_inv (requestCancelExternalWorkflowExecution i j k l b)"
  "go_inv helper_inv (handleRequestCancelExternalWorkflowExecutionInitiated n i j)"
  "go_inv helper_inv (handleExternalWorkflowExecutionCancelRequested n i)"
  "go_inv helper_inv (handleRequestCancelExternalWorkflowExecutionFailed n i)"
  "go_inv helper_inv (signalExternalWorkflowExecution i j k l d e b)"
  "go_inv helper_inv (upsertSearchAttributes i f)"
  "go_inv helper_inv (handleSignalExternalWorkflowExecutionInitiated n i)"
  "go_inv helper_inv (handleSignalExternalWorkflowExecutionCompleted n)"
  "go_inv helper_inv (handleSignalExternalWorkflowExecutionFailed n)"
  "go_inv helper_inv (startTimer t)"
  "go_inv helper_inv (cancelTimer i)"
  "go_inv helper_inv (handleTimerClosed i)"
  "go_inv helper_inv (handleTimerStarted i)"
  "go_inv helper_inv (handleTimerCanceled i)"
  "go_inv helper_inv (handleCancelTimerFailed i)"
  "go_inv helper_inv (handleChildWorkflowExecutionStarted i)"
  "go_inv helper_inv (handleChildWorkflowExecutionClosed i)"
  "go_inv helper_inv (handleChildWorkflowExecutionCanceled i)"
  unfolding helper_op_defs by (intro go_keeps)+

text \<open>The event-ID tables are written by the initiated handlers only.\<close>

lemma frame_send: "go_inv (\<lambda>h. scheduledEventIDToActivityID h = t) (send ev r)"
proof (rule go_invI)
  fix h :: decisionsHelper assume t: "scheduledEventIDToActivityID h = t"
  have drop: "scheduledEventIDToActivityID (drop_if_completed m h) = scheduledEventIDToActivityID h"
    for m and h :: decisionsHelper
    by (simp add: drop_if_completed_def removeDecision_def split: option.split)
  show "scheduledEventIDToActivityID (snd (send ev r h)) = t"
  proof (cases "machines h r")
    case None
    with t show ?thesis by (simp add: send_dangling)
  next
    case (Some m)
    with t send_implements [OF Some, of ev] show ?thesis
      by (auto simp: implements_def moves_to_def rejected_def drop split: option.splits if_splits)
  qed
qed

lemma frame_onDecision: "go_inv (\<lambda>h. scheduledEventIDToActivityID h = t) (onDecision i (send ev))"
  unfolding onDecision_def getDecision_def panicIllegalState_def
  by (intro go_keeps frame_send go_inv_modify) simp

lemma onDecision_listed:
  assumes "onDecision i (send ev) h = (Inr r, h')" and "helper_inv h"
    and "machines h' r = Some m'" and "m_state m' \<noteq> decisionStateCompleted"
  shows "r \<in> set (orderedDecisions h')"
proof -
  from assms(1) obtain h1 where 1: "getDecision i h = (Inr r, h1)" "send ev r h1 = (Inr (), h')"
    by (auto simp: onDecision_def go_bind_eq_Inr go_then_eq_Inr go_return_def)
  then have r: "r \<in> set (orderedDecisions h1)" and inv: "helper_inv h1"
    using go_invD [OF inv_getDecision assms(2), of i]
    by (auto simp: getDecision_def panicIllegalState_def go_simps list_move_to_back_def
        split: option.splits elim: helper_inv_mapped [OF assms(2)])
  from r inv obtain m where m: "machines h1 r = Some m" by (auto elim: helper_inv_listed)
  from send_implements [OF m, of ev] 1(2) obtain s where "moves_to m h1 h' r s"
    by (auto simp: implements_def split: option.splits)
  with r assms(3,4) show ?thesis
    by (auto simp: moves_to_def drop_if_completed_def removeDecision_def split: if_splits option.splits)
qed

text \<open>
  A run of the helper: any sequence of commands, event handlers, payload updates and
  \<open>getDecisions\<close> calls, including calls that panic (the event processor recovers).
\<close>

inductive helper_reachable :: "decisionsHelper \<Rightarrow> bool" where
  new: "helper_reachable newDecisionsHelper"
| schedule: "helper_reachable h \<Longrightarrow> helper_reachable (snd (scheduleActivityTask a h))"
| cancelActivity: "helper_reachable h \<Longrightarrow> helper_reachable (snd (requestCancelActivityTask i h))"
| activityClosed: "helper_reachable h \<Longrightarrow> helper_reachable (snd (handleActivityTaskClosed i h))"
| activityScheduled: "helper_reachable h \<Longrightarrow> helper_reachable (snd (handleActivityTaskScheduled n i h))"
| activityCancelRequested:
    "helper_reachable h \<Longrightarrow> helper_reachable (snd (handleActivityTaskCancelRequested i h))"
| activityCanceled: "helper_reachable h \<Longrightarrow> helper_reachable (snd (handleActivityTaskCanceled i h))"
| activityCancelFailed:
    "helper_reachable h \<Longrightarrow> helper_reachable (snd (handleRequestCancelActivityTaskFailed i h))"
| marker: "helper_reachable h \<Longrightarrow> helper_reachable (snd (recordMarker i j d h))"
| startChild: "helper_reachable h \<Longrightarrow> helper_reachable (snd (startChildWorkflowExecution c h))"
| childInitiated:
    "helper_reachable h \<Longrightarrow> helper_reachable (snd (handleStartChildWorkflowExecutionInitiated i h))"
| childFailed:
    "helper_reachable h \<Longrightarrow> helper_reachable (snd (handleStartChildWorkflowExecutionFailed i h))"
| childStarted:
    "helper_reachable h \<Longrightarrow> helper_reachable (snd (handleChildWorkflowExecutionStarted i h))"
| childClosed: "helper_reachable h \<Longrightarrow> helper_reachable (snd (handleChildWorkflowExecutionClosed i h))"
| childCanceled:
    "helper_reachable h \<Longrightarrow> helper_reachable (snd (handleChildWorkflowExecutionCanceled i h))"
| cancelExternal:
    "helper_reachable h \<Longrightarrow> helper_reachable (snd (requestCancelExternalWorkflowExecution i j k l b h))"
| cancelInitiated: "helper_reachable h \<Longrightarrow>
    helper_reachable (snd (handleRequestCancelExternalWorkflowExecutionInitiated n i j h))"
| cancelRequested: "helper_reachable h \<Longrightarrow>
    helper_reachable (snd (handleExternalWorkflowExecutionCancelRequested n i h))"
| cancelFailed: "helper_reachable h \<Longrightarrow>
    helper_reachable (snd (handleRequestCancelExternalWorkflowExecutionFailed n i h))"
| signalExternal:
    "helper_reachable h \<Longrightarrow> helper_reachable (snd (signalExternalWorkflowExecution i j k l d e b h))"
| signalInitiated:
    "helper_reachable h \<Longrightarrow> helper_reachable (snd (handleSignalExternalWorkflowExecutionInitiated n i h))"
| signalCompleted:
    "helper_reachable h \<Longrightarrow> helper_reachable (snd (handleSignalExternalWorkflowExecutionCompleted n h))"
| signalFailed:
    "helper_reachable h \<Longrightarrow> helper_reachable (snd (handleSignalExternalWorkflowExecutionFailed n h))"
| upsert: "helper_reachable h \<Longrightarrow> helper_reachable (snd (upsertSearchAttributes i f h))"
| timer: "helper_reachable h \<Longrightarrow> helper_reachable (snd (startTimer t h))"
| timerCancel: "helper_reachable h \<Longrightarrow> helper_reachable (snd (cancelTimer i h))"
| timerClosed: "helper_reachable h \<Longrightarrow> helper_reachable (snd (handleTimerClosed i h))"
| timerStarted: "helper_reachable h \<Longrightarrow> helper_reachable (snd (handleTimerStarted i h))"
| timerCanceled: "helper_reachable h \<Longrightarrow> helper_reachable (snd (handleTimerCanceled i h))"
| timerCancelFailed: "helper_reachable h \<Longrightarrow> helper_reachable (snd (handleCancelTimerFailed i h))"
| payload: "helper_reachable h \<Longrightarrow> helper_reachable (snd (setData r x h))"
| collect: "helper_reachable h \<Longrightarrow> helper_reachable (snd (getDecisions b h))"

lemma helper_reachable_inv: "helper_reachable h \<Longrightarrow> helper_inv h"
  by (induction rule: helper_reachable.induct)
    (rule helper_inv_new inv_helper_ops [THEN go_invD] inv_setData [THEN go_invD]
      inv_getDecisions [THEN go_invD], assumption?)+

lemma emitted_mark_sent: "emitted (mark_sent m) = []"
proof -
  obtain s where s: "next_state (kind_tag (m_kind m)) EvDecisionSent (m_state m) = Some s"
    "\<not> emits (kind_tag (m_kind m)) s"
    using dl.flush_clears by blast
  then have "\<not> emits (kind_tag (m_kind (mark_sent m))) (m_state (mark_sent m))"
    by (auto simp: mark_sent_def)
  then show ?thesis by (simp add: emitted_def flip: getDecision_emits)
qed

end
