(* ===== verification/Decision_Properties.thy ===== *)
theory Decision_Properties
  imports Helper_Refinement
begin

text \<open>
  The correctness properties of the decision machines and of the decisions helper, each
  with a concrete run of the code as a witness.
\<close>

section \<open>A concrete helper\<close>

definition ex_activity :: "string \<Rightarrow> ScheduleActivityTaskDecisionAttributes" where
  "ex_activity i = \<lparr>sat_ActivityId = Some i, sat_ActivityType = Some ''act'', sat_Domain = None,
     sat_TaskList = None, sat_Input = [], sat_ScheduleToCloseTimeoutSeconds = Some 10,
     sat_ScheduleToStartTimeoutSeconds = Some 10, sat_StartToCloseTimeoutSeconds = Some 10,
     sat_HeartbeatTimeoutSeconds = None, sat_RetryPolicy = None, sat_Header = None,
     sat_RequestLocalDispatch = None\<rparr>"

definition ex_child :: "string \<Rightarrow> StartChildWorkflowExecutionDecisionAttributes" where
  "ex_child i = \<lparr>scw_Domain = None, scw_WorkflowId = Some i, scw_WorkflowType = Some ''wf'',
     scw_TaskList = None, scw_Input = [], scw_ExecutionStartToCloseTimeoutSeconds = Some 10,
     scw_TaskStartToCloseTimeoutSeconds = Some 10, scw_ParentClosePolicy = None,
     scw_WorkflowIdReusePolicy = None, scw_RetryPolicy = None, scw_CronSchedule = None,
     scw_Header = None, scw_Memo = None, scw_SearchAttributes = None\<rparr>"

text \<open>One activity, just scheduled by workflow code.\<close>

definition ex_helper :: decisionsHelper where
  "ex_helper = snd (scheduleActivityTask (ex_activity ''1'') newDecisionsHelper)"

lemma ex_helper_reachable: "helper_reachable ex_helper"
  unfolding ex_helper_def by (rule helper_reachable.schedule [OF helper_reachable.new])

lemma ex_helper_inv: "helper_inv ex_helper"
  by (rule helper_reachable_inv [OF ex_helper_reachable])

definition ex_machine :: machine where
  "ex_machine = newDecisionStateMachineBase decisionTypeActivity ''1''
     (activityDecisionStateMachine (ex_activity ''1''))"

lemma ex_helper_eq: "ex_helper = newDecisionsHelper\<lparr>machines := [0 \<mapsto> ex_machine], nextRef := Suc 0,
    orderedDecisions := [0], decisions := [m_id ex_machine \<mapsto> 0]\<rparr>"
  unfolding ex_helper_def scheduleActivityTask_def newActivityDecisionStateMachine_def addNew_run
  by (simp add: newDecisionsHelper_def alloc_machine_def ex_machine_def ex_activity_def)

lemma ex_helper_contents: "contents ex_helper = [ex_machine]"
  by (simp add: contents_def heap_def ex_helper_eq)

lemma ex_helper_simps:
  "machines ex_helper 0 = Some ex_machine" "m_id ex_machine = makeDecisionID decisionTypeActivity ''1''"
  "m_state ex_machine = decisionStateCreated" "kind_tag (m_kind ex_machine) = ActivityKind"
  by (simp_all add: ex_helper_eq ex_machine_def)

section \<open>Machines\<close>

text \<open>
  (C1) Every method of every decision machine implements the life-cycle diagram of its
  kind: an event the diagram allows moves the machine along the edge, keeps its identity,
  kind and payload, touches no other machine and drops it from the helper exactly when it
  completes; an event the diagram does not allow panics and changes no state.
\<close>

theorem machine_implements_diagram:
  "machines h r = Some m \<Longrightarrow> implements ev r m h"
  by (rule send_implements)

theorem machine_implements_diagram_witness:
  "machines ex_helper 0 = Some ex_machine \<and> implements EvCancel 0 ex_machine ex_helper \<and>
   next_state ActivityKind EvCancel (m_state ex_machine) = Some decisionStateCompleted"
  using machine_implements_diagram [OF ex_helper_simps(1), of EvCancel]
  by (simp add: ex_helper_simps next_state_def edge_defs)

text \<open>A machine of the helper is in a state that its kind can reach.\<close>

definition states_ok :: "decisionsHelper \<Rightarrow> bool" where
  "states_ok h \<longleftrightarrow> (\<forall>r m. machines h r = Some m \<longrightarrow> m_state m \<in> states_of (kind_tag (m_kind m)))"

lemma states_ok_update:
  "states_ok h \<Longrightarrow> m_state m' \<in> states_of (kind_tag (m_kind m')) \<Longrightarrow> machines h' = (machines h)(r \<mapsto> m') \<Longrightarrow> states_ok h'"
  by (simp add: states_ok_def)

lemma states_ok_cong: "states_ok h \<Longrightarrow> machines h' = machines h \<Longrightarrow> states_ok h'"
  by (simp add: states_ok_def)

lemma machines_drop [simp]: "machines (drop_if_completed m h) = machines h" "machines (removeDecision i r h) = machines h"
  by (simp_all add: drop_if_completed_def removeDecision_def split: option.split)

lemma states_send: "go_inv states_ok (send ev r)"
proof (rule go_invI)
  fix h assume ok: "states_ok h"
  show "states_ok (snd (send ev r h))"
  proof (cases "machines h r")
    case None
    with ok show ?thesis by (simp add: send_dangling)
  next
    case (Some m)
    have s: "m_state m \<in> states_of (kind_tag (m_kind m))" using ok Some by (simp add: states_ok_def)
    show ?thesis
    proof (cases "next_state (kind_tag (m_kind m)) ev (m_state m)")
      case None
      obtain p h' where h': "send ev r h = (Inl p, h')" "rejected m h h' r" using send_None [OF Some None] .
      then obtain m' where "m_state m' = m_state m" "kind_tag (m_kind m') = kind_tag (m_kind m)" "machines h' = (machines h)(r \<mapsto> m')"
        by (auto simp: rejected_def)
      then show ?thesis using h'(1) s states_ok_update [OF ok, of m' h' r] by simp
    next
      case next_s: (Some t)
      obtain h' where h': "send ev r h = (Inr (), h')" "moves_to m h h' r t" using send_Some [OF Some next_s] .
      have "t \<in> states_of (kind_tag (m_kind m))" by (rule states_of_step [OF s next_s])
      moreover obtain m' where "m_state m' = t" "kind_tag (m_kind m') = kind_tag (m_kind m)" "machines h' = (machines h)(r \<mapsto> m')"
        using h'(2) by (auto simp: moves_to_def split: if_splits)
      ultimately show ?thesis using h'(1) states_ok_update [OF ok, of m' h' r] by simp
    qed
  qed
qed

lemmas states_calls = states_send [of EvCancel, unfolded send.simps] states_send [of EvDecisionSent, unfolded send.simps]
  states_send [of EvInitiated, unfolded send.simps] states_send [of EvInitiationFailed, unfolded send.simps]
  states_send [of EvStarted, unfolded send.simps] states_send [of EvCompletion, unfolded send.simps]
  states_send [of EvCancelInitiated, unfolded send.simps] states_send [of EvCancelFailed, unfolded send.simps]
  states_send [of EvCanceled, unfolded send.simps]

lemma states_frame: "(\<And>h. machines (f h) = machines h) \<Longrightarrow> go_inv states_ok (go_modify f)"
  by (rule go_inv_modify) (auto intro: states_ok_cong)

lemma states_deref: "go_inv states_ok (deref r)"
  by (rule go_invI) (simp add: deref_def split: option.split)

lemma states_setData: "go_inv states_ok (setData r d)"
proof (rule go_invI)
  fix h assume "states_ok h"
  then show "states_ok (snd (setData r d h))"
    by (cases "machines h r") (auto simp: setData_def update_machine_def deref_def go_simps states_ok_def)
qed

lemma states_getDecision: "go_inv states_ok (getDecision i)"
  unfolding getDecision_def panicIllegalState_def by (intro go_keeps states_frame) simp

lemma states_onDecision: "(\<And>r. go_inv states_ok (method r)) \<Longrightarrow> go_inv states_ok (onDecision i method)"
  unfolding onDecision_def by (intro go_keeps states_getDecision)

lemma states_addNew:
  assumes "m_state m = decisionStateCreated"
  shows "go_inv states_ok (addNew (alloc_machine m))"
proof (rule go_invI)
  fix h assume "states_ok h"
  moreover have "decisionStateCreated \<in> states_of k" for k by (cases k) simp_all
  ultimately show "states_ok (snd (addNew (alloc_machine m) h))"
    using assms by (auto simp: addNew_run Let_def alloc_machine_def states_ok_def split: option.splits)
qed

lemma states_addNew_machines:
  "go_inv states_ok (addNew (newActivityDecisionStateMachine a1))"
  "go_inv states_ok (addNew (newTimerDecisionStateMachine a2))"
  "go_inv states_ok (addNew (newChildWorkflowDecisionStateMachine a3))"
  "go_inv states_ok (addNew (newMarkerDecisionStateMachine i a4))"
  "go_inv states_ok (addNew (newCancelExternalWorkflowStateMachine a5 i))"
  "go_inv states_ok (addNew (newSignalExternalWorkflowStateMachine a6 i))"
  "go_inv states_ok (addNew (newUpsertSearchAttributesStateMachine a7 i))"
  unfolding new_machine_defs by (simp_all add: states_addNew)

lemma states_getDecisions: "go_inv states_ok (getDecisions b)"
proof -
  have "go_inv states_ok (getDecisions_from n b cur)" for n cur
    by (induction n b cur rule: getDecisions_from.induct)
      (auto simp: getDecisions_step_def call_getDecision_def intro!: go_keeps states_calls states_deref states_frame)
  then show ?thesis unfolding getDecisions_def by (intro go_keeps) simp
qed

lemma states_ops:
  "go_inv states_ok (scheduleActivityTask a)"
  "go_inv states_ok (requestCancelActivityTask i)"
  "go_inv states_ok (handleActivityTaskClosed i)"
  "go_inv states_ok (handleActivityTaskScheduled n i)"
  "go_inv states_ok (handleActivityTaskCancelRequested i)"
  "go_inv states_ok (handleActivityTaskCanceled i)"
  "go_inv states_ok (handleRequestCancelActivityTaskFailed i)"
  "go_inv states_ok (recordMarker i j d)"
  "go_inv states_ok (startChildWorkflowExecution c)"
  "go_inv states_ok (handleStartChildWorkflowExecutionInitiated i)"
  "go_inv states_ok (handleStartChildWorkflowExecutionFailed i)"
  "go_inv states_ok (requestCancelExternalWorkflowExecution i j k l b)"
  "go_inv states_ok (handleRequestCancelExternalWorkflowExecutionInitiated n i j)"
  "go_inv states_ok (handleExternalWorkflowExecutionCancelRequested n i)"
  "go_inv states_ok (handleRequestCancelExternalWorkflowExecutionFailed n i)"
  "go_inv states_ok (signalExternalWorkflowExecution i j k l d' e b)"
  "go_inv states_ok (upsertSearchAttributes i f)"
  "go_inv states_ok (handleSignalExternalWorkflowExecutionInitiated n i)"
  "go_inv states_ok (handleSignalExternalWorkflowExecutionCompleted n)"
  "go_inv states_ok (handleSignalExternalWorkflowExecutionFailed n)"
  "go_inv states_ok (startTimer t)"
  "go_inv states_ok (cancelTimer i)"
  "go_inv states_ok (handleTimerClosed i)"
  "go_inv states_ok (handleTimerStarted i)"
  "go_inv states_ok (handleTimerCanceled i)"
  "go_inv states_ok (handleCancelTimerFailed i)"
  "go_inv states_ok (handleChildWorkflowExecutionStarted i)"
  "go_inv states_ok (handleChildWorkflowExecutionClosed i)"
  "go_inv states_ok (handleChildWorkflowExecutionCanceled i)"
  unfolding helper_op_defs
  by (intro go_keeps states_calls states_deref states_setData states_onDecision states_getDecision states_addNew_machines
      states_frame; simp)+

lemma reachable_states: "helper_reachable h \<Longrightarrow> machines h r = Some m \<Longrightarrow> m_state m \<in> states_of (kind_tag (m_kind m))"
proof -
  assume "helper_reachable h"
  then have "states_ok h"
    by (induction rule: helper_reachable.induct)
      (simp add: states_ok_def newDecisionsHelper_def, (rule states_ops [THEN go_invD] states_setData [THEN go_invD]
        states_getDecisions [THEN go_invD], assumption)+)
  then show "machines h r = Some m \<Longrightarrow> m_state m \<in> states_of (kind_tag (m_kind m))" by (simp add: states_ok_def)
qed






text \<open>
  Marker and upsert machines complete the moment their decision is sent: the state
  "decision sent", which the comment on the struct names, is never entered.
\<close>

lemma marker_never_sent:
  assumes "helper_reachable h" and "machines h r = Some m" and "kind_tag (m_kind m) \<in> {MarkerKind, UpsertKind}"
  shows "m_state m = decisionStateCreated \<or> m_state m = decisionStateCompleted"
  using reachable_states [OF assms(1,2)] assms(3) by auto

section \<open>The helper\<close>

text \<open>
  (C2) In every state a run of the helper can reach, the ordered list and the ID map agree,
  no two machines share an ID and no completed machine is listed.
\<close>

theorem helper_coherent:
  assumes "helper_reachable h"
  shows "helper_inv h \<and> distinct (map m_id (contents h)) \<and> (\<forall>m \<in> set (contents h). still_open m)"
  using helper_reachable_inv [OF assms] contents_distinct heap_open
  by (auto simp: contents_def still_open_def)

theorem helper_coherent_witness:
  "helper_reachable ex_helper \<and> distinct (map m_id (contents ex_helper)) \<and> contents ex_helper = [ex_machine]"
  using ex_helper_reachable helper_coherent [OF ex_helper_reachable] ex_helper_contents by simp

text \<open>
  (C3) \<open>getDecisions\<close>, which walks the linked list while it removes elements from it,
  equals its reference: it terminates, returns the pending decision of every machine in
  list order, and leaves exactly the machines that are still open, each marked as sent when
  asked to.
\<close>

theorem getDecisions_correct:
  assumes "helper_reachable h"
  shows "\<exists>h'. getDecisions b h = (Inr (concat (map emitted (contents h))), h') \<and>
           contents h' = filter still_open (map (mark b) (contents h))"
  using getDecisions_run [OF helper_reachable_inv [OF assms]] by metis

theorem getDecisions_correct_witness:
  "helper_reachable ex_helper \<and>
   fst (getDecisions True ex_helper) = Inr [ScheduleActivityTask (ex_activity ''1'')]"
proof -
  have "emitted ex_machine = [ScheduleActivityTask (ex_activity ''1'')]"
    by (simp add: emitted_def ex_machine_def machine_getDecision_def activity_getDecision_def)
  then show ?thesis
    using ex_helper_reachable getDecisions_correct [OF ex_helper_reachable, of True]
    by (auto simp: ex_helper_contents)
qed

text \<open>
  (C4) A decision is sent once: after \<open>getDecisions(true)\<close> the helper has nothing left to
  send until workflow code or a history event changes a machine.
\<close>

theorem decisions_sent_once:
  assumes "helper_reachable h" and "getDecisions True h = (Inr ds, h1)"
  shows "fst (getDecisions b h1) = Inr []"
proof -
  from getDecisions_run [OF helper_reachable_inv [OF assms(1)], of True] assms(2)
  have inv: "helper_inv h1" and c: "contents h1 = filter still_open (map (mark True) (contents h))"
    by (metis prod.inject)+
  have "concat (map emitted (contents h1)) = []"
    by (auto simp: c mark_def emitted_mark_sent)
  then show ?thesis using getDecisions_run [OF inv, of b] by (metis fst_conv)
qed

theorem decisions_sent_once_witness:
  "\<exists>h1. getDecisions True ex_helper = (Inr [ScheduleActivityTask (ex_activity ''1'')], h1) \<and>
        fst (getDecisions True h1) = Inr []"
proof -
  have e: "emitted ex_machine = [ScheduleActivityTask (ex_activity ''1'')]"
    by (simp add: emitted_def ex_machine_def machine_getDecision_def activity_getDecision_def)
  obtain h1 where h1: "getDecisions True ex_helper = (Inr [ScheduleActivityTask (ex_activity ''1'')], h1)"
    using getDecisions_run [OF ex_helper_inv, of True] e by (auto simp: ex_helper_contents)
  then show ?thesis using decisions_sent_once [OF ex_helper_reachable h1] by blast
qed

text \<open>
  (C8) Looking a machine up moves it to the back, so decisions go out in the order in which
  machines were last used: after \<open>m\<close> and then \<open>n\<close> are used, they are the last two, in
  that order, and all others keep their places.
\<close>

theorem decisions_in_use_order:
  assumes "helper_reachable h" and "m \<in> set (contents h)" and "n \<in> set (contents h)" and "m \<noteq> n"
  shows "\<exists>r r' h1 h2. getDecision (m_id m) h = (Inr r, h1) \<and> getDecision (m_id n) h1 = (Inr r', h2) \<and>
           contents h2 = remove1 n (remove1 m (contents h)) @ [m, n]"
  by (rule store.touch_order [OF helper_reachable_inv [OF assms(1)] assms(2-4)])

definition ex_helper2 :: decisionsHelper where
  "ex_helper2 = snd (startChildWorkflowExecution (ex_child ''c'') ex_helper)"

definition ex_child_machine :: machine where
  "ex_child_machine = newDecisionStateMachineBase decisionTypeChildWorkflow ''c''
     (childWorkflowDecisionStateMachine (ex_child ''c''))"

lemma ex_helper2_reachable: "helper_reachable ex_helper2"
  unfolding ex_helper2_def by (rule helper_reachable.startChild [OF ex_helper_reachable])

lemma ex_helper2_contents: "contents ex_helper2 = [ex_machine, ex_child_machine]"
  unfolding ex_helper2_def startChildWorkflowExecution_def newChildWorkflowDecisionStateMachine_def
    addNew_run ex_helper_eq
  by (simp add: newDecisionsHelper_def alloc_machine_def ex_machine_def ex_child_machine_def
    ex_child_def contents_def heap_def)

lemma ex_machines_differ: "ex_machine \<noteq> ex_child_machine"
  by (simp add: ex_machine_def ex_child_machine_def newDecisionStateMachineBase_def makeDecisionID_def)

theorem decisions_in_use_order_witness:
  "\<exists>r r' h1 h2. getDecision (m_id ex_child_machine) ex_helper2 = (Inr r, h1) \<and>
     getDecision (m_id ex_machine) h1 = (Inr r', h2) \<and> contents h2 = [ex_child_machine, ex_machine]"
  using decisions_in_use_order [OF ex_helper2_reachable, of ex_child_machine ex_machine]
    ex_machines_differ by (simp add: ex_helper2_contents)

text \<open>
  A second decision with the ID of an open one is refused with a panic, and the
  collection is left as it was after the first.
\<close>

lemma duplicate_decision_refused:
  assumes "helper_reachable h" and "still_open m" and "still_open n" and "m_id n = m_id m"
    and "m_id m \<notin> m_id ` set (contents h)"
  shows "\<exists>r e h1 h2. addNew (alloc_machine m) h = (Inr r, h1) \<and> addNew (alloc_machine n) h1 = (Inl e, h2) \<and>
           contents h2 = contents h @ [m]"
  by (rule store.insert_twice [OF helper_reachable_inv [OF assms(1)] assms(2-5)])

lemma cancel_created:
  assumes "cancellable (kind_tag (m_kind m))" and "m_state m = decisionStateCreated"
  shows "next_state (kind_tag (m_kind m)) EvCancel (m_state m) = Some decisionStateCompleted"
  using assms by (cases "kind_tag (m_kind m)") (simp_all add: next_state_def edge_defs cancellable_def)

text \<open>
  (C6) Cancelling an activity, timer or child workflow before its decision was sent retracts
  it without a trace: the machine leaves the collection and nothing about it is sent.
\<close>

theorem cancel_before_sent_retracts:
  assumes "helper_reachable h" and "m \<in> set (contents h)" and "m_state m = decisionStateCreated"
    and "cancellable (kind_tag (m_kind m))"
  shows "\<exists>r h' h''. onDecision (m_id m) call_cancel h = (Inr r, h') \<and>
     contents h' = remove1 m (contents h) \<and>
     getDecisions True h' = (Inr (concat (map emitted (remove1 m (contents h)))), h'')"
proof -
  from onDecision_accepts [OF helper_reachable_inv [OF assms(1)] assms(2) cancel_created [OF assms(4,3)]]
  obtain r h' m' where 1: "onDecision (m_id m) (send EvCancel) h = (Inr r, h')" "helper_inv h'"
    "m_state m' = decisionStateCompleted"
    "contents h' = remove1 m (contents h) @ filter still_open [m']" by metis
  then have c: "contents h' = remove1 m (contents h)" by (simp add: still_open_def)
  with getDecisions_run [OF 1(2), of True] obtain h'' where
    "getDecisions True h' = (Inr (concat (map emitted (remove1 m (contents h)))), h'')" by metis
  with 1(1) c show ?thesis by auto
qed

theorem cancel_before_sent_retracts_witness:
  "\<exists>r h' h''. onDecision (m_id ex_machine) call_cancel ex_helper = (Inr r, h') \<and>
     contents h' = [] \<and> getDecisions True h' = (Inr [], h'')"
  using cancel_before_sent_retracts [OF ex_helper_reachable, of ex_machine]
  by (simp add: ex_helper_contents ex_helper_simps cancellable_def)

lemma mark_True [simp]: "mark True = mark_sent"
  by (rule ext) (simp add: mark_def)

text \<open>One step of the life cycle for the machine at the back of the collection.\<close>

lemma last_machine_steps:
  assumes "helper_inv h" and "contents h = old @ [m]"
    and "next_state (kind_tag (m_kind m)) ev (m_state m) = Some s"
  obtains r h' m' where "onDecision (m_id m) (send ev) h = (Inr r, h')" and "helper_inv h'"
    and "m_id m' = m_id m" and "m_state m' = s" and "kind_tag (m_kind m') = kind_tag (m_kind m)"
    and "contents h' = old @ filter still_open [m']"
    and "scheduledEventIDToActivityID h' = scheduledEventIDToActivityID h"
proof -
  have m: "m \<in> set (contents h)" by (simp add: assms(2))
  have "m \<notin> set old" using contents_distinct [OF assms(1)] by (auto simp: assms(2))
  then have rem: "remove1 m (contents h) = old" by (simp add: assms(2) remove1_append)
  from onDecision_accepts [OF assms(1) m assms(3)] obtain r h' m' where
    1: "onDecision (m_id m) (send ev) h = (Inr r, h')" "helper_inv h'" "m_id m' = m_id m"
      "m_state m' = s" "kind_tag (m_kind m') = kind_tag (m_kind m)"
      "contents h' = remove1 m (contents h) @ filter still_open [m']" by metis
  moreover have "scheduledEventIDToActivityID h' = scheduledEventIDToActivityID h"
    using go_invD [OF frame_onDecision, of h, OF refl, of "m_id m" ev] 1(1) by simp
  ultimately show ?thesis using that rem by simp
qed

text \<open>A new machine: added at the back, sent by the next \<open>getDecisions\<close>.\<close>

lemma new_activity_sent:
  assumes inv: "helper_inv h" and i: "get_str (sat_ActivityId attrs) = i"
    and new: "makeDecisionID decisionTypeActivity i \<notin> m_id ` set (contents h)"
  obtains r h1 ds h2 m2 where "scheduleActivityTask attrs h = (Inr r, h1)"
    and "getDecisions True h1 = (Inr (ds @ [ScheduleActivityTask attrs]), h2)" and "helper_inv h2"
    and "contents h2 = filter still_open (map mark_sent (contents h)) @ [m2]"
    and "m_id m2 = makeDecisionID decisionTypeActivity i" and "m_state m2 = decisionStateDecisionSent"
    and "kind_tag (m_kind m2) = ActivityKind"
proof -
  let ?m = "newDecisionStateMachineBase decisionTypeActivity i (activityDecisionStateMachine attrs)"
  let ?m2 = "enterState decisionStateDecisionSent eventDecisionSent ?m"
  from store.insert_ok [OF inv, of ?m] new obtain r h1 where
    1: "addNew (alloc_machine ?m) h = (Inr r, h1)" "helper_inv h1" "contents h1 = contents h @ [?m]"
    by (auto simp: still_open_def)
  obtain h2 where 2: "getDecisions True h1 = (Inr (concat (map emitted (contents h1))), h2)"
    "helper_inv h2" "contents h2 = filter still_open (map (mark True) (contents h1))"
    using getDecisions_run [OF 1(2), of True] by metis
  have "emitted ?m = [ScheduleActivityTask attrs]"
    by (simp add: emitted_def machine_getDecision_def activity_getDecision_def)
  moreover have "contents h2 = filter still_open (map mark_sent (contents h)) @ [?m2]"
    by (simp add: 2(3) 1(3)) (simp add: mark_sent_def next_state_def edge_defs still_open_def)
  ultimately show ?thesis
    using that [of r h1 "concat (map emitted (contents h))" h2 ?m2] 1 2
    by (simp add: scheduleActivityTask_def newActivityDecisionStateMachine_def i)
qed

text \<open>
  (C5) The whole life of an activity: scheduled under a new ID, its decision is the last one
  sent; the scheduled event binds the event ID to the activity ID; the closing event finds
  that ID again and removes the activity, leaving the other machines as they were after
  sending.
\<close>

theorem activity_round_trip:
  assumes "helper_reachable h" and "get_str (sat_ActivityId attrs) = i"
    and "makeDecisionID decisionTypeActivity i \<notin> m_id ` set (contents h)"
  shows "\<exists>r h1 ds h2 h3 r' h4.
     scheduleActivityTask attrs h = (Inr r, h1) \<and>
     getDecisions True h1 = (Inr (ds @ [ScheduleActivityTask attrs]), h2) \<and>
     handleActivityTaskScheduled n i h2 = (Inr (), h3) \<and>
     fst (getActivityID (Some n) h3) = Inr i \<and>
     handleActivityTaskClosed i h3 = (Inr r', h4) \<and>
     contents h4 = filter still_open (map mark_sent (contents h))"
proof -
  obtain r h1 ds h2 m2 where 1: "scheduleActivityTask attrs h = (Inr r, h1)"
    "getDecisions True h1 = (Inr (ds @ [ScheduleActivityTask attrs]), h2)" "helper_inv h2"
    "contents h2 = filter still_open (map mark_sent (contents h)) @ [m2]"
    "m_id m2 = makeDecisionID decisionTypeActivity i" "m_state m2 = decisionStateDecisionSent"
    "kind_tag (m_kind m2) = ActivityKind"
    using new_activity_sent [OF helper_reachable_inv [OF assms(1)] assms(2,3)] by metis
  let ?h2 = "h2\<lparr>scheduledEventIDToActivityID := (scheduledEventIDToActivityID h2)(n \<mapsto> i)\<rparr>"
  have inv2: "helper_inv ?h2" using 1(3) by (simp add: helper_inv_def listed_def)
  have c2: "contents ?h2 = filter still_open (map mark_sent (contents h)) @ [m2]"
    using 1(4) by (simp add: contents_def heap_def [abs_def])
  have "next_state (kind_tag (m_kind m2)) EvInitiated (m_state m2) = Some decisionStateInitiated"
    by (simp add: 1 next_state_def edge_defs)
  from last_machine_steps [OF inv2 c2 this] obtain r3 h3 m3 where
    3: "onDecision (m_id m2) (send EvInitiated) ?h2 = (Inr r3, h3)" "helper_inv h3" "m_id m3 = m_id m2"
    "m_state m3 = decisionStateInitiated" "kind_tag (m_kind m3) = kind_tag (m_kind m2)"
    "contents h3 = filter still_open (map mark_sent (contents h)) @ filter still_open [m3]"
    "scheduledEventIDToActivityID h3 = scheduledEventIDToActivityID ?h2" by metis
  then have c3: "contents h3 = filter still_open (map mark_sent (contents h)) @ [m3]"
    by (simp add: still_open_def)
  have "next_state (kind_tag (m_kind m3)) EvCompletion (m_state m3) = Some decisionStateCompleted"
    by (simp add: 1 3 next_state_def edge_defs)
  from last_machine_steps [OF 3(2) c3 this] obtain r4 h4 m4 where
    4: "onDecision (m_id m3) (send EvCompletion) h3 = (Inr r4, h4)" "m_state m4 = decisionStateCompleted"
    "contents h4 = filter still_open (map mark_sent (contents h)) @ filter still_open [m4]" by metis
  have "fst (getActivityID (Some n) h3) = Inr i" by (simp add: getActivityID_def go_simps 3(7))
  moreover have "handleActivityTaskScheduled n i h2 = (Inr (), h3)"
    using 3(1) 1(5) by (simp add: handleActivityTaskScheduled_def go_simps)
  moreover have "handleActivityTaskClosed i h3 = (Inr r4, h4)"
    using 4(1) 3(3) 1(5) by (simp add: handleActivityTaskClosed_def)
  moreover have "contents h4 = filter still_open (map mark_sent (contents h))"
    using 4 by (simp add: still_open_def)
  ultimately show ?thesis using 1(1,2) by blast
qed

theorem activity_round_trip_witness:
  "\<exists>r h1 ds h2 h3 r' h4.
     scheduleActivityTask (ex_activity ''1'') newDecisionsHelper = (Inr r, h1) \<and>
     getDecisions True h1 = (Inr (ds @ [ScheduleActivityTask (ex_activity ''1'')]), h2) \<and>
     handleActivityTaskScheduled 5 ''1'' h2 = (Inr (), h3) \<and>
     fst (getActivityID (Some 5) h3) = Inr ''1'' \<and>
     handleActivityTaskClosed ''1'' h3 = (Inr r', h4) \<and> contents h4 = []"
  using activity_round_trip [OF helper_reachable.new, of "ex_activity ''1''" "''1''" 5]
  by (simp add: ex_activity_def newDecisionsHelper_def contents_def)

text \<open>
  (C9) A child workflow that is cancelled after its start was initiated cannot take the
  service's answer that the start failed: the handler of
  \<open>StartChildWorkflowExecutionFailed\<close> panics with an illegal state, although the same
  answer is accepted in the states before and after the initiation without a cancellation.
\<close>

theorem child_start_failure_after_cancel_panics:
  assumes "helper_reachable h" and "m \<in> set (contents h)"
    and "m_id m = makeDecisionID decisionTypeChildWorkflow i"
    and "kind_tag (m_kind m) = ChildWorkflowKind"
    and "m_state m = decisionStateCanceledAfterInitiated"
  shows "\<exists>p h'. handleStartChildWorkflowExecutionFailed i h = (Inl p, h')"
  using onDecision_rejects [OF helper_reachable_inv [OF assms(1)] assms(2), of EvInitiationFailed]
  by (simp add: handleStartChildWorkflowExecutionFailed_def assms next_state_def edge_defs)

text \<open>A run that gets there: start, send, initiated, cancel, send.\<close>

definition ex_canceled_child :: decisionsHelper where
  "ex_canceled_child =
     snd (getDecisions True
     (snd (requestCancelExternalWorkflowExecution [] ''c'' [] [] True
     (snd (handleStartChildWorkflowExecutionInitiated ''c''
     (snd (getDecisions True
     (snd (startChildWorkflowExecution (ex_child ''c'') newDecisionsHelper)))))))))"

lemma ex_canceled_child_reachable: "helper_reachable ex_canceled_child"
  unfolding ex_canceled_child_def
  by (rule helper_reachable.intros)+

lemma ex_canceled_child_contents:
  "\<exists>m. contents ex_canceled_child = [m] \<and> m_id m = makeDecisionID decisionTypeChildWorkflow ''c'' \<and>
     kind_tag (m_kind m) = ChildWorkflowKind \<and> m_state m = decisionStateCanceledAfterInitiated"
  unfolding ex_canceled_child_def startChildWorkflowExecution_def newChildWorkflowDecisionStateMachine_def
    addNew_run
  by (simp add: newDecisionsHelper_def alloc_machine_def ex_child_def getDecisions_def
    list_front_def getDecisions_step_def call_getDecision_def go_bind_assoc go_simps
    handleStartChildWorkflowExecutionInitiated_def requestCancelExternalWorkflowExecution_def
    onDecision_def getDecision_def list_move_to_back_def call_defs override_defs base_method_defs
    drop_if_completed_def contents_def heap_def)

theorem child_start_failure_after_cancel_panics_witness:
  "\<exists>p h'. handleStartChildWorkflowExecutionFailed ''c'' ex_canceled_child = (Inl p, h')"
  using ex_canceled_child_contents child_start_failure_after_cancel_panics
    [OF ex_canceled_child_reachable, of _ "''c''"] by force

end
