(* ===== verification/History_Events.thy ===== *)
theory History_Events
  imports Thrift_Types
begin

text \<open>
  History events of \<open>src/.gen/go/shared/shared.go\<close>.  A \<open>HistoryEvent\<close> struct has a type
  tag and one attribute pointer per type; the tag and the pointer that belongs to it form a
  tagged union here.  Where the client reads attribute fields directly, the pointer is an
  \<open>option\<close>, because a nil pointer panics; where it only uses the nil-safe getters, nil
  struct and nil field read the same and the field alone is kept.  Fields the client never
  reads are left out.  \<open>estimateHistorySize\<close> of \<open>src/internal/internal_utils.go\<close> closes
  the theory.
\<close>

type_synonym timeoutType = i32

definition TimeoutTypeStartToClose :: timeoutType where "TimeoutTypeStartToClose = 0"
definition TimeoutTypeScheduleToStart :: timeoutType where "TimeoutTypeScheduleToStart = 1"
definition TimeoutTypeScheduleToClose :: timeoutType where "TimeoutTypeScheduleToClose = 2"
definition TimeoutTypeHeartbeat :: timeoutType where "TimeoutTypeHeartbeat = 3"

lemmas timeoutType_defs =
  TimeoutTypeStartToClose_def TimeoutTypeScheduleToStart_def
  TimeoutTypeScheduleToClose_def TimeoutTypeHeartbeat_def

datatype ExternalFailedCause = CauseUnknownExternalWorkflowExecution | CauseWorkflowAlreadyCompleted

section \<open>Event attributes\<close>

record WorkflowExecutionStartedEventAttributes =
  wes_Input :: nbytes
  wes_ContinuedFailureDetails :: nbytes
  wes_LastCompletionResult :: nbytes
  wes_Memo :: "fields option"
  wes_Header :: "fields option"
  wes_SearchAttributes :: "fields option"
  wes_TaskList :: "TaskList option"
  wes_OriginalExecutionRunId :: "string option"
  wes_ExecutionStartToCloseTimeoutSeconds :: "int option"
  wes_TaskStartToCloseTimeoutSeconds :: "int option"
  wes_Attempt :: "int option"
  wes_CronSchedule :: "string option"
  wes_ContinuedExecutionRunId :: "string option"
  wes_ParentWorkflowDomain :: "string option"
  wes_ParentWorkflowExecution :: "WorkflowExecutionT option"
  wes_RetryPolicy :: "ThriftRetryPolicy option"

record WorkflowExecutionFailedEventAttributes =
  wef_Reason :: "string option"
  wef_Details :: nbytes

record DecisionTaskCompletedEventAttributes =
  dtc_ExecutionContext :: nbytes
  dtc_Identity :: "string option"
  dtc_BinaryChecksum :: "string option"

record ActivityTaskScheduledEventAttributes =
  ats_ActivityId :: "string option"
  ats_ActivityType :: "string option"
  ats_TaskList :: "TaskList option"
  ats_Input :: nbytes
  ats_Header :: "fields option"

record ActivityTaskCompletedEventAttributes =
  atc_Result :: nbytes
  atc_ScheduledEventId :: "int option"
  atc_Identity :: "string option"

record ActivityTaskFailedEventAttributes =
  atf_Reason :: "string option"
  atf_Details :: nbytes
  atf_ScheduledEventId :: "int option"

record ActivityTaskTimedOutEventAttributes =
  att_Details :: nbytes
  att_ScheduledEventId :: "int option"
  att_TimeoutType :: "timeoutType option"
  att_LastFailureReason :: "string option"
  att_LastFailureDetails :: nbytes

record ActivityTaskCanceledEventAttributes =
  atx_Details :: nbytes
  atx_ScheduledEventId :: "int option"

record RequestCancelExternalWorkflowExecutionInitiatedEventAttributes =
  rci_Domain :: "string option"
  rci_WorkflowExecution :: "WorkflowExecutionT option"
  rci_Control :: nbytes

record RequestCancelExternalWorkflowExecutionFailedEventAttributes =
  rcf_Cause :: "ExternalFailedCause option"
  rcf_WorkflowExecution :: "WorkflowExecutionT option"
  rcf_InitiatedEventId :: "int option"

record ExternalWorkflowExecutionCancelRequestedEventAttributes =
  ecr_InitiatedEventId :: "int option"
  ecr_WorkflowExecution :: "WorkflowExecutionT option"

record MarkerRecordedEventAttributes =
  mr_MarkerName :: "string option"
  mr_Details :: nbytes

record WorkflowExecutionSignaledEventAttributes =
  wsg_SignalName :: "string option"
  wsg_Input :: nbytes

record WorkflowExecutionContinuedAsNewEventAttributes =
  wcn_Input :: nbytes
  wcn_FailureDetails :: nbytes
  wcn_LastCompletionResult :: nbytes
  wcn_Memo :: "fields option"
  wcn_Header :: "fields option"
  wcn_SearchAttributes :: "fields option"

record StartChildWorkflowExecutionInitiatedEventAttributes =
  sci_Domain :: "string option"
  sci_WorkflowId :: "string option"
  sci_WorkflowType :: "string option"
  sci_TaskList :: "TaskList option"
  sci_Input :: nbytes
  sci_Control :: nbytes
  sci_Memo :: "fields option"
  sci_Header :: "fields option"
  sci_SearchAttributes :: "fields option"

record ChildWorkflowExecutionCompletedEventAttributes =
  cwc_Result :: nbytes
  cwc_WorkflowExecution :: "WorkflowExecutionT option"

record ChildWorkflowExecutionFailedEventAttributes =
  cwf_Reason :: "string option"
  cwf_Details :: nbytes
  cwf_WorkflowExecution :: "WorkflowExecutionT option"

record ChildWorkflowExecutionCanceledEventAttributes =
  cwx_Details :: nbytes
  cwx_WorkflowExecution :: "WorkflowExecutionT option"

record ChildWorkflowExecutionTimedOutEventAttributes =
  cwt_TimeoutType :: "timeoutType option"
  cwt_WorkflowExecution :: "WorkflowExecutionT option"

record SignalExternalWorkflowExecutionInitiatedEventAttributes =
  sei_Domain :: "string option"
  sei_WorkflowExecution :: "WorkflowExecutionT option"
  sei_SignalName :: "string option"
  sei_Input :: nbytes
  sei_Control :: nbytes

section \<open>Events\<close>

datatype (plugins only: code size) EventType =
    EventTypeWorkflowExecutionStarted "WorkflowExecutionStartedEventAttributes option"
  | EventTypeWorkflowExecutionCompleted "nbytes option" \<comment> \<open>\<open>Result\<close>\<close>
  | EventTypeWorkflowExecutionFailed "WorkflowExecutionFailedEventAttributes option"
  | EventTypeWorkflowExecutionTimedOut
  | EventTypeDecisionTaskScheduled
  | EventTypeDecisionTaskStarted "string option" \<comment> \<open>\<open>Identity\<close>\<close>
  | EventTypeDecisionTaskCompleted "DecisionTaskCompletedEventAttributes option"
  | EventTypeDecisionTaskTimedOut
  | EventTypeDecisionTaskFailed nbytes \<comment> \<open>\<open>Details\<close>\<close>
  | EventTypeActivityTaskScheduled "ActivityTaskScheduledEventAttributes option"
  | EventTypeActivityTaskStarted nbytes \<comment> \<open>\<open>LastFailureDetails\<close>\<close>
  | EventTypeActivityTaskCompleted "ActivityTaskCompletedEventAttributes option"
  | EventTypeActivityTaskFailed "ActivityTaskFailedEventAttributes option"
  | EventTypeActivityTaskTimedOut "ActivityTaskTimedOutEventAttributes option"
  | EventTypeActivityTaskCancelRequested "string option" \<comment> \<open>\<open>ActivityId\<close>\<close>
  | EventTypeRequestCancelActivityTaskFailed "string option" \<comment> \<open>\<open>ActivityId\<close>\<close>
  | EventTypeActivityTaskCanceled "ActivityTaskCanceledEventAttributes option"
  | EventTypeTimerStarted "string option" "int option"
      \<comment> \<open>\<open>TimerId\<close>, \<open>StartToFireTimeoutSeconds\<close>\<close>
  | EventTypeTimerFired "string option" \<comment> \<open>\<open>TimerId\<close>\<close>
  | EventTypeCancelTimerFailed "string option" \<comment> \<open>\<open>TimerId\<close>\<close>
  | EventTypeTimerCanceled "string option" \<comment> \<open>\<open>TimerId\<close>\<close>
  | EventTypeWorkflowExecutionCancelRequested
  | EventTypeWorkflowExecutionCanceled "nbytes option" \<comment> \<open>\<open>Details\<close>\<close>
  | EventTypeRequestCancelExternalWorkflowExecutionInitiated
      "RequestCancelExternalWorkflowExecutionInitiatedEventAttributes option"
  | EventTypeRequestCancelExternalWorkflowExecutionFailed
      "RequestCancelExternalWorkflowExecutionFailedEventAttributes option"
  | EventTypeExternalWorkflowExecutionCancelRequested
      "ExternalWorkflowExecutionCancelRequestedEventAttributes option"
  | EventTypeMarkerRecorded "MarkerRecordedEventAttributes option"
  | EventTypeWorkflowExecutionSignaled "WorkflowExecutionSignaledEventAttributes option"
  | EventTypeWorkflowExecutionTerminated nbytes \<comment> \<open>\<open>Details\<close>\<close>
  | EventTypeWorkflowExecutionContinuedAsNew "WorkflowExecutionContinuedAsNewEventAttributes option"
  | EventTypeStartChildWorkflowExecutionInitiated
      "StartChildWorkflowExecutionInitiatedEventAttributes option"
  | EventTypeStartChildWorkflowExecutionFailed "string option" \<comment> \<open>\<open>WorkflowId\<close>\<close>
  | EventTypeChildWorkflowExecutionStarted "WorkflowExecutionT option option"
      \<comment> \<open>\<open>WorkflowExecution\<close>\<close>
  | EventTypeChildWorkflowExecutionCompleted "ChildWorkflowExecutionCompletedEventAttributes option"
  | EventTypeChildWorkflowExecutionFailed "ChildWorkflowExecutionFailedEventAttributes option"
  | EventTypeChildWorkflowExecutionCanceled "ChildWorkflowExecutionCanceledEventAttributes option"
  | EventTypeChildWorkflowExecutionTimedOut "ChildWorkflowExecutionTimedOutEventAttributes option"
  | EventTypeChildWorkflowExecutionTerminated "WorkflowExecutionT option option"
      \<comment> \<open>\<open>WorkflowExecution\<close>\<close>
  | EventTypeSignalExternalWorkflowExecutionInitiated
      "SignalExternalWorkflowExecutionInitiatedEventAttributes option"
  | EventTypeSignalExternalWorkflowExecutionFailed "ExternalFailedCause option" "int option"
      \<comment> \<open>\<open>Cause\<close>, \<open>InitiatedEventId\<close>\<close>
  | EventTypeExternalWorkflowExecutionSignaled "int option" \<comment> \<open>\<open>InitiatedEventId\<close>\<close>
  | EventTypeUpsertWorkflowSearchAttributes "fields option option"
      \<comment> \<open>\<open>SearchAttributes\<close>\<close>
  | UnknownEventType int

record HistoryEvent =
  ev_EventId :: "int option"
  ev_Timestamp :: "int option"
  ev_EventType :: EventType


section \<open>Size estimate\<close>

definition len :: "nbytes \<Rightarrow> int" where
  "len b = (case b of None \<Rightarrow> 0 | Some v \<Rightarrow> int (length v))"

definition getFields :: "fields option \<Rightarrow> fields" where
  "getFields f = (case f of None \<Rightarrow> [] | Some v \<Rightarrow> v)"

fun sizeOf :: "fields \<Rightarrow> int" where
  "sizeOf [] = 0"
| "sizeOf ((k, v) # rest) = int (length k) + int (length v) + sizeOf rest"

definition getLengthOfStringPointer :: "string option \<Rightarrow> int" where
  "getLengthOfStringPointer s = (case s of None \<Rightarrow> 0 | Some v \<Rightarrow> int (length v))"

definition historySizeEstimationBuffer :: int where
  "historySizeEstimationBuffer = 400"

definition estimateHistorySize :: "HistoryEvent \<Rightarrow> int" where
  "estimateHistorySize event = historySizeEstimationBuffer + (case ev_EventType event of
      EventTypeWorkflowExecutionStarted (Some a) \<Rightarrow>
        len (wes_Input a) + len (wes_ContinuedFailureDetails a) + len (wes_LastCompletionResult a)
        + sizeOf (getFields (wes_Memo a)) + sizeOf (getFields (wes_Header a))
        + sizeOf (getFields (wes_SearchAttributes a))
    | EventTypeWorkflowExecutionCompleted (Some result) \<Rightarrow> len result
    | EventTypeWorkflowExecutionSignaled (Some a) \<Rightarrow> len (wsg_Input a)
    | EventTypeWorkflowExecutionFailed (Some a) \<Rightarrow> len (wef_Details a)
    | EventTypeDecisionTaskStarted identity \<Rightarrow> getLengthOfStringPointer identity
    | EventTypeDecisionTaskCompleted (Some a) \<Rightarrow>
        len (dtc_ExecutionContext a) + getLengthOfStringPointer (dtc_Identity a)
        + getLengthOfStringPointer (dtc_BinaryChecksum a)
    | EventTypeDecisionTaskFailed details \<Rightarrow> len details
    | EventTypeActivityTaskScheduled (Some a) \<Rightarrow>
        len (ats_Input a) + sizeOf (getFields (ats_Header a))
    | EventTypeActivityTaskStarted lastFailureDetails \<Rightarrow> len lastFailureDetails
    | EventTypeActivityTaskCompleted (Some a) \<Rightarrow>
        len (atc_Result a) + getLengthOfStringPointer (atc_Identity a)
    | EventTypeActivityTaskFailed (Some a) \<Rightarrow> len (atf_Details a)
    | EventTypeActivityTaskTimedOut (Some a) \<Rightarrow>
        len (att_Details a) + len (att_LastFailureDetails a)
    | EventTypeActivityTaskCanceled (Some a) \<Rightarrow> len (atx_Details a)
    | EventTypeMarkerRecorded (Some a) \<Rightarrow> len (mr_Details a)
    | EventTypeWorkflowExecutionTerminated details \<Rightarrow> len details
    | EventTypeWorkflowExecutionCanceled (Some details) \<Rightarrow> len details
    | EventTypeWorkflowExecutionContinuedAsNew (Some a) \<Rightarrow>
        len (wcn_Input a) + len (wcn_FailureDetails a) + len (wcn_LastCompletionResult a)
        + sizeOf (getFields (wcn_Memo a)) + sizeOf (getFields (wcn_Header a))
        + sizeOf (getFields (wcn_SearchAttributes a))
    | EventTypeStartChildWorkflowExecutionInitiated (Some a) \<Rightarrow>
        len (sci_Input a) + len (sci_Control a)
        + sizeOf (getFields (sci_Memo a)) + sizeOf (getFields (sci_Header a))
        + sizeOf (getFields (sci_SearchAttributes a))
    | EventTypeChildWorkflowExecutionCompleted (Some a) \<Rightarrow> len (cwc_Result a)
    | EventTypeChildWorkflowExecutionFailed (Some a) \<Rightarrow>
        len (cwf_Details a) + getLengthOfStringPointer (cwf_Reason a)
    | EventTypeChildWorkflowExecutionCanceled (Some a) \<Rightarrow> len (cwx_Details a)
    | EventTypeSignalExternalWorkflowExecutionInitiated (Some a) \<Rightarrow>
        len (sei_Control a) + len (sei_Input a)
    | _ \<Rightarrow> 0)"

lemma sizes_nonneg [simp]:
  "0 \<le> len b" "0 \<le> sizeOf f" "0 \<le> getLengthOfStringPointer s"
  by (simp_all add: len_def getLengthOfStringPointer_def split: option.split)
     (induction f rule: sizeOf.induct; simp)

lemma estimateHistorySize_at_least: "historySizeEstimationBuffer \<le> estimateHistorySize event"
  by (simp add: estimateHistorySize_def split: EventType.split option.split)

end
