(* ===== verification/Cadence_Errors.thy ===== *)
theory Cadence_Errors
  imports History_Events Go_Format
begin

text \<open>
  Errors of \<open>src/internal/error.go\<close> and their transport through the service:
  \<open>getErrorDetails\<close> and \<open>constructError\<close> of \<open>src/internal/internal_utils.go\<close>, with
  \<open>EncodedValues\<close> of \<open>src/internal/workflow_testsuite.go\<close>.

  A \<open>DataConverter\<close> is an interface that users implement; it is a record of two
  functions and an argument of every definition that encodes or decodes.  A value of Go's
  \<open>interface{}\<close> is a \<open>goValue\<close>; a value of a type the client knows nothing about is
  its type name and its \<open>%v\<close> rendering.  \<open>FromData\<close> returns the values stored through
  the pointers before it stopped, and its error if it failed.  A panic is an \<open>Inl\<close>.
\<close>

section \<open>Values and data converters\<close>

record localActivityMarkerData =
  la_ActivityID :: string
  la_ActivityType :: string
  la_ErrReason :: string
  la_ErrJSON :: string
  la_ResultJSON :: string
  la_ReplayTime :: int
  la_Attempt :: int
  la_Backoff :: int

datatype goValue =
    GoNil
  | GoString string
  | GoInt int
  | GoBytes nbytes
  | GoStrings "string list"
  | GoTimeoutType timeoutType
  | GoEncodedValues nbytes
  | GoLocalActivityMarkerData localActivityMarkerData
  | GoOpaque string string \<comment> \<open>type and rendering\<close>

datatype goType =
    TString | TInt | TBytes | TStrings | TTimeoutType | TEncodedValues | TLocalActivityMarkerData | TOpaque string

fun typeOf :: "goValue \<Rightarrow> goType option" where
  "typeOf GoNil = None"
| "typeOf (GoString _) = Some TString"
| "typeOf (GoInt _) = Some TInt"
| "typeOf (GoBytes _) = Some TBytes"
| "typeOf (GoStrings _) = Some TStrings"
| "typeOf (GoTimeoutType _) = Some TTimeoutType"
| "typeOf (GoEncodedValues _) = Some TEncodedValues"
| "typeOf (GoLocalActivityMarkerData _) = Some TLocalActivityMarkerData"
| "typeOf (GoOpaque t _) = Some (TOpaque t)"

record DataConverter =
  ToData :: "goValue list \<Rightarrow> string + nbytes"
  FromData :: "nbytes \<Rightarrow> goType list \<Rightarrow> goValue list \<times> string option"

definition encodeArgs :: "DataConverter \<Rightarrow> goValue list \<Rightarrow> string + nbytes" where
  "encodeArgs dc args = ToData dc args"

definition ErrNoData :: string where
  "ErrNoData = ''no data available''"

definition ErrTooManyArg :: string where
  "ErrTooManyArg = ''too many arguments''"

text \<open>\<open>Values\<close>: details given by the program, or received and still encoded.\<close>

datatype Values =
    ErrorDetailsValues "goValue list option"
  | EncodedValues nbytes

definition EncodedValues_HasValues :: "nbytes \<Rightarrow> bool" where
  "EncodedValues_HasValues values = (values \<noteq> None)"

definition EncodedValues_Get ::
  "DataConverter \<Rightarrow> nbytes \<Rightarrow> goType list \<Rightarrow> goValue list \<times> string option" where
  "EncodedValues_Get dc values ts =
     (if EncodedValues_HasValues values then FromData dc values ts else ([], Some ErrNoData))"

definition ErrorDetailsValues_HasValues :: "goValue list option \<Rightarrow> bool" where
  "ErrorDetailsValues_HasValues b = (case b of None \<Rightarrow> False | Some vs \<Rightarrow> vs \<noteq> [])"

text \<open>\<open>reflect\<close> panics when asked for the type of a nil interface value.\<close>

fun assignAll :: "goValue list \<Rightarrow> goType list \<Rightarrow> string + (goValue list \<times> string option)" where
  "assignAll _ [] = Inr ([], None)"
| "assignAll [] (t # ts) = Inl ''index out of range''"
| "assignAll (v # vs) (t # ts) = (case typeOf v of
      None \<Rightarrow> Inl ''reflect: call of reflect.Value.Type on zero Value''
    | Some u \<Rightarrow>
        if u = t then (case assignAll vs ts of
            Inl p \<Rightarrow> Inl p
          | Inr (stored, err) \<Rightarrow> Inr (v # stored, err))
        else Inr ([], Some ''unable to decode argument''))"

definition ErrorDetailsValues_Get ::
  "goValue list option \<Rightarrow> goType list \<Rightarrow> string + (goValue list \<times> string option)" where
  "ErrorDetailsValues_Get b ts =
     (if \<not> ErrorDetailsValues_HasValues b then Inr ([], Some ErrNoData)
      else let vs = (case b of None \<Rightarrow> [] | Some vs \<Rightarrow> vs) in
        if length vs < length ts then Inr ([], Some ErrTooManyArg) else assignAll vs ts)"

definition Values_HasValues :: "Values \<Rightarrow> bool" where
  "Values_HasValues v = (case v of
      ErrorDetailsValues b \<Rightarrow> ErrorDetailsValues_HasValues b
    | EncodedValues b \<Rightarrow> EncodedValues_HasValues b)"

definition Values_Get ::
  "DataConverter \<Rightarrow> Values \<Rightarrow> goType list \<Rightarrow> string + (goValue list \<times> string option)" where
  "Values_Get dc v ts = (case v of
      ErrorDetailsValues b \<Rightarrow> ErrorDetailsValues_Get b ts
    | EncodedValues b \<Rightarrow> Inr (EncodedValues_Get dc b ts))"

section \<open>Error types\<close>

datatype FailureCategory = FailureCategoryPoll | FailureCategoryStandard | FailureCategoryFatal

datatype CustomErrorOption =
    WithFailureCategory FailureCategory
  | WithNextRetryDelay int

datatype detail = DetailValue goValue | DetailOption CustomErrorOption

text \<open>The argument of a recovered panic: a string, or another value's type and rendering.\<close>

datatype recovered = RecoveredString string | RecoveredOther string string

datatype errorStruct = StructCustomError | StructCanceledError | StructPanicError | StructTimeoutError

text \<open>
  \<open>NilError\<close> is a nil pointer of one of the error structs stored in an \<open>error\<close>
  interface value, the case \<open>badNilErrMsgFmt\<close> is about.  \<open>PlainError\<close> stands for errors
  made by \<open>errors.New\<close> and \<open>fmt.Errorf\<close>.
\<close>

datatype goError =
    CustomError string "Values option" "FailureCategory option" int
      \<comment> \<open>\<open>reason\<close>, \<open>details\<close>, \<open>failureCategory\<close>, \<open>nextRetryDelay\<close>\<close>
  | GenericError string
  | TimeoutError timeoutType "Values option"
  | CanceledError "Values option"
  | TerminatedError
  | PanicError recovered string \<comment> \<open>\<open>value\<close>, \<open>stackTrace\<close>\<close>
  | workflowPanicError recovered string
  | NonDeterministicError string string string
      \<comment> \<open>\<open>Reason\<close>, \<open>HistoryEventText\<close>, \<open>DecisionText\<close>\<close>
  | ContinueAsNewError ContinueAsNewWorkflowExecutionDecisionAttributes
      \<comment> \<open>the parameters of the new run\<close>
  | UnknownExternalWorkflowExecutionError
  | WorkflowExecutionAlreadyStartedError string
  | PlainError string
  | NilError errorStruct

definition errReasonPanic :: string where "errReasonPanic = ''cadenceInternal:Panic''"
definition errReasonGeneric :: string where "errReasonGeneric = ''cadenceInternal:Generic''"
definition errReasonCanceled :: string where "errReasonCanceled = ''cadenceInternal:Canceled''"
definition errReasonTimeout :: string where "errReasonTimeout = ''cadenceInternal:Timeout''"
definition reservedPrefix :: string where "reservedPrefix = ''cadenceInternal:''"

lemmas errReason_defs =
  errReasonPanic_def errReasonGeneric_def errReasonCanceled_def errReasonTimeout_def
  reservedPrefix_def

fun applyOptions :: "detail list \<Rightarrow> FailureCategory option \<times> int \<Rightarrow> FailureCategory option \<times> int" where
  "applyOptions [] acc = acc"
| "applyOptions (DetailOption (WithFailureCategory c) # ds) (f, n) = applyOptions ds (Some c, n)"
| "applyOptions (DetailOption (WithNextRetryDelay d) # ds) (f, n) = applyOptions ds (f, d)"
| "applyOptions (DetailValue v # ds) acc = applyOptions ds acc"

fun detailValues :: "detail list \<Rightarrow> goValue list" where
  "detailValues [] = []"
| "detailValues (DetailOption _ # ds) = detailValues ds"
| "detailValues (DetailValue v # ds) = v # detailValues ds"

definition NewCustomError :: "string \<Rightarrow> detail list \<Rightarrow> string + goError" where
  "NewCustomError reason details =
     (if hasPrefix reason reservedPrefix
      then Inl (CHR 0x27 # ''cadenceInternal:'' @ CHR 0x27 #
                '' is reserved prefix, please use different reason'')
      else Inr (case details of
        [DetailValue (GoEncodedValues b)] \<Rightarrow> CustomError reason (Some (EncodedValues b)) None 0
      | [] \<Rightarrow> CustomError reason (Some (ErrorDetailsValues None)) None 0
      | _ \<Rightarrow> (case applyOptions details (None, 0) of (category, delay) \<Rightarrow>
          CustomError reason (Some (ErrorDetailsValues (Some (detailValues details)))) category delay)))"

definition variadic :: "goValue list \<Rightarrow> Values" where
  "variadic details = (case details of
      [GoEncodedValues b] \<Rightarrow> EncodedValues b
    | [] \<Rightarrow> ErrorDetailsValues None
    | _ \<Rightarrow> ErrorDetailsValues (Some details))"

definition NewTimeoutError :: "timeoutType \<Rightarrow> goValue list \<Rightarrow> goError" where
  "NewTimeoutError t details = TimeoutError t (Some (variadic details))"

definition NewHeartbeatTimeoutError :: "goValue list \<Rightarrow> goError" where
  "NewHeartbeatTimeoutError details = NewTimeoutError TimeoutTypeHeartbeat details"

definition NewCanceledError :: "goValue list \<Rightarrow> goError" where
  "NewCanceledError details = CanceledError (Some (variadic details))"

definition IsCanceledError :: "goError \<Rightarrow> bool" where
  "IsCanceledError err = (case err of CanceledError _ \<Rightarrow> True | NilError StructCanceledError \<Rightarrow> True | _ \<Rightarrow> False)"

definition ErrCanceled :: goError where
  "ErrCanceled = NewCanceledError []"

definition newEncodedValues :: "nbytes \<Rightarrow> goValue" where
  "newEncodedValues values = GoEncodedValues values"

section \<open>Rendering\<close>

definition TimeoutType_String :: "timeoutType \<Rightarrow> string" where
  "TimeoutType_String v =
     (if v = TimeoutTypeStartToClose then ''START_TO_CLOSE''
      else if v = TimeoutTypeScheduleToStart then ''SCHEDULE_TO_START''
      else if v = TimeoutTypeScheduleToClose then ''SCHEDULE_TO_CLOSE''
      else if v = TimeoutTypeHeartbeat then ''HEARTBEAT''
      else ''TimeoutType('' @ show_int (sint v) @ '')'')"

definition TimeoutType_UnmarshalText :: "string \<Rightarrow> timeoutType option" where
  "TimeoutType_UnmarshalText s =
     (if s = ''START_TO_CLOSE'' then Some TimeoutTypeStartToClose
      else if s = ''SCHEDULE_TO_START'' then Some TimeoutTypeScheduleToStart
      else if s = ''SCHEDULE_TO_CLOSE'' then Some TimeoutTypeScheduleToClose
      else if s = ''HEARTBEAT'' then Some TimeoutTypeHeartbeat
      else map_option word_of_int (parseInt 32 s))"

fun recovered_String :: "recovered \<Rightarrow> string" where
  "recovered_String (RecoveredString s) = s"
| "recovered_String (RecoveredOther _ text) = text"

definition NonDeterministicError_Error :: "string \<Rightarrow> string \<Rightarrow> string \<Rightarrow> string" where
  "NonDeterministicError_Error reason history decision =
     (if reason = ''missing replay decision'' then
        ''nondeterministic workflow: missing replay decision for '' @ history
      else if reason = ''extra replay decision'' then
        ''nondeterministic workflow: extra replay decision for '' @ decision
      else if reason = ''mismatch'' then
        ''nondeterministic workflow: history event is '' @ history @
        '', replay decision is '' @ decision
      else ''unknown reason '' @ quote reason @ '', history event is: '' @ history @
           '', replay decision is: '' @ decision)"

text \<open>A method call on a nil pointer panics when it reads a field.\<close>

fun goError_Error :: "goError \<Rightarrow> string + string" where
  "goError_Error (CustomError reason _ _ _) = Inr reason"
| "goError_Error (GenericError err) = Inr err"
| "goError_Error (TimeoutError t _) = Inr (''TimeoutType: '' @ TimeoutType_String t)"
| "goError_Error (CanceledError _) = Inr ''CanceledError''"
| "goError_Error TerminatedError = Inr ''Terminated''"
| "goError_Error (PanicError v _) = Inr (recovered_String v)"
| "goError_Error (workflowPanicError v _) = Inr (recovered_String v)"
| "goError_Error (NonDeterministicError reason history decision) =
     Inr (NonDeterministicError_Error reason history decision)"
| "goError_Error (ContinueAsNewError _) = Inr ''ContinueAsNew''"
| "goError_Error UnknownExternalWorkflowExecutionError = Inr ''UnknownExternalWorkflowExecution''"
| "goError_Error (WorkflowExecutionAlreadyStartedError m) =
     Inr (''WorkflowExecutionAlreadyStartedError{Message: '' @ m @ ''}'')"
| "goError_Error (PlainError s) = Inr s"
| "goError_Error (NilError StructCanceledError) = Inr ''CanceledError''"
| "goError_Error (NilError _) = Inl ''invalid memory address or nil pointer dereference''"

text \<open>The accessors the three errors with details share.\<close>

definition HasDetails :: "Values option \<Rightarrow> bool" where
  "HasDetails details = (case details of None \<Rightarrow> False | Some v \<Rightarrow> Values_HasValues v)"

definition Details ::
  "DataConverter \<Rightarrow> Values option \<Rightarrow> goType list \<Rightarrow> string + (goValue list \<times> string option)" where
  "Details dc details d = (case details of
      None \<Rightarrow> Inr ([], Some ErrNoData)
    | Some v \<Rightarrow> if HasDetails details then Values_Get dc v d else Inr ([], Some ErrNoData))"

definition GetFailureCategory :: "FailureCategory option \<Rightarrow> FailureCategory" where
  "GetFailureCategory failureCategory = (case failureCategory of
      None \<Rightarrow> FailureCategoryStandard
    | Some c \<Rightarrow> c)"

fun errorStruct_String :: "errorStruct \<Rightarrow> string" where
  "errorStruct_String StructCustomError = ''*internal.CustomError''"
| "errorStruct_String StructCanceledError = ''*internal.CanceledError''"
| "errorStruct_String StructPanicError = ''*internal.PanicError''"
| "errorStruct_String StructTimeoutError = ''*internal.TimeoutError''"

definition badNilErrMsg :: "errorStruct \<Rightarrow> string" where
  "badNilErrMsg e =
     ''cadence received an invalid nil `'' @ errorStruct_String e @
     ''`. this likely means you have a typed nil which is being converted into an `error` value: '' @
     ''https://go.dev/doc/faq#nil_error''"

section \<open>Transport through the service\<close>

definition encodeDetails :: "DataConverter \<Rightarrow> Values option \<Rightarrow> string + nbytes" where
  "encodeDetails dc details = (case details of
      None \<Rightarrow> Inl ''unknown error type''
    | Some (ErrorDetailsValues vs) \<Rightarrow> encodeArgs dc (case vs of None \<Rightarrow> [] | Some l \<Rightarrow> l)
    | Some (EncodedValues b) \<Rightarrow> Inr b)"

definition withReason :: "string \<Rightarrow> string + nbytes \<Rightarrow> string + (string \<times> nbytes)" where
  "withReason reason data = (case data of Inl p \<Rightarrow> Inl p | Inr b \<Rightarrow> Inr (reason, b))"

definition getErrorDetails :: "goError \<Rightarrow> DataConverter \<Rightarrow> string + (string \<times> nbytes)" where
  "getErrorDetails err dc = (case err of
      CustomError reason details _ _ \<Rightarrow> withReason reason (encodeDetails dc details)
    | CanceledError details \<Rightarrow> withReason errReasonCanceled (encodeDetails dc details)
    | PanicError v st \<Rightarrow>
        withReason errReasonPanic (encodeArgs dc [GoString (recovered_String v), GoString st])
    | TimeoutError t details \<Rightarrow>
        withReason (errReasonTimeout @ '' '' @ TimeoutType_String t) (encodeDetails dc details)
    | NilError e \<Rightarrow> Inr (errReasonGeneric, Some (badNilErrMsg e))
    | _ \<Rightarrow> (case goError_Error err of
          Inl p \<Rightarrow> Inl p
        | Inr text \<Rightarrow> Inr (errReasonGeneric, Some text)))"

definition getTimeoutTypeFromErrReason :: "string \<Rightarrow> timeoutType option" where
  "getTimeoutTypeFromErrReason reason =
     TimeoutType_UnmarshalText (drop (nat (indexByte reason CHR '' '' + 1)) reason)"

definition nth_string :: "goValue list \<Rightarrow> nat \<Rightarrow> string" where
  "nth_string vs i =
     (if i < length vs then (case vs ! i of GoString s \<Rightarrow> s | _ \<Rightarrow> []) else [])"

definition constructError :: "string \<Rightarrow> nbytes \<Rightarrow> DataConverter \<Rightarrow> string + goError" where
  "constructError reason details dc =
     (if hasPrefix reason errReasonTimeout then
        (case getTimeoutTypeFromErrReason reason of
           Some t \<Rightarrow> Inr (NewTimeoutError t [newEncodedValues details])
         | None \<Rightarrow> (case EncodedValues_Get dc details [TTimeoutType] of
             (_, Some err) \<Rightarrow> Inl err
           | ([GoTimeoutType t], None) \<Rightarrow> Inr (NewTimeoutError t [])
           | (_, None) \<Rightarrow> Inr (NewTimeoutError 0 [])))
      else if reason = errReasonPanic then
        (case EncodedValues_Get dc details [TString, TString] of
           (vs, _) \<Rightarrow> Inr (PanicError (RecoveredString (nth_string vs 0)) (nth_string vs 1)))
      else if reason = errReasonGeneric then
        Inr (GenericError (case details of None \<Rightarrow> [] | Some b \<Rightarrow> b))
      else if reason = errReasonCanceled then
        Inr (NewCanceledError [newEncodedValues details])
      else NewCustomError reason [DetailValue (newEncodedValues details)])"

subsection \<open>Timeout types\<close>

definition knownTimeoutType :: "timeoutType \<Rightarrow> bool" where
  "knownTimeoutType t \<longleftrightarrow> t \<in> {0, 1, 2, 3}"

lemma UnmarshalText_String [simp]:
  "knownTimeoutType t \<Longrightarrow> TimeoutType_UnmarshalText (TimeoutType_String t) = Some t"
  by (auto simp: knownTimeoutType_def TimeoutType_UnmarshalText_def TimeoutType_String_def
        timeoutType_defs)

lemma getTimeoutTypeFromErrReason_reason:
  "getTimeoutTypeFromErrReason (errReasonTimeout @ '' '' @ s) = TimeoutType_UnmarshalText s"
proof -
  have "indexByte (errReasonTimeout @ CHR '' '' # s) CHR '' '' = int (length errReasonTimeout)"
    by (rule indexByte_append) (simp add: errReason_defs)
  then show ?thesis
    by (simp add: getTimeoutTypeFromErrReason_def nat_add_distrib)
qed

lemma UnmarshalText_unknown:
  assumes "\<not> knownTimeoutType t"
  shows "TimeoutType_UnmarshalText (TimeoutType_String t) = None"
proof -
  have s: "TimeoutType_String t = ''TimeoutType('' @ show_int (sint t) @ '')''"
    using assms by (simp add: TimeoutType_String_def knownTimeoutType_def timeoutType_defs)
  have "digitVal CHR ''T'' = None" by (simp add: digitVal_def)
  then show ?thesis
    unfolding s TimeoutType_UnmarshalText_def by (simp add: parseInt_def parseMagnitude_def)
qed

subsection \<open>Round trip\<close>

text \<open>
  What a receiver sees of an error: the constructor, the reason, the timeout type and the
  details as encoded by the sender.  Errors that are neither custom, cancellation, timeout
  nor panic errors arrive as \<open>GenericError\<close> with their text.
\<close>

definition sendable :: "DataConverter \<Rightarrow> goError \<Rightarrow> bool" where
  "sendable dc err = (case err of
      CustomError reason details _ _ \<Rightarrow>
        \<not> hasPrefix reason reservedPrefix \<and> (\<exists>b. encodeDetails dc details = Inr b)
    | CanceledError details \<Rightarrow> (\<exists>b. encodeDetails dc details = Inr b)
    | TimeoutError t details \<Rightarrow> knownTimeoutType t \<and> (\<exists>b. encodeDetails dc details = Inr b)
    | PanicError v st \<Rightarrow> (\<exists>b. encodeArgs dc [GoString (recovered_String v), GoString st] = Inr b)
    | _ \<Rightarrow> True)"

definition received :: "DataConverter \<Rightarrow> goError \<Rightarrow> goError" where
  "received dc err = (case err of
      CustomError reason details _ _ \<Rightarrow>
        CustomError reason (Some (EncodedValues (projr (encodeDetails dc details)))) None 0
    | CanceledError details \<Rightarrow> CanceledError (Some (EncodedValues (projr (encodeDetails dc details))))
    | TimeoutError t details \<Rightarrow>
        TimeoutError t (Some (EncodedValues (projr (encodeDetails dc details))))
    | PanicError v st \<Rightarrow> PanicError (RecoveredString (recovered_String v)) st
    | NilError e \<Rightarrow> GenericError (badNilErrMsg e)
    | _ \<Rightarrow> GenericError (projr (goError_Error err)))"

lemma hasPrefix_reason [simp]:
  "hasPrefix (errReasonTimeout @ s) errReasonTimeout"
  "\<not> hasPrefix errReasonPanic errReasonTimeout"
  "\<not> hasPrefix errReasonGeneric errReasonTimeout"
  "\<not> hasPrefix errReasonCanceled errReasonTimeout"
  by (simp, simp_all add: errReason_defs)

lemma errReason_distinct [simp]:
  "errReasonPanic \<noteq> errReasonGeneric" "errReasonPanic \<noteq> errReasonCanceled"
  "errReasonGeneric \<noteq> errReasonPanic" "errReasonGeneric \<noteq> errReasonCanceled"
  "errReasonCanceled \<noteq> errReasonPanic" "errReasonCanceled \<noteq> errReasonGeneric"
  by (simp_all add: errReason_defs)

lemma unreserved:
  assumes "\<not> hasPrefix reason reservedPrefix"
  shows "\<not> hasPrefix reason errReasonTimeout" "reason \<noteq> errReasonPanic"
    "reason \<noteq> errReasonGeneric" "reason \<noteq> errReasonCanceled"
proof -
  have *: "hasPrefix (reservedPrefix @ s) reservedPrefix" for s by simp
  have eqs: "errReasonTimeout = reservedPrefix @ ''Timeout''" "errReasonPanic = reservedPrefix @ ''Panic''"
    "errReasonGeneric = reservedPrefix @ ''Generic''" "errReasonCanceled = reservedPrefix @ ''Canceled''"
    by (simp_all add: errReason_defs)
  show "reason \<noteq> errReasonPanic" "reason \<noteq> errReasonGeneric" "reason \<noteq> errReasonCanceled"
    using assms * by (auto simp: eqs simp del: hasPrefix_append)
  show "\<not> hasPrefix reason errReasonTimeout"
    using assms by (auto simp: eqs hasPrefix_iff)
qed

lemma NewCustomError_encoded:
  "\<not> hasPrefix reason reservedPrefix \<Longrightarrow>
   NewCustomError reason [DetailValue (newEncodedValues b)] =
     Inr (CustomError reason (Some (EncodedValues b)) None 0)"
  by (simp add: NewCustomError_def newEncodedValues_def)

section \<open>Properties\<close>

text \<open>
  A data converter that carries two strings, used to show the hypotheses below can hold:
  the length of the first string in unary, then both strings.
\<close>

definition pairConverter :: DataConverter where
  "pairConverter = \<lparr>
     ToData = (\<lambda>vs. case vs of
         [GoString a, GoString b] \<Rightarrow> Inr (Some (replicate (length a) CHR ''1'' @ CHR ''0'' # a @ b))
       | _ \<Rightarrow> Inr (Some [])),
     FromData = (\<lambda>data ts. case data of
         None \<Rightarrow> ([], Some ''no data'')
       | Some s \<Rightarrow> if ts = [TString, TString] then
           let n = length (takeWhile (\<lambda>c. c = CHR ''1'') s); rest = drop (Suc n) s
           in ([GoString (take n rest), GoString (drop n rest)], None)
         else ([], Some ''unsupported''))\<rparr>"

definition carries_strings :: "DataConverter \<Rightarrow> bool" where
  "carries_strings dc \<longleftrightarrow>
     (\<forall>a b data. ToData dc [GoString a, GoString b] = Inr data \<longrightarrow>
        data \<noteq> None \<and> FromData dc data [TString, TString] = ([GoString a, GoString b], None))"

lemma pairConverter_carries_strings: "carries_strings pairConverter"
proof -
  have "takeWhile (\<lambda>c. c = CHR ''1'') (replicate n CHR ''1'' @ CHR ''0'' # s) = replicate n CHR ''1''"
    for n s by (induction n) auto
  then show ?thesis
    by (auto simp: carries_strings_def pairConverter_def Let_def)
qed

lemma constructError_simps:
  "constructError errReasonGeneric (Some text) dc = Inr (GenericError text)"
  "constructError errReasonCanceled b dc = Inr (CanceledError (Some (EncodedValues b)))"
  "\<not> hasPrefix reason reservedPrefix \<Longrightarrow>
   constructError reason b dc = Inr (CustomError reason (Some (EncodedValues b)) None 0)"
  "knownTimeoutType t \<Longrightarrow> constructError (errReasonTimeout @ '' '' @ TimeoutType_String t) b dc =
     Inr (TimeoutError t (Some (EncodedValues b)))"
  by (simp add: constructError_def,
      simp add: constructError_def NewCanceledError_def variadic_def newEncodedValues_def,
      simp add: constructError_def unreserved NewCustomError_encoded,
      simp only: constructError_def hasPrefix_reason getTimeoutTypeFromErrReason_reason
        UnmarshalText_String if_True option.case NewTimeoutError_def variadic_def
        newEncodedValues_def list.case goValue.case)

lemma constructError_panic:
  assumes "carries_strings dc" and "ToData dc [GoString a, GoString b] = Inr data"
  shows "constructError errReasonPanic data dc = Inr (PanicError (RecoveredString a) b)"
  using assms by (auto simp: constructError_def carries_strings_def EncodedValues_Get_def
      EncodedValues_HasValues_def nth_string_def)

text \<open>
  (C10) What the receiver makes of an error.  The sender's error must be \<open>sendable\<close> (its details
  can be encoded, a custom reason does not start with the reserved prefix, and a timeout has a
  known type), and the converter must give back the two strings of a panic.  Then
  \<open>getErrorDetails\<close> produces a reason and details, and \<open>constructError\<close> turns them into the error
  \<open>received\<close>: a custom error keeps its reason and encoded details, but not its failure category
  and retry delay; a cancellation keeps its encoded details, a timeout its type and encoded
  details, a panic its message as text and its stack trace; every other error becomes a
  \<open>GenericError\<close> with its text.
\<close>

theorem error_round_trip:
  assumes "sendable dc err" and "carries_strings dc"
  shows "\<exists>reason details. getErrorDetails err dc = Inr (reason, details)
           \<and> constructError reason details dc = Inr (received dc err)"
proof (cases err)
  case (PanicError v st)
  with assms show ?thesis
    by (auto simp: sendable_def getErrorDetails_def withReason_def received_def encodeArgs_def
        constructError_panic)
qed (use assms(1) in \<open>auto simp: sendable_def getErrorDetails_def withReason_def received_def
      constructError_simps simp del: append.simps append_assoc\<close>)

theorem error_round_trip_witness:
  "\<exists>reason details.
     getErrorDetails (PanicError (RecoveredString ''boom'') ''main.go:1'') pairConverter = Inr (reason, details)
     \<and> constructError reason details pairConverter = Inr (PanicError (RecoveredString ''boom'') ''main.go:1'')"
  using error_round_trip [of pairConverter "PanicError (RecoveredString ''boom'') ''main.go:1''",
      OF _ pairConverter_carries_strings]
  by (simp add: sendable_def received_def encodeArgs_def pairConverter_def)

text \<open>
  (C11) \<open>constructError\<close> panics in exactly two situations: the reason is a timeout whose
  type is not readable and whose details do not decode to a timeout type, or the reason
  carries the reserved prefix without being one of the four internal reasons.
\<close>

theorem constructError_panics_iff:
  "(\<exists>p. constructError reason details dc = Inl p) \<longleftrightarrow>
     (if hasPrefix reason errReasonTimeout
      then getTimeoutTypeFromErrReason reason = None
           \<and> snd (EncodedValues_Get dc details [TTimeoutType]) \<noteq> None
      else hasPrefix reason reservedPrefix
           \<and> reason \<notin> {errReasonPanic, errReasonGeneric, errReasonCanceled})"
proof -
  have timeout: "(\<exists>p. (case EncodedValues_Get dc details [TTimeoutType] of
             (_, Some err) \<Rightarrow> Inl err
           | ([GoTimeoutType t], None) \<Rightarrow> Inr (NewTimeoutError t [])
           | (_, None) \<Rightarrow> Inr (NewTimeoutError 0 [])) = Inl p) \<longleftrightarrow>
      snd (EncodedValues_Get dc details [TTimeoutType]) \<noteq> None"
    by (auto split: prod.splits option.splits list.splits goValue.splits)
  show ?thesis
    using timeout
    by (auto simp: constructError_def NewCustomError_def split: option.splits prod.splits)
qed

end
