(* ===== verification/Go_Time.thy ===== *)
theory Go_Time
  imports Complex_Main "HOL-Library.Log_Nat"
begin

text \<open>
  \<open>time.Duration\<close> in nanoseconds and its conversion to seconds.  \<open>Seconds()\<close> works in
  \<open>float64\<close>: the whole seconds plus the nanosecond part divided by \<open>10^9\<close>, each
  operation rounded to a 53-bit mantissa, half to even.  A \<open>float64\<close> is the rational it
  denotes; the values here are far from overflow and underflow.
\<close>

definition Second :: int where
  "Second = 10 ^ 9"

definition roundHalfEven :: "rat \<Rightarrow> int" where
  "roundHalfEven x = (let q = \<lfloor>x\<rfloor>; r = x - of_int q in
     if r < 1/2 then q else if r > 1/2 then q + 1 else if even q then q else q + 1)"

definition binaryExponent :: "rat \<Rightarrow> int" where
  "binaryExponent x = (case quotient_of x of (a, b) \<Rightarrow>
     let k = int (floorlog 2 (nat a)) - int (floorlog 2 (nat b))
     in if 2 powi k \<le> x then k else k - 1)"

definition float64 :: "rat \<Rightarrow> rat" where
  "float64 x = (if x = 0 then 0 else
     let ulp = 2 powi (binaryExponent x - 52) in of_int (roundHalfEven (x / ulp)) * ulp)"

definition Duration_Seconds :: "int \<Rightarrow> rat" where
  "Duration_Seconds d = (let n = \<bar>d\<bar>;
       v = float64 (of_int (n div Second) + float64 (of_int (n mod Second) / of_int Second))
     in if d < 0 then - v else v)"

definition Int64Ceil :: "rat \<Rightarrow> int" where
  "Int64Ceil v = \<lceil>v\<rceil>"

lemma binaryExponent_le:
  assumes "0 < x"
  shows "2 powi binaryExponent x \<le> x"
proof -
  obtain a b where q: "quotient_of x = (a, b)" by fastforce
  have b: "0 < b" and x: "x = of_int a / of_int b"
    using quotient_of_denom_pos [OF q] quotient_of_div [OF q] by simp_all
  with assms have a: "0 < a" by (simp add: zero_less_divide_iff)
  define k where "k = int (floorlog 2 (nat a)) - int (floorlog 2 (nat b))"
  have la: "2 ^ (floorlog 2 (nat a) - 1) \<le> nat a" and lpos: "0 < floorlog 2 (nat a)"
    using floorlog_bounds [of "nat a" 2] a floorlog_eq_zero_iff [of 2 "nat a"] by auto
  have lb: "nat b < 2 ^ floorlog 2 (nat b)" using floorlog_bounds [of "nat b" 2] b by simp
  have "rat_of_int (2 ^ (floorlog 2 (nat a) - 1)) \<le> rat_of_int a"
    using la a by (simp only: of_int_le_iff) (simp add: le_nat_iff)
  moreover have "rat_of_int b \<le> rat_of_int (2 ^ floorlog 2 (nat b))"
    using lb b by (simp only: of_int_le_iff) (simp add: nat_less_iff)
  ultimately have "rat_of_int (2 ^ (floorlog 2 (nat a) - 1)) / rat_of_int (2 ^ floorlog 2 (nat b)) \<le> x"
    unfolding x using a b by (intro frac_le) auto
  moreover have "(2 :: rat) powi (k - 1) = rat_of_int (2 ^ (floorlog 2 (nat a) - 1)) / rat_of_int (2 ^ floorlog 2 (nat b))"
  proof -
    have "k - 1 = int (floorlog 2 (nat a) - 1) - int (floorlog 2 (nat b))"
      using lpos by (simp add: k_def of_nat_diff)
    then show ?thesis by (simp add: power_int_diff)
  qed
  ultimately have "2 powi (k - 1) \<le> x" by simp
  then show ?thesis by (simp add: binaryExponent_def q k_def Let_def)
qed

lemma roundHalfEven_ge: "of_int n \<le> x \<Longrightarrow> n \<le> roundHalfEven x"
proof -
  assume "of_int n \<le> x"
  then have "n \<le> \<lfloor>x\<rfloor>" by (simp add: le_floor_iff)
  then show "n \<le> roundHalfEven x" by (simp add: roundHalfEven_def Let_def)
qed

lemma float64_pos:
  assumes "0 < x"
  shows "0 < float64 x"
proof -
  define ulp :: rat where "ulp = 2 powi (binaryExponent x - 52)"
  have ulp: "0 < ulp" by (simp add: ulp_def)
  have "2 powi binaryExponent x = ulp * 2 ^ 52"
    by (simp add: ulp_def power_int_diff)
  with binaryExponent_le [OF assms] have "ulp * 2 ^ 52 \<le> x" by simp
  then have "rat_of_int (2 ^ 52) \<le> x / ulp" using ulp by (simp add: pos_le_divide_eq mult.commute)
  then have "2 ^ 52 \<le> roundHalfEven (x / ulp)" by (rule roundHalfEven_ge)
  then have "0 < roundHalfEven (x / ulp)" by (rule order_less_le_trans [rotated]) simp
  then show ?thesis using assms ulp by (simp add: float64_def Let_def ulp_def)
qed

lemma float64_nonneg: "0 \<le> x \<Longrightarrow> 0 \<le> float64 x"
  using float64_pos [of x] by (cases "x = 0") (auto simp: float64_def)

lemma roundHalfEven_near: "\<bar>of_int (roundHalfEven x) - x\<bar> \<le> 1 / 2"
proof -
  have "of_int \<lfloor>x\<rfloor> \<le> x" "x < of_int \<lfloor>x\<rfloor> + 1" by linarith+
  then show ?thesis by (auto simp: roundHalfEven_def Let_def abs_le_iff)
qed

lemma roundHalfEven_of_int [simp]: "roundHalfEven (of_int n) = n"
  by (simp add: roundHalfEven_def Let_def)

lemma float64_near:
  assumes "0 < x"
  shows "\<bar>float64 x - x\<bar> \<le> x / 2 ^ 53"
proof -
  define ulp :: rat where "ulp = 2 powi (binaryExponent x - 52)"
  have ulp: "0 < ulp" by (simp add: ulp_def)
  have "2 powi binaryExponent x = ulp * 2 ^ 52" by (simp add: ulp_def power_int_diff)
  with binaryExponent_le [OF assms] have small: "ulp * 2 ^ 52 \<le> x" by simp
  have "\<bar>of_int (roundHalfEven (x / ulp)) * ulp - x\<bar> = \<bar>of_int (roundHalfEven (x / ulp)) - x / ulp\<bar> * ulp"
    (is "?l = ?r")
  proof -
    have "?r = \<bar>(of_int (roundHalfEven (x / ulp)) - x / ulp) * ulp\<bar>" using ulp by (simp add: abs_mult)
    also have "(of_int (roundHalfEven (x / ulp)) - x / ulp) * ulp = of_int (roundHalfEven (x / ulp)) * ulp - x"
      using ulp by (simp add: left_diff_distrib)
    finally show ?thesis by simp
  qed
  also have "\<dots> \<le> 1 / 2 * ulp" using ulp by (intro mult_right_mono roundHalfEven_near) simp
  also have "\<dots> \<le> x / 2 ^ 53" using small by simp
  finally show ?thesis using assms by (simp add: float64_def Let_def ulp_def)
qed

lemma float64_0 [simp]: "float64 0 = 0"
  by (simp add: float64_def)

lemma float64_between:
  assumes "0 \<le> x"
  shows float64_lower: "x * (1 - 1 / 2 ^ 53) \<le> float64 x"
    and float64_upper: "float64 x \<le> x * (1 + 1 / 2 ^ 53)"
proof -
  have "\<bar>float64 x - x\<bar> \<le> x / 2 ^ 53" using assms float64_near [of x] by (cases "x = 0") auto
  then have "x - x / 2 ^ 53 \<le> float64 x" "float64 x \<le> x + x / 2 ^ 53" by linarith+
  then show "x * (1 - 1 / 2 ^ 53) \<le> float64 x" "float64 x \<le> x * (1 + 1 / 2 ^ 53)"
    by (simp_all only: right_diff_distrib distrib_left mult_1_right times_divide_eq_right)
qed

lemma float64_of_int:
  assumes "0 \<le> n" "n < 2 ^ 53"
  shows "float64 (of_int n) = of_int n"
proof (cases "n = 0")
  case False
  with assms have pos: "0 < rat_of_int n" by simp
  define e where "e = binaryExponent (of_int n)"
  have "2 powi e \<le> rat_of_int n" unfolding e_def by (rule binaryExponent_le [OF pos])
  also have "\<dots> < rat_of_int (2 ^ 53)" using assms by (simp only: of_int_less_iff)
  also have "\<dots> = 2 powi 53" by simp
  finally have "(2 :: rat) powi e < 2 powi 53" .
  then have e: "e \<le> 52" using power_int_increasing [of 53 e "2 :: rat"] by (cases "e \<le> 52") auto
  have "rat_of_int n / 2 powi (e - 52) = of_int n * 2 powi (52 - e)"
    by (simp add: power_int_minus [symmetric] divide_inverse flip: power_int_minus)
  also have "2 powi (52 - e) = rat_of_int (2 ^ nat (52 - e))"
    using e by (simp add: power_int_def)
  finally have "rat_of_int n / 2 powi (e - 52) = of_int (n * 2 ^ nat (52 - e))" by simp
  then have "of_int (roundHalfEven (rat_of_int n / 2 powi (e - 52))) = rat_of_int n / 2 powi (e - 52)"
    by (simp only: roundHalfEven_of_int)
  then show ?thesis using False by (simp add: float64_def Let_def flip: e_def)
qed (simp add: float64_def)

lemma Duration_Seconds_whole:
  assumes "0 \<le> n" "n < 2 ^ 53"
  shows "Duration_Seconds (n * Second) = of_int n"
  using assms by (simp add: Duration_Seconds_def Let_def Second_def float64_of_int abs_mult)

lemma Duration_Seconds_0 [simp]: "Duration_Seconds 0 = 0"
  by (simp add: Duration_Seconds_def float64_def)

lemma seconds_sum_pos:
  assumes "0 < n"
  shows "0 < float64 (of_int (n div Second) + float64 (of_int (n mod Second) / of_int Second))"
proof (rule float64_pos)
  have S: "0 < Second" by (simp add: Second_def)
  have sec: "0 \<le> rat_of_int (n div Second)" using assms S by (simp add: pos_imp_zdiv_nonneg_iff)
  have frac: "0 \<le> rat_of_int (n mod Second) / of_int Second" using S by simp
  show "0 < rat_of_int (n div Second) + float64 (rat_of_int (n mod Second) / rat_of_int Second)"
  proof (cases "n mod Second = 0")
    case True
    with assms S have "0 < n div Second"
      by (metis add.right_neutral div_mult_mod_eq mult_not_zero pos_imp_zdiv_nonneg_iff order_less_le)
    then show ?thesis using float64_nonneg [OF frac] by (simp add: add_pos_nonneg)
  next
    case False
    with S have "0 < n mod Second" by (simp add: order_less_le)
    with S have "0 < rat_of_int (n mod Second) / of_int Second" by simp
    from float64_pos [OF this] sec show ?thesis by (rule add_nonneg_pos [rotated])
  qed
qed

lemma Duration_Seconds_pos: "0 < d \<Longrightarrow> 0 < Duration_Seconds d"
  using seconds_sum_pos [of d] by (simp add: Duration_Seconds_def Let_def)

lemma Duration_Seconds_neg: "d < 0 \<Longrightarrow> Duration_Seconds d < 0"
  using seconds_sum_pos [of "- d"] by (simp add: Duration_Seconds_def Let_def)

lemma Int64Ceil_Seconds_pos: "0 < d \<Longrightarrow> 1 \<le> Int64Ceil (Duration_Seconds d)"
  using Duration_Seconds_pos [of d] by (simp add: Int64Ceil_def)

lemma Int64Ceil_Seconds_nonpos: "d \<le> 0 \<Longrightarrow> Int64Ceil (Duration_Seconds d) \<le> 0"
  using Duration_Seconds_neg [of d] by (cases "d = 0") (simp_all add: Int64Ceil_def)

end
