(* ===== verification/Workflow_Environment.thy ===== *)
theory Workflow_Environment
  imports Cadence_Errors Decisions_Helper Go_Time "HOL-Library.AList"
begin

text \<open>
  The workflow environment, \<open>workflowEnvironmentImpl\<close> of
  \<open>src/internal/internal_event_handlers.go\<close>: what workflow code can ask for (activities,
  timers, child workflows, signals, side effects, versions, search attributes), each
  turned into decisions on the decisions helper.

  A callback given by workflow code is a handle, and calling it appends to the trace
  \<open>env_calls\<close>; so does calling the registered handlers and \<open>completeHandler\<close>.  Maps that
  the code iterates over are entry lists, in some order, as Go fixes none.  Logging and
  metrics are left out.  \<open>json.Marshal\<close> on a user's value is the argument \<open>marshal\<close>.
\<close>

section \<open>State\<close>

record RetryPolicy =
  rp_InitialInterval :: int
  rp_BackoffCoefficient :: rat
  rp_MaximumInterval :: int
  rp_ExpirationInterval :: int
  rp_MaximumAttempts :: int
  rp_NonRetriableErrorReasons :: "string list"

record executeLocalActivityParams =
  lap_ActivityType :: string
  lap_RetryPolicy :: "RetryPolicy option"
  lap_Attempt :: int
  lap_ScheduledTime :: int
  lap_Header :: "fields option"

record localActivityTask =
  lat_activityID :: string
  lat_params :: executeLocalActivityParams
  lat_callback :: callback
  lat_canceled :: bool
  lat_attempt :: int
  lat_retryPolicy :: "RetryPolicy option"
  lat_expireTime :: "int option" \<comment> \<open>\<open>None\<close> is the zero time\<close>
  lat_header :: "fields option"

record localActivityResultWrapper =
  lar_err :: "goError option"
  lar_result :: nbytes
  lar_attempt :: int
  lar_backoff :: int

record SessionInfo =
  si_SessionID :: string
  si_HostName :: string

record WorkflowInfo =
  wi_WorkflowType :: string
  wi_ID :: string
  wi_RunID :: string
  wi_OriginalRunId :: string
  wi_TaskListName :: string
  wi_SearchAttributes :: "fields option"
  wi_DecisionStartedEventID :: int
  wi_TotalHistoryBytes :: i64
  wi_ExecutionStartToCloseTimeoutSeconds :: int
  wi_TaskStartToCloseTimeoutSeconds :: int
  wi_Domain :: string
  wi_Attempt :: int
  wi_lastCompletionResult :: nbytes
  wi_CronSchedule :: "string option"
  wi_ContinuedExecutionRunID :: "string option"
  wi_ParentWorkflowDomain :: "string option"
  wi_ParentWorkflowExecution :: "(string \<times> string) option" \<comment> \<open>\<open>ID\<close>, \<open>RunID\<close>\<close>
  wi_Memo :: "fields option"
  wi_RetryPolicy :: "ThriftRetryPolicy option"
  wi_BinaryChecksum :: "string option"
  wi_HistoryBytesServer :: int
  wi_HistoryCount :: int

datatype envCall =
    ResultCall callback nbytes "goError option"
  | StartedCall callback string string "goError option" \<comment> \<open>workflow ID and run ID\<close>
  | LocalActivityCall callback localActivityResultWrapper
  | CancelHandlerCall callback
  | SignalHandlerCall callback string nbytes
  | CompleteHandlerCall nbytes "goError option"

record workflowEnv =
  env_workflowInfo :: WorkflowInfo
  env_decisionsHelper :: decisionsHelper
  env_sideEffectResult :: "i32 \<rightharpoonup> nbytes"
  env_changeVersions :: "(string \<times> int) list"
  env_pendingLaTasks :: "(string \<times> localActivityTask) list"
  env_mutableSideEffect :: "string \<rightharpoonup> nbytes"
  env_unstartedLaTasks :: "string list"
  env_openSessions :: "(string \<times> SessionInfo) list"
  env_counterID :: i32
  env_currentReplayTime :: int
  env_currentLocalTime :: int
  env_cancelHandler :: "callback option"
  env_signalHandler :: "callback option"
  env_isReplay :: bool
  env_dataConverter :: DataConverter
  env_definitionSet :: bool \<comment> \<open>\<open>workflowDefinition != nil\<close>\<close>
  env_calls :: "envCall list"

type_synonym 'a ego = "(workflowEnv, panicValue, 'a) go"

definition zeroTime :: int where
  "zeroTime = - 62135596800 * Second"

definition newWorkflowExecutionEventHandler :: "WorkflowInfo \<Rightarrow> DataConverter \<Rightarrow> workflowEnv" where
  "newWorkflowExecutionEventHandler info dc = \<lparr>
     env_workflowInfo = info, env_decisionsHelper = newDecisionsHelper,
     env_sideEffectResult = Map.empty, env_changeVersions = [], env_pendingLaTasks = [],
     env_mutableSideEffect = Map.empty, env_unstartedLaTasks = [], env_openSessions = [],
     env_counterID = 0, env_currentReplayTime = zeroTime, env_currentLocalTime = zeroTime,
     env_cancelHandler = None, env_signalHandler = None, env_isReplay = False,
     env_dataConverter = dc, env_definitionSet = False, env_calls = []\<rparr>"

section \<open>Calling the decisions helper and the callbacks\<close>

definition lift :: "'a dgo \<Rightarrow> 'a ego" where
  "lift m w = (case m (env_decisionsHelper w) of (r, h) \<Rightarrow> (r, w\<lparr>env_decisionsHelper := h\<rparr>))"

definition called :: "envCall \<Rightarrow> unit ego" where
  "called c = go_modify (\<lambda>w. w\<lparr>env_calls := env_calls w @ [c]\<rparr>)"

definition callNil :: "'a ego" where
  "callNil = go_panic nilDereference"

fun handled :: "scheduledData \<Rightarrow> bool" where
  "handled NilData = False"
| "handled (scheduledTimer _ h) = h"
| "handled (scheduledActivity _ _ h) = h"
| "handled (scheduledChildWorkflow _ _ _ h) = h"
| "handled (scheduledCancellation _ h) = h"
| "handled (scheduledSignal _ h) = h"

fun setHandled :: "scheduledData \<Rightarrow> scheduledData" where
  "setHandled NilData = NilData"
| "setHandled (scheduledTimer c _) = scheduledTimer c True"
| "setHandled (scheduledActivity c w _) = scheduledActivity c w True"
| "setHandled (scheduledChildWorkflow c s w _) = scheduledChildWorkflow c s w True"
| "setHandled (scheduledCancellation c _) = scheduledCancellation c True"
| "setHandled (scheduledSignal c _) = scheduledSignal c True"

text \<open>
  The five \<open>handle\<close> methods have one body: panic if already handled, set the flag, call
  the callback.  The struct is shared through the machine's \<open>data\<close> pointer, so the flag is
  set in the heap.
\<close>

definition handleOnce ::
  "string \<Rightarrow> ref \<Rightarrow> scheduledData \<Rightarrow> callback \<Rightarrow> nbytes \<Rightarrow> goError option \<Rightarrow> unit ego" where
  "handleOnce what r s callback result err =
     (if handled s then go_panic (StringPanic (what @ '' already handled''))
      else go_then (lift (setData r (setHandled s))) (called (ResultCall callback result err)))"

definition badAssertion :: "'a ego" where
  "badAssertion = go_panic (RuntimePanic ''interface conversion'')"

definition scheduledTimer_handle :: "ref \<Rightarrow> nbytes \<Rightarrow> goError option \<Rightarrow> unit ego" where
  "scheduledTimer_handle r result err = go_bind (lift (getData r)) (\<lambda>s. case s of
      scheduledTimer callback _ \<Rightarrow> handleOnce ''timer'' r s callback result err
    | _ \<Rightarrow> badAssertion)"

definition scheduledActivity_handle :: "ref \<Rightarrow> nbytes \<Rightarrow> goError option \<Rightarrow> unit ego" where
  "scheduledActivity_handle r result err = go_bind (lift (getData r)) (\<lambda>s. case s of
      scheduledActivity callback _ _ \<Rightarrow> handleOnce ''activity'' r s callback result err
    | _ \<Rightarrow> badAssertion)"

definition scheduledChildWorkflow_handle :: "ref \<Rightarrow> nbytes \<Rightarrow> goError option \<Rightarrow> unit ego" where
  "scheduledChildWorkflow_handle r result err = go_bind (lift (getData r)) (\<lambda>s. case s of
      scheduledChildWorkflow resultCallback _ _ _ \<Rightarrow>
        handleOnce ''child workflow'' r s resultCallback result err
    | _ \<Rightarrow> badAssertion)"

definition scheduledCancellation_handle :: "ref \<Rightarrow> nbytes \<Rightarrow> goError option \<Rightarrow> unit ego" where
  "scheduledCancellation_handle r result err = go_bind (lift (getData r)) (\<lambda>s. case s of
      scheduledCancellation callback _ \<Rightarrow> handleOnce ''cancellation'' r s callback result err
    | _ \<Rightarrow> badAssertion)"

definition scheduledSignal_handle :: "ref \<Rightarrow> nbytes \<Rightarrow> goError option \<Rightarrow> unit ego" where
  "scheduledSignal_handle r result err = go_bind (lift (getData r)) (\<lambda>s. case s of
      scheduledSignal callback _ \<Rightarrow> handleOnce ''signal'' r s callback result err
    | _ \<Rightarrow> badAssertion)"

text \<open>Type assertions on \<open>decision.getData()\<close> return the struct or panic.\<close>

definition asTimer :: "ref \<Rightarrow> scheduledData ego" where
  "asTimer r = go_bind (lift (getData r)) (\<lambda>s. case s of
      scheduledTimer _ _ \<Rightarrow> go_return s | _ \<Rightarrow> badAssertion)"

definition asActivity :: "ref \<Rightarrow> scheduledData ego" where
  "asActivity r = go_bind (lift (getData r)) (\<lambda>s. case s of
      scheduledActivity _ _ _ \<Rightarrow> go_return s | _ \<Rightarrow> badAssertion)"

definition asChildWorkflow :: "ref \<Rightarrow> scheduledData ego" where
  "asChildWorkflow r = go_bind (lift (getData r)) (\<lambda>s. case s of
      scheduledChildWorkflow _ _ _ _ \<Rightarrow> go_return s | _ \<Rightarrow> badAssertion)"

definition asCancellation :: "ref \<Rightarrow> scheduledData ego" where
  "asCancellation r = go_bind (lift (getData r)) (\<lambda>s. case s of
      scheduledCancellation _ _ \<Rightarrow> go_return s | _ \<Rightarrow> badAssertion)"

definition asSignal :: "ref \<Rightarrow> scheduledData ego" where
  "asSignal r = go_bind (lift (getData r)) (\<lambda>s. case s of
      scheduledSignal _ _ \<Rightarrow> go_return s | _ \<Rightarrow> badAssertion)"

section \<open>Completion, sequence numbers, time\<close>

definition Complete :: "nbytes \<Rightarrow> goError option \<Rightarrow> unit ego" where
  "Complete result err = called (CompleteHandlerCall result err)"

definition GenerateSequence :: "i32 ego" where
  "GenerateSequence = go_bind (go_get env_counterID) (\<lambda>result.
     go_then (go_modify (\<lambda>w. w\<lparr>env_counterID := env_counterID w + 1\<rparr>)) (go_return result))"

definition GenerateSequenceID :: "string ego" where
  "GenerateSequenceID = go_bind GenerateSequence (\<lambda>n. go_return (show_int (sint n)))"

text \<open>\<open>now\<close> is what \<open>time.Now()\<close> returns.\<close>

definition SetCurrentReplayTime :: "int \<Rightarrow> int \<Rightarrow> unit ego" where
  "SetCurrentReplayTime now replayTime = go_bind (go_get env_currentReplayTime) (\<lambda>current.
     if replayTime < current then go_return ()
     else go_modify (\<lambda>w. w\<lparr>env_currentReplayTime := replayTime, env_currentLocalTime := now\<rparr>))"

definition Now :: "int ego" where
  "Now = go_get env_currentReplayTime"

definition IsReplaying :: "bool ego" where
  "IsReplaying = go_get env_isReplay"

definition RegisterCancelHandler :: "callback \<Rightarrow> unit ego" where
  "RegisterCancelHandler handler = go_modify (\<lambda>w. w\<lparr>env_cancelHandler := Some handler\<rparr>)"

definition RegisterSignalHandler :: "callback \<Rightarrow> unit ego" where
  "RegisterSignalHandler handler = go_modify (\<lambda>w. w\<lparr>env_signalHandler := Some handler\<rparr>)"

section \<open>External workflows\<close>

definition RequestCancelChildWorkflow :: "string \<Rightarrow> string \<Rightarrow> unit ego" where
  "RequestCancelChildWorkflow domainName workflowID =
     go_then (lift (requestCancelExternalWorkflowExecution domainName workflowID [] [] True))
       (go_return ())"

definition RequestCancelExternalWorkflow ::
  "string \<Rightarrow> string \<Rightarrow> string \<Rightarrow> callback \<Rightarrow> unit ego" where
  "RequestCancelExternalWorkflow domainName workflowID runID callback =
     go_bind GenerateSequenceID (\<lambda>cancellationID.
     go_bind (lift (requestCancelExternalWorkflowExecution
               domainName workflowID runID cancellationID False)) (\<lambda>decision.
     lift (setData decision (scheduledCancellation callback False))))"

definition SignalExternalWorkflow ::
  "string \<Rightarrow> string \<Rightarrow> string \<Rightarrow> string \<Rightarrow> bytes \<Rightarrow> bool \<Rightarrow> callback \<Rightarrow> unit ego" where
  "SignalExternalWorkflow domainName workflowID runID signalName input childWorkflowOnly callback =
     go_bind GenerateSequenceID (\<lambda>signalID.
     go_bind (lift (signalExternalWorkflowExecution
               domainName workflowID runID signalName input signalID childWorkflowOnly)) (\<lambda>decision.
     lift (setData decision (scheduledSignal callback False))))"

section \<open>Search attributes\<close>

definition CadenceChangeVersion :: string where
  "CadenceChangeVersion = ''CadenceChangeVersion''"

fun marshalEntries ::
  "(goValue \<Rightarrow> string + bytes) \<Rightarrow> (string \<times> goValue) list \<Rightarrow> string + fields" where
  "marshalEntries marshal [] = Inr []"
| "marshalEntries marshal ((k, v) # rest) = (case marshal v of
      Inl err \<Rightarrow> Inl (''encode search attribute ['' @ k @ ''] error: '' @ err)
    | Inr b \<Rightarrow> (case marshalEntries marshal rest of
        Inl err \<Rightarrow> Inl err
      | Inr fs \<Rightarrow> Inr ((k, b) # fs)))"

definition serializeSearchAttributes ::
  "(goValue \<Rightarrow> string + bytes) \<Rightarrow> (string \<times> goValue) list option \<Rightarrow> string + fields option" where
  "serializeSearchAttributes marshal input = (case input of
      None \<Rightarrow> Inr None
    | Some attributes \<Rightarrow> (case marshalEntries marshal attributes of
        Inl err \<Rightarrow> Inl err
      | Inr fs \<Rightarrow> Inr (Some fs)))"

definition validateAndSerializeSearchAttributes ::
  "(goValue \<Rightarrow> string + bytes) \<Rightarrow> (string \<times> goValue) list \<Rightarrow> string + fields option" where
  "validateAndSerializeSearchAttributes marshal attributes =
     (if attributes = [] then Inl ''search attributes is empty''
      else serializeSearchAttributes marshal (Some attributes))"

fun setEntries :: "fields \<Rightarrow> fields \<Rightarrow> fields" where
  "setEntries current [] = current"
| "setEntries current ((k, v) # rest) = setEntries (AList.update k v current) rest"

text \<open>
  \<open>mergeSearchAttributes\<close>: with something in \<open>current\<close>, the code ranges over
  \<open>upsert.IndexedFields\<close> without a nil check.  The code writes the entries into the map of
  \<open>current\<close> itself; its caller stores the result in the place \<open>current\<close> came from, so the model
  returns the merged map.  Workflow code that kept the old pointer would see it change.
\<close>

definition mergeSearchAttributes :: "fields option \<Rightarrow> fields option \<Rightarrow> panicValue + fields option" where
  "mergeSearchAttributes current upsert =
     (if getFields current = [] then
        (if getFields upsert = [] then Inr None
         else Inr (Some (setEntries [] (getFields upsert))))
      else (case upsert of
          None \<Rightarrow> Inl nilDereference
        | Some fs \<Rightarrow> Inr (Some (setEntries (getFields current) fs))))"

definition updateWorkflowInfoWithSearchAttributes :: "fields option \<Rightarrow> unit ego" where
  "updateWorkflowInfoWithSearchAttributes attributes =
     go_bind (go_get (\<lambda>w. wi_SearchAttributes (env_workflowInfo w))) (\<lambda>current.
     case mergeSearchAttributes current attributes of
       Inl p \<Rightarrow> go_panic p
     | Inr merged \<Rightarrow> go_modify (\<lambda>w. w\<lparr>env_workflowInfo :=
         (env_workflowInfo w)\<lparr>wi_SearchAttributes := merged\<rparr>\<rparr>))"

definition changeVersionUpsertID :: "goValue \<Rightarrow> string ego" where
  "changeVersionUpsertID v = (case v of
      GoStrings (s # _) \<Rightarrow> go_return s
    | GoStrings [] \<Rightarrow> go_panic (RuntimePanic ''index out of range'')
    | _ \<Rightarrow> badAssertion)"

definition UpsertSearchAttributes ::
  "(goValue \<Rightarrow> string + bytes) \<Rightarrow> (string \<times> goValue) list \<Rightarrow> string option ego" where
  "UpsertSearchAttributes marshal attributes =
     (case validateAndSerializeSearchAttributes marshal attributes of
        Inl err \<Rightarrow> go_return (Some err)
      | Inr attr \<Rightarrow>
          go_bind (case map_of attributes CadenceChangeVersion of
              Some v \<Rightarrow> changeVersionUpsertID v
            | None \<Rightarrow> GenerateSequenceID) (\<lambda>upsertID.
          go_then (lift (upsertSearchAttributes upsertID attr))
          (go_then (updateWorkflowInfoWithSearchAttributes attr)
          (go_return None))))"

section \<open>Child workflows\<close>

definition WorkflowIDReusePolicy_toThriftPtr :: "int \<Rightarrow> panicValue + WorkflowIdReusePolicyT" where
  "WorkflowIDReusePolicy_toThriftPtr p =
     (if p = 0 then Inr WorkflowIdReusePolicyAllowDuplicateFailedOnly
      else if p = 1 then Inr WorkflowIdReusePolicyAllowDuplicate
      else if p = 2 then Inr WorkflowIdReusePolicyRejectDuplicate
      else if p = 3 then Inr WorkflowIdReusePolicyTerminateIfRunning
      else Inl (StringPanic (''unknown workflow reuse policy '' @ show_int p)))"

definition ParentClosePolicy_toThriftPtr :: "int \<Rightarrow> panicValue + ParentClosePolicyT" where
  "ParentClosePolicy_toThriftPtr p =
     (if p = 0 then Inr ParentClosePolicyTerminate
      else if p = 1 then Inr ParentClosePolicyRequestCancel
      else if p = 2 then Inr ParentClosePolicyAbandon
      else Inl (StringPanic (''unknown workflow parent close policy '' @ show_int p)))"

record executeWorkflowParams =
  ewp_taskListName :: "string option"
  ewp_executionStartToCloseTimeoutSeconds :: "int option"
  ewp_taskStartToCloseTimeoutSeconds :: "int option"
  ewp_domain :: "string option"
  ewp_workflowID :: string
  ewp_waitForCancellation :: bool
  ewp_workflowIDReusePolicy :: int
  ewp_retryPolicy :: "ThriftRetryPolicy option"
  ewp_cronSchedule :: string
  ewp_memo :: "(string \<times> goValue) list option"
  ewp_searchAttributes :: "(string \<times> goValue) list option"
  ewp_parentClosePolicy :: int
  ewp_workflowType :: string
  ewp_input :: bytes
  ewp_header :: "fields option"

fun encodeEntries :: "DataConverter \<Rightarrow> (string \<times> goValue) list \<Rightarrow> string + fields" where
  "encodeEntries dc [] = Inr []"
| "encodeEntries dc ((k, v) # rest) = (case encodeArgs dc [v] of
      Inl err \<Rightarrow> Inl (''encode workflow memo error: '' @ err)
    | Inr b \<Rightarrow> (case encodeEntries dc rest of
        Inl err \<Rightarrow> Inl err
      | Inr fs \<Rightarrow> Inr ((k, case b of None \<Rightarrow> [] | Some s \<Rightarrow> s) # fs)))"

definition getWorkflowMemo :: "(string \<times> goValue) list option \<Rightarrow> DataConverter \<Rightarrow> string + fields option" where
  "getWorkflowMemo input dc = (case input of
      None \<Rightarrow> Inr None
    | Some entries \<Rightarrow> (case encodeEntries dc entries of
        Inl err \<Rightarrow> Inl err
      | Inr fs \<Rightarrow> Inr (Some fs)))"

definition childWorkflowID :: "executeWorkflowParams \<Rightarrow> string ego" where
  "childWorkflowID params =
     (if ewp_workflowID params \<noteq> [] then go_return (ewp_workflowID params)
      else go_bind (go_get env_workflowInfo) (\<lambda>info.
        go_bind GenerateSequenceID (\<lambda>seq.
        go_return ((if wi_OriginalRunId info \<noteq> [] then wi_OriginalRunId info else wi_RunID info)
                   @ ''_'' @ seq))))"

definition childAttributes ::
  "executeWorkflowParams \<Rightarrow> string \<Rightarrow> fields option \<Rightarrow> fields option \<Rightarrow>
   panicValue + StartChildWorkflowExecutionDecisionAttributes" where
  "childAttributes params workflowID memo searchAttr =
     (case WorkflowIDReusePolicy_toThriftPtr (ewp_workflowIDReusePolicy params) of
        Inl p \<Rightarrow> Inl p
      | Inr reuse \<Rightarrow> (case ParentClosePolicy_toThriftPtr (ewp_parentClosePolicy params) of
          Inl p \<Rightarrow> Inl p
        | Inr close \<Rightarrow> Inr \<lparr>
            scw_Domain = ewp_domain params,
            scw_WorkflowId = Some workflowID,
            scw_WorkflowType = Some (ewp_workflowType params),
            scw_TaskList = Some \<lparr>tl_Name = ewp_taskListName params, tl_Kind = None\<rparr>,
            scw_Input = ewp_input params,
            scw_ExecutionStartToCloseTimeoutSeconds = ewp_executionStartToCloseTimeoutSeconds params,
            scw_TaskStartToCloseTimeoutSeconds = ewp_taskStartToCloseTimeoutSeconds params,
            scw_ParentClosePolicy = Some close,
            scw_WorkflowIdReusePolicy = Some reuse,
            scw_RetryPolicy = ewp_retryPolicy params,
            scw_CronSchedule = (if ewp_cronSchedule params \<noteq> [] then Some (ewp_cronSchedule params) else None),
            scw_Header = ewp_header params,
            scw_Memo = memo,
            scw_SearchAttributes = searchAttr\<rparr>))"

definition ExecuteChildWorkflow ::
  "(goValue \<Rightarrow> string + bytes) \<Rightarrow> executeWorkflowParams \<Rightarrow> callback \<Rightarrow> callback \<Rightarrow> string option ego" where
  "ExecuteChildWorkflow marshal params callback startedHandler =
     go_bind (childWorkflowID params) (\<lambda>workflowID.
     go_bind (go_get env_dataConverter) (\<lambda>dc.
     case getWorkflowMemo (ewp_memo params) dc of
       Inl err \<Rightarrow> go_return (Some err)
     | Inr memo \<Rightarrow> (case serializeSearchAttributes marshal (ewp_searchAttributes params) of
         Inl err \<Rightarrow> go_return (Some err)
       | Inr searchAttr \<Rightarrow> (case childAttributes params workflowID memo searchAttr of
           Inl p \<Rightarrow> go_panic p
         | Inr attributes \<Rightarrow>
             go_bind (lift (startChildWorkflowExecution attributes)) (\<lambda>decision.
             go_then (lift (setData decision
               (scheduledChildWorkflow callback startedHandler (ewp_waitForCancellation params) False)))
             (go_return None))))))"

section \<open>Activities\<close>

record executeActivityParams =
  eap_ActivityID :: "string option"
  eap_TaskListName :: string
  eap_TaskListKind :: TaskListKind
  eap_ScheduleToCloseTimeoutSeconds :: int
  eap_ScheduleToStartTimeoutSeconds :: int
  eap_StartToCloseTimeoutSeconds :: int
  eap_HeartbeatTimeoutSeconds :: int
  eap_WaitForCancellation :: bool
  eap_RetryPolicy :: "ThriftRetryPolicy option"
  eap_ActivityType :: string
  eap_Input :: bytes
  eap_Header :: "fields option"

definition activityAttributes ::
  "executeActivityParams \<Rightarrow> string option \<Rightarrow> ScheduleActivityTaskDecisionAttributes" where
  "activityAttributes parameters activityId = \<lparr>
     sat_ActivityId = activityId,
     sat_ActivityType = Some (eap_ActivityType parameters),
     sat_Domain = None,
     sat_TaskList = Some \<lparr>tl_Name = Some (eap_TaskListName parameters),
                          tl_Kind = Some (eap_TaskListKind parameters)\<rparr>,
     sat_Input = eap_Input parameters,
     sat_ScheduleToCloseTimeoutSeconds = Some (eap_ScheduleToCloseTimeoutSeconds parameters),
     sat_ScheduleToStartTimeoutSeconds = Some (eap_ScheduleToStartTimeoutSeconds parameters),
     sat_StartToCloseTimeoutSeconds = Some (eap_StartToCloseTimeoutSeconds parameters),
     sat_HeartbeatTimeoutSeconds = Some (eap_HeartbeatTimeoutSeconds parameters),
     sat_RetryPolicy = eap_RetryPolicy parameters,
     sat_Header = eap_Header parameters,
     sat_RequestLocalDispatch = None\<rparr>"

definition ExecuteActivity :: "executeActivityParams \<Rightarrow> callback \<Rightarrow> string ego" where
  "ExecuteActivity parameters callback =
     go_bind (if get_str (eap_ActivityID parameters) = [] then GenerateSequenceID
              else go_return (get_str (eap_ActivityID parameters))) (\<lambda>activityID.
     go_bind (lift (scheduleActivityTask (activityAttributes parameters (Some activityID)))) (\<lambda>decision.
     go_then (lift (setData decision
       (scheduledActivity callback (eap_WaitForCancellation parameters) False)))
     (go_return activityID)))"

fun waitForCancelRequest :: "scheduledData \<Rightarrow> bool" where
  "waitForCancelRequest (scheduledActivity _ wait _) = wait"
| "waitForCancelRequest _ = False"

definition RequestCancelActivity :: "string \<Rightarrow> unit ego" where
  "RequestCancelActivity activityID =
     go_bind (lift (requestCancelActivityTask activityID)) (\<lambda>decision.
     go_bind (asActivity decision) (\<lambda>activity.
     if handled activity then go_return ()
     else go_bind (lift (call_isDone decision)) (\<lambda>isDone.
       if isDone \<or> \<not> waitForCancelRequest activity
       then scheduledActivity_handle decision None (Some ErrCanceled)
       else go_return ())))"

definition newLocalActivityTask ::
  "executeLocalActivityParams \<Rightarrow> callback \<Rightarrow> string \<Rightarrow> localActivityTask" where
  "newLocalActivityTask params callback activityID = \<lparr>
     lat_activityID = activityID, lat_params = params, lat_callback = callback,
     lat_canceled = False, lat_attempt = lap_Attempt params,
     lat_retryPolicy = lap_RetryPolicy params,
     lat_expireTime = (case lap_RetryPolicy params of
         Some policy \<Rightarrow> if rp_ExpirationInterval policy > 0
           then Some (lap_ScheduledTime params + rp_ExpirationInterval policy) else None
       | None \<Rightarrow> None),
     lat_header = lap_Header params\<rparr>"

definition ExecuteLocalActivity :: "executeLocalActivityParams \<Rightarrow> callback \<Rightarrow> string ego" where
  "ExecuteLocalActivity params callback = go_bind GenerateSequenceID (\<lambda>activityID.
     go_then (go_modify (\<lambda>w. w\<lparr>
         env_pendingLaTasks :=
           AList.update activityID (newLocalActivityTask params callback activityID) (env_pendingLaTasks w),
         env_unstartedLaTasks := List.insert activityID (env_unstartedLaTasks w)\<rparr>))
     (go_return activityID))"

definition localActivityTask_cancel :: "localActivityTask \<Rightarrow> localActivityTask" where
  "localActivityTask_cancel t = t\<lparr>lat_canceled := True\<rparr>"

definition RequestCancelLocalActivity :: "string \<Rightarrow> unit ego" where
  "RequestCancelLocalActivity activityID =
     go_bind (go_get (\<lambda>w. map_of (env_pendingLaTasks w) activityID)) (\<lambda>t. case t of
       Some task \<Rightarrow> go_modify (\<lambda>w. w\<lparr>env_pendingLaTasks :=
           AList.update activityID (localActivityTask_cancel task) (env_pendingLaTasks w)\<rparr>)
     | None \<Rightarrow> go_return ())"

section \<open>Timers\<close>

definition NewTimer :: "int \<Rightarrow> callback \<Rightarrow> string option ego" where
  "NewTimer d callback = (let durationInSeconds = Int64Ceil (Duration_Seconds d) in
     if durationInSeconds < 0 then
       go_then (called (ResultCall callback None
         (Some (PlainError (''negative duration provided '' @ show_int durationInSeconds)))))
       (go_return None)
     else if durationInSeconds = 0 then
       go_then (called (ResultCall callback None None)) (go_return None)
     else
       go_bind GenerateSequenceID (\<lambda>timerID.
       go_bind (lift (startTimer \<lparr>st_TimerId = Some timerID,
                                 st_StartToFireTimeoutSeconds = Some durationInSeconds\<rparr>)) (\<lambda>decision.
       go_then (lift (setData decision (scheduledTimer callback False)))
       (go_return (Some timerID)))))"

definition RequestCancelTimer :: "string \<Rightarrow> unit ego" where
  "RequestCancelTimer timerID =
     go_bind (lift (cancelTimer timerID)) (\<lambda>decision.
     go_bind (asTimer decision) (\<lambda>timer.
     if handled timer then go_return ()
     else scheduledTimer_handle decision None (Some ErrCanceled)))"

section \<open>Versions\<close>

definition DefaultVersion :: int where
  "DefaultVersion = - 1"

definition validateVersion :: "string \<Rightarrow> int \<Rightarrow> int \<Rightarrow> int \<Rightarrow> unit ego" where
  "validateVersion changeID version minSupported maxSupported =
     (if version < minSupported then
        go_panic (StringPanic (''Workflow code removed support of version '' @ show_int version
          @ ''. for '' @ CHR 0x22 # changeID @ CHR 0x22 # '' changeID. The oldest supported version is ''
          @ show_int minSupported))
      else if version > maxSupported then
        go_panic (StringPanic (''Workflow code is too old to support version '' @ show_int version
          @ '' for '' @ CHR 0x22 # changeID @ CHR 0x22 # '' changeID. The maximum supported version is ''
          @ show_int maxSupported))
      else go_return ())"

definition getChangeVersion :: "string \<Rightarrow> int \<Rightarrow> string" where
  "getChangeVersion changeID version = changeID @ ''-'' @ show_int version"

definition getChangeVersions :: "string \<Rightarrow> int \<Rightarrow> (string \<times> int) list \<Rightarrow> string list" where
  "getChangeVersions changeID version existingChangeVersions =
     getChangeVersion changeID version #
     map (\<lambda>(k, v). getChangeVersion k v) existingChangeVersions"

definition createSearchAttributesForChangeVersion ::
  "string \<Rightarrow> int \<Rightarrow> (string \<times> int) list \<Rightarrow> (string \<times> goValue) list" where
  "createSearchAttributesForChangeVersion changeID version existingChangeVersions =
     [(CadenceChangeVersion, GoStrings (getChangeVersions changeID version existingChangeVersions))]"

datatype GetVersionOption = customVersionOption int | useMinVersionOption

record getVersionConfig =
  gvc_CustomVersion :: "int option"
  gvc_UseMinVersion :: bool

fun GetVersionOption_apply :: "GetVersionOption \<Rightarrow> getVersionConfig \<Rightarrow> getVersionConfig" where
  "GetVersionOption_apply (customVersionOption v) config = config\<lparr>gvc_CustomVersion := Some v\<rparr>"
| "GetVersionOption_apply useMinVersionOption config = config\<lparr>gvc_UseMinVersion := True\<rparr>"

definition getVersionConfigOf :: "GetVersionOption list \<Rightarrow> getVersionConfig" where
  "getVersionConfigOf opts =
     fold GetVersionOption_apply opts \<lparr>gvc_CustomVersion = None, gvc_UseMinVersion = False\<rparr>"

definition chooseVersion :: "bool \<Rightarrow> getVersionConfig \<Rightarrow> int \<Rightarrow> int \<Rightarrow> int" where
  "chooseVersion isReplay config minSupported maxSupported =
     (if isReplay then DefaultVersion
      else case gvc_CustomVersion config of
          Some v \<Rightarrow> v
        | None \<Rightarrow> if gvc_UseMinVersion config then minSupported else maxSupported)"

definition encodeVersion :: "DataConverter \<Rightarrow> string \<Rightarrow> int \<Rightarrow> string + bytes" where
  "encodeVersion dc changeID version = (case encodeArgs dc [GoString changeID, GoInt version] of
      Inl err \<Rightarrow> Inl err
    | Inr b \<Rightarrow> Inr (case b of None \<Rightarrow> [] | Some s \<Rightarrow> s))"

definition recordVersion :: "(goValue \<Rightarrow> string + bytes) \<Rightarrow> string \<Rightarrow> int \<Rightarrow> unit ego" where
  "recordVersion marshal changeID version =
     go_bind (go_get env_dataConverter) (\<lambda>dc.
     go_then (lift (recordVersionMarker (encodeVersion dc) changeID version))
     (go_bind (go_get env_changeVersions) (\<lambda>existing.
     go_then (UpsertSearchAttributes marshal
       (createSearchAttributesForChangeVersion changeID version existing))
     (go_return ()))))"

definition GetVersion ::
  "(goValue \<Rightarrow> string + bytes) \<Rightarrow> string \<Rightarrow> int \<Rightarrow> int \<Rightarrow> GetVersionOption list \<Rightarrow> int ego" where
  "GetVersion marshal changeID minSupported maxSupported opts =
     go_bind (go_get (\<lambda>w. map_of (env_changeVersions w) changeID)) (\<lambda>known. case known of
       Some version \<Rightarrow>
         go_then (validateVersion changeID version minSupported maxSupported) (go_return version)
     | None \<Rightarrow> go_bind (go_get env_isReplay) (\<lambda>isReplay.
         let version = chooseVersion isReplay (getVersionConfigOf opts) minSupported maxSupported in
         go_then (validateVersion changeID version minSupported maxSupported)
         (go_then (if \<not> isReplay \<and> version \<noteq> DefaultVersion
                   then recordVersion marshal changeID version else go_return ())
         (go_then (go_modify (\<lambda>w. w\<lparr>env_changeVersions :=
                     AList.update changeID version (env_changeVersions w)\<rparr>))
         (go_return version)))))"

section \<open>Side effects\<close>

text \<open>The user's function is run by the caller; its result and error are the arguments.\<close>

definition SideEffect :: "nbytes \<times> goError option \<Rightarrow> callback \<Rightarrow> unit ego" where
  "SideEffect f callback = go_bind GenerateSequence (\<lambda>sideEffectID.
     go_bind (go_get env_isReplay) (\<lambda>isReplay.
     if isReplay then
       go_bind (go_get (\<lambda>w. env_sideEffectResult w sideEffectID)) (\<lambda>cached. case cached of
         None \<Rightarrow> go_panic (StringPanic (''No cached result found for side effectID=''
                   @ show_int (sint sideEffectID)))
       | Some result \<Rightarrow>
           go_then (lift (recordSideEffectMarker (show_int (sint sideEffectID))
                      (case result of None \<Rightarrow> [] | Some b \<Rightarrow> b)))
           (called (ResultCall callback result None)))
     else (case f of
         (result, Some err) \<Rightarrow> called (ResultCall callback result (Some err))
       | (result, None) \<Rightarrow> go_bind (go_get env_dataConverter) (\<lambda>dc.
           case encodeArgs dc [GoInt (sint sideEffectID), GoBytes result] of
             Inl err \<Rightarrow> called (ResultCall callback None
               (Some (PlainError (''failure encoding sideEffectID: '' @ err))))
           | Inr details \<Rightarrow>
               go_then (lift (recordSideEffectMarker (show_int (sint sideEffectID))
                          (case details of None \<Rightarrow> [] | Some b \<Rightarrow> b)))
               (called (ResultCall callback result None))))))"

definition encodeArg :: "goValue \<Rightarrow> (string + nbytes) ego" where
  "encodeArg arg = go_bind (go_get env_dataConverter) (\<lambda>dc. go_return (ToData dc [arg]))"

definition encodeValue :: "goValue \<Rightarrow> nbytes ego" where
  "encodeValue v = go_bind (encodeArg v) (\<lambda>r. case r of
      Inl err \<Rightarrow> go_panic (StringPanic err)
    | Inr blob \<Rightarrow> go_return blob)"

definition decodeValue :: "DataConverter \<Rightarrow> nbytes \<Rightarrow> goType \<Rightarrow> goValue ego" where
  "decodeValue dc encodedValue t = (case EncodedValues_Get dc encodedValue [t] of
      (_, Some err) \<Rightarrow> go_panic (StringPanic err)
    | (v # _, None) \<Rightarrow> go_return v
    | ([], None) \<Rightarrow> go_return GoNil)"

definition sameBytes :: "nbytes \<Rightarrow> nbytes \<Rightarrow> bool" where
  "sameBytes a b = ((case a of None \<Rightarrow> [] | Some x \<Rightarrow> x) = (case b of None \<Rightarrow> [] | Some x \<Rightarrow> x))"

definition isEqualValue ::
  "goValue \<Rightarrow> nbytes \<Rightarrow> (goValue \<Rightarrow> goValue \<Rightarrow> bool) \<Rightarrow> bool ego" where
  "isEqualValue newValue encodedOldValue equals = (case typeOf newValue of
      None \<Rightarrow> go_bind (encodeValue GoNil) (\<lambda>encoded. go_return (sameBytes encoded encodedOldValue))
    | Some t \<Rightarrow> go_bind (go_get env_dataConverter) (\<lambda>dc.
        go_bind (decodeValue dc encodedOldValue t) (\<lambda>oldValue.
        go_return (equals newValue oldValue))))"

definition recordMutableSideEffect :: "string \<Rightarrow> nbytes \<Rightarrow> nbytes ego" where
  "recordMutableSideEffect i data = go_bind (go_get env_dataConverter) (\<lambda>dc.
     case encodeArgs dc [GoString i, GoString (case data of None \<Rightarrow> [] | Some b \<Rightarrow> b)] of
       Inl err \<Rightarrow> go_panic (StringPanic err)
     | Inr details \<Rightarrow>
         go_then (lift (recordMutableSideEffectMarker i (case details of None \<Rightarrow> [] | Some b \<Rightarrow> b)))
         (go_then (go_modify (\<lambda>w. w\<lparr>env_mutableSideEffect := (env_mutableSideEffect w)(i \<mapsto> data)\<rparr>))
         (go_return data)))"

definition MutableSideEffect ::
  "string \<Rightarrow> goValue \<Rightarrow> (goValue \<Rightarrow> goValue \<Rightarrow> bool) \<Rightarrow> nbytes ego" where
  "MutableSideEffect i f equals =
     go_bind (go_get (\<lambda>w. env_mutableSideEffect w i)) (\<lambda>known.
     go_bind (go_get env_isReplay) (\<lambda>isReplay. case known of
       Some result \<Rightarrow>
         if isReplay then go_return result
         else go_bind (isEqualValue f result equals) (\<lambda>same.
           if same then go_return result
           else go_bind (encodeValue f) (\<lambda>data. recordMutableSideEffect i data))
     | None \<Rightarrow>
         if isReplay then go_panic (StringPanic (''Non deterministic workflow code change detected. ''
           @ ''MutableSideEffect API call doesn'' @ CHR 0x27 # ''t have a correspondent event in the workflow history. ''
           @ ''MutableSideEffect ID: '' @ i))
         else go_bind (encodeValue f) (\<lambda>data. recordMutableSideEffect i data)))"

section \<open>Sessions\<close>

definition AddSession :: "SessionInfo \<Rightarrow> unit ego" where
  "AddSession sessionInfo = go_modify (\<lambda>w. w\<lparr>env_openSessions :=
     AList.update (si_SessionID sessionInfo) sessionInfo (env_openSessions w)\<rparr>)"

definition RemoveSession :: "string \<Rightarrow> unit ego" where
  "RemoveSession sessionID = go_modify (\<lambda>w. w\<lparr>env_openSessions :=
     AList.delete sessionID (env_openSessions w)\<rparr>)"

definition getOpenSessions :: "SessionInfo list ego" where
  "getOpenSessions = go_get (\<lambda>w. map snd (env_openSessions w))"

end
