(* ===== verification/Event_Handler.thy ===== *)
theory Event_Handler
  imports Workflow_Environment
begin

text \<open>
  The event handler, \<open>workflowExecutionEventHandlerImpl\<close> of
  \<open>src/internal/internal_event_handlers.go\<close>: \<open>ProcessEvent\<close> with one handler per event
  type, markers, local activity results and queries.

  \<open>workflowDefinition\<close> is the Go interface the handler drives (start the workflow, resume
  it when a decision task starts); it is a record of two computations on the environment
  and an argument of the definitions that call it.  It is nil until the started event is
  processed, which is the flag \<open>env_definitionSet\<close>.  \<open>now\<close> is the local clock.
\<close>

record workflowDefinition =
  wd_Execute :: "fields option \<Rightarrow> nbytes \<Rightarrow> unit ego"
  wd_OnDecisionTaskStarted :: "unit ego"

text \<open>\<open>registry.getWorkflowDefinition\<close>: an error for a type that is not registered.\<close>

type_synonym workflowRegistry = "string \<Rightarrow> string + workflowDefinition"

section \<open>Attribute pointers\<close>

definition field :: "'a option \<Rightarrow> ('a \<Rightarrow> 'b option) \<Rightarrow> 'b option" where
  "field p f = (case p of None \<Rightarrow> None | Some a \<Rightarrow> f a)"

definition nonNil :: "'a option \<Rightarrow> 'a ego" where
  "nonNil p = (case p of None \<Rightarrow> callNil | Some a \<Rightarrow> go_return a)"

definition workflowIdOf :: "WorkflowExecutionT option \<Rightarrow> string" where
  "workflowIdOf e = get_str (field e we_WorkflowId)"

definition runIdOf :: "WorkflowExecutionT option \<Rightarrow> string" where
  "runIdOf e = get_str (field e we_RunId)"

definition bytesOf :: "nbytes \<Rightarrow> bytes" where
  "bytesOf b = (case b of None \<Rightarrow> [] | Some s \<Rightarrow> s)"

definition constructErrorM :: "string \<Rightarrow> nbytes \<Rightarrow> goError ego" where
  "constructErrorM reason details = go_bind (go_get env_dataConverter) (\<lambda>dc.
     case constructError reason details dc of
       Inl p \<Rightarrow> go_panic (StringPanic p)
     | Inr err \<Rightarrow> go_return err)"

definition onDecisionTaskStarted :: "workflowRegistry \<Rightarrow> unit ego" where
  "onDecisionTaskStarted registry = go_bind (go_get env_definitionSet) (\<lambda>set.
     go_bind (go_get (\<lambda>w. wi_WorkflowType (env_workflowInfo w))) (\<lambda>t.
     case registry t of
       Inr wd \<Rightarrow> if set then wd_OnDecisionTaskStarted wd else callNil
     | Inl _ \<Rightarrow> callNil))"

section \<open>Workflow and activity events\<close>

definition handleWorkflowExecutionStarted ::
  "workflowRegistry \<Rightarrow> WorkflowExecutionStartedEventAttributes option \<Rightarrow> string option ego" where
  "handleWorkflowExecutionStarted registry attributes =
     go_bind (go_get (\<lambda>w. wi_WorkflowType (env_workflowInfo w))) (\<lambda>t. case registry t of
       Inl err \<Rightarrow> go_then (go_modify (\<lambda>w. w\<lparr>env_definitionSet := False\<rparr>)) (go_return (Some err))
     | Inr wd \<Rightarrow>
         go_then (go_modify (\<lambda>w. w\<lparr>env_definitionSet := True\<rparr>))
         (go_bind (nonNil attributes) (\<lambda>a.
         go_then (wd_Execute wd (wes_Header a) (wes_Input a))
         (go_return None))))"

definition closeActivity :: "int option \<Rightarrow> (ref \<Rightarrow> unit ego) \<Rightarrow> unit ego" where
  "closeActivity scheduledEventId finish =
     go_bind (lift (getActivityID (Some (get_int scheduledEventId)))) (\<lambda>activityID.
     go_bind (lift (handleActivityTaskClosed activityID)) (\<lambda>decision.
     go_bind (asActivity decision) (\<lambda>activity.
     if handled activity then go_return () else finish decision)))"

definition handleActivityTaskCompleted ::
  "ActivityTaskCompletedEventAttributes option \<Rightarrow> unit ego" where
  "handleActivityTaskCompleted attributes =
     closeActivity (field attributes atc_ScheduledEventId) (\<lambda>decision.
     go_bind (nonNil attributes) (\<lambda>a.
     scheduledActivity_handle decision (atc_Result a) None))"

definition handleActivityTaskFailed ::
  "ActivityTaskFailedEventAttributes option \<Rightarrow> unit ego" where
  "handleActivityTaskFailed attributes =
     closeActivity (field attributes atf_ScheduledEventId) (\<lambda>decision.
     go_bind (nonNil attributes) (\<lambda>a.
     go_bind (nonNil (atf_Reason a)) (\<lambda>reason.
     go_bind (constructErrorM reason (atf_Details a)) (\<lambda>err.
     scheduledActivity_handle decision None (Some err)))))"

definition handleActivityTaskTimedOut ::
  "ActivityTaskTimedOutEventAttributes option \<Rightarrow> unit ego" where
  "handleActivityTaskTimedOut attributes =
     closeActivity (field attributes att_ScheduledEventId) (\<lambda>decision.
     go_bind (if get_str (field attributes att_LastFailureReason) \<noteq> []
                \<and> (case field attributes att_TimeoutType of None \<Rightarrow> 0 | Some t \<Rightarrow> t) = TimeoutTypeStartToClose
              then go_bind (nonNil attributes) (\<lambda>a.
                constructErrorM (get_str (att_LastFailureReason a)) (att_LastFailureDetails a))
              else go_bind (nonNil attributes) (\<lambda>a.
                go_return (NewTimeoutError (case att_TimeoutType a of None \<Rightarrow> 0 | Some t \<Rightarrow> t)
                             [newEncodedValues (att_Details a)]))) (\<lambda>err.
     scheduledActivity_handle decision None (Some err)))"

definition handleActivityTaskCanceledEvent ::
  "ActivityTaskCanceledEventAttributes option \<Rightarrow> unit ego" where
  "handleActivityTaskCanceledEvent attributes =
     go_bind (lift (getActivityID (Some (get_int (field attributes atx_ScheduledEventId))))) (\<lambda>activityID.
     go_bind (lift (handleActivityTaskCanceled activityID)) (\<lambda>decision.
     go_bind (asActivity decision) (\<lambda>activity.
     if handled activity then go_return ()
     else go_bind (lift (call_isDone decision)) (\<lambda>isDone.
       if isDone \<or> \<not> waitForCancelRequest activity then
         go_bind (nonNil attributes) (\<lambda>a.
         scheduledActivity_handle decision None
           (Some (NewCanceledError [newEncodedValues (atx_Details a)])))
       else go_return ()))))"

definition handleTimerFired :: "string option \<Rightarrow> unit ego" where
  "handleTimerFired timerID =
     go_bind (lift (handleTimerClosed (get_str timerID))) (\<lambda>decision.
     go_bind (asTimer decision) (\<lambda>timer.
     if handled timer then go_return () else scheduledTimer_handle decision None None))"

definition handleWorkflowExecutionCancelRequested :: "unit ego" where
  "handleWorkflowExecutionCancelRequested = go_bind (go_get env_cancelHandler) (\<lambda>h. case h of
      None \<Rightarrow> callNil
    | Some handler \<Rightarrow> called (CancelHandlerCall handler))"

definition handleWorkflowExecutionSignaled ::
  "WorkflowExecutionSignaledEventAttributes option \<Rightarrow> unit ego" where
  "handleWorkflowExecutionSignaled attributes = go_bind (go_get env_signalHandler) (\<lambda>h.
     go_bind (nonNil attributes) (\<lambda>a. case h of
       None \<Rightarrow> callNil
     | Some handler \<Rightarrow> called (SignalHandlerCall handler (get_str (wsg_SignalName a)) (wsg_Input a))))"

section \<open>Markers\<close>

definition lastPartOfName :: "string \<Rightarrow> string" where
  "lastPartOfName name = (let name = trimSuffix name ''-fm''; lastDotIdx = lastIndexByte name CHR ''.'' in
     if lastDotIdx < 0 \<or> lastDotIdx = int (length name) - 1 then name
     else drop (nat (lastDotIdx + 1)) name)"

definition localActivityResultOf :: "localActivityMarkerData \<Rightarrow> localActivityResultWrapper ego" where
  "localActivityResultOf lamd =
     (if la_ErrReason lamd \<noteq> [] then
        go_bind (constructErrorM (la_ErrReason lamd) (Some (la_ErrJSON lamd))) (\<lambda>err.
        go_return \<lparr>lar_err = Some err, lar_result = None,
                   lar_attempt = la_Attempt lamd, lar_backoff = la_Backoff lamd\<rparr>)
      else go_return \<lparr>lar_err = None,
        lar_result = (if la_ResultJSON lamd \<noteq> [] then Some (la_ResultJSON lamd) else None),
        lar_attempt = 0, lar_backoff = 0\<rparr>)"

definition handleLocalActivityMarker ::
  "workflowRegistry \<Rightarrow> int \<Rightarrow> nbytes \<Rightarrow> string option ego" where
  "handleLocalActivityMarker registry now markerData =
     go_bind (go_get env_dataConverter) (\<lambda>dc.
     case EncodedValues_Get dc markerData [TLocalActivityMarkerData] of
       (_, Some err) \<Rightarrow> go_return (Some err)
     | (GoLocalActivityMarkerData lamd # _, None) \<Rightarrow>
         go_bind (go_get (\<lambda>w. map_of (env_pendingLaTasks w) (la_ActivityID lamd))) (\<lambda>t. case t of
           None \<Rightarrow> go_return None
         | Some la \<Rightarrow>
             go_then (if la_ActivityType lamd \<noteq> []
                        \<and> lastPartOfName (la_ActivityType lamd) \<noteq> lastPartOfName (lap_ActivityType (lat_params la))
                      then lift (panicIllegalState (localActivityMismatch
                             (lap_ActivityType (lat_params la)) (la_ActivityType lamd)))
                      else go_return ())
             (go_then (lift (recordLocalActivityMarker (la_ActivityID lamd) (bytesOf markerData)))
             (go_then (go_modify (\<lambda>w. w\<lparr>
                 env_pendingLaTasks := AList.delete (la_ActivityID lamd) (env_pendingLaTasks w),
                 env_unstartedLaTasks := removeAll (la_ActivityID lamd) (env_unstartedLaTasks w)\<rparr>))
             (go_bind (localActivityResultOf lamd) (\<lambda>lar.
             go_then (called (LocalActivityCall (lat_callback la) lar))
             (go_then (SetCurrentReplayTime now (la_ReplayTime lamd))
             (go_then (onDecisionTaskStarted registry)
             (go_return None))))))))
     | (_, None) \<Rightarrow> go_return None)"

definition handleMarkerRecorded ::
  "workflowRegistry \<Rightarrow> int \<Rightarrow> int \<Rightarrow> MarkerRecordedEventAttributes option \<Rightarrow> string option ego" where
  "handleMarkerRecorded registry now eventID attributes =
     go_bind (nonNil attributes) (\<lambda>a. go_bind (go_get env_dataConverter) (\<lambda>dc.
     let name = get_str (mr_MarkerName a) in
     if name = sideEffectMarkerName then
       (case EncodedValues_Get dc (mr_Details a) [TInt, TBytes] of
          (_, Some err) \<Rightarrow> go_return (Some (''extract side effect: '' @ err))
        | ([GoInt i, GoBytes result], None) \<Rightarrow>
            go_then (go_modify (\<lambda>w. w\<lparr>env_sideEffectResult :=
                       (env_sideEffectResult w)(word_of_int i \<mapsto> result)\<rparr>)) (go_return None)
        | (_, None) \<Rightarrow>
            go_then (go_modify (\<lambda>w. w\<lparr>env_sideEffectResult :=
                       (env_sideEffectResult w)(0 \<mapsto> None)\<rparr>)) (go_return None))
     else if name = versionMarkerName then
       (case EncodedValues_Get dc (mr_Details a) [TString, TInt] of
          (_, Some err) \<Rightarrow> go_return (Some (''extract change id: '' @ err))
        | ([GoString changeID, GoInt version], None) \<Rightarrow>
            go_then (go_modify (\<lambda>w. w\<lparr>env_changeVersions :=
                       AList.update changeID version (env_changeVersions w)\<rparr>)) (go_return None)
        | (_, None) \<Rightarrow>
            go_then (go_modify (\<lambda>w. w\<lparr>env_changeVersions :=
                       AList.update [] 0 (env_changeVersions w)\<rparr>)) (go_return None))
     else if name = localActivityMarkerName then
       handleLocalActivityMarker registry now (mr_Details a)
     else if name = mutableSideEffectMarkerName then
       (case EncodedValues_Get dc (mr_Details a) [TString, TString] of
          (_, Some err) \<Rightarrow> go_return (Some (''extract fixed id: '' @ err))
        | (vs, None) \<Rightarrow>
            go_then (go_modify (\<lambda>w. w\<lparr>env_mutableSideEffect :=
                       (env_mutableSideEffect w)(nth_string vs 0 \<mapsto> Some (nth_string vs 1))\<rparr>))
            (go_return None))
     else go_return (Some (''unknown marker name '' @ CHR 0x22 # name @ CHR 0x22 # '' for eventID ''
            @ CHR 0x22 # show_int eventID @ [CHR 0x22]))))"

section \<open>Child and external workflow events\<close>

definition closeChildWorkflow ::
  "(string \<Rightarrow> ref dgo) \<Rightarrow> string \<Rightarrow> (ref \<Rightarrow> scheduledData \<Rightarrow> unit ego) \<Rightarrow> unit ego" where
  "closeChildWorkflow handler childID finish =
     go_bind (lift (handler childID)) (\<lambda>decision.
     go_bind (asChildWorkflow decision) (\<lambda>childWorkflow.
     if handled childWorkflow then go_return () else finish decision childWorkflow))"

fun startedCallback :: "scheduledData \<Rightarrow> callback" where
  "startedCallback (scheduledChildWorkflow _ s _ _) = s"
| "startedCallback _ = 0"

definition handleStartChildWorkflowExecutionFailedEvent :: "string option \<Rightarrow> unit ego" where
  "handleStartChildWorkflowExecutionFailedEvent workflowId =
     closeChildWorkflow handleStartChildWorkflowExecutionFailed (get_str workflowId)
       (\<lambda>decision childWorkflow.
          let err = WorkflowExecutionAlreadyStartedError ''Workflow execution already started'' in
          go_then (called (StartedCall (startedCallback childWorkflow) [] [] (Some err)))
          (scheduledChildWorkflow_handle decision None (Some err)))"

definition handleChildWorkflowExecutionStartedEvent ::
  "WorkflowExecutionT option option \<Rightarrow> unit ego" where
  "handleChildWorkflowExecutionStartedEvent attributes = go_bind (nonNil attributes) (\<lambda>execution.
     closeChildWorkflow handleChildWorkflowExecutionStarted (workflowIdOf execution)
       (\<lambda>decision childWorkflow.
          called (StartedCall (startedCallback childWorkflow) (workflowIdOf execution) (runIdOf execution) None)))"

definition handleChildWorkflowExecutionCompleted ::
  "ChildWorkflowExecutionCompletedEventAttributes option \<Rightarrow> unit ego" where
  "handleChildWorkflowExecutionCompleted attributes = go_bind (nonNil attributes) (\<lambda>a.
     closeChildWorkflow handleChildWorkflowExecutionClosed (workflowIdOf (cwc_WorkflowExecution a))
       (\<lambda>decision _. scheduledChildWorkflow_handle decision (cwc_Result a) None))"

definition handleChildWorkflowExecutionFailed ::
  "ChildWorkflowExecutionFailedEventAttributes option \<Rightarrow> unit ego" where
  "handleChildWorkflowExecutionFailed attributes = go_bind (nonNil attributes) (\<lambda>a.
     closeChildWorkflow handleChildWorkflowExecutionClosed (workflowIdOf (cwf_WorkflowExecution a))
       (\<lambda>decision _. go_bind (constructErrorM (get_str (cwf_Reason a)) (cwf_Details a)) (\<lambda>err.
          scheduledChildWorkflow_handle decision None (Some err))))"

definition handleChildWorkflowExecutionCanceledEvent ::
  "ChildWorkflowExecutionCanceledEventAttributes option \<Rightarrow> unit ego" where
  "handleChildWorkflowExecutionCanceledEvent attributes = go_bind (nonNil attributes) (\<lambda>a.
     closeChildWorkflow handleChildWorkflowExecutionCanceled (workflowIdOf (cwx_WorkflowExecution a))
       (\<lambda>decision _. scheduledChildWorkflow_handle decision None
          (Some (NewCanceledError [newEncodedValues (cwx_Details a)]))))"

definition handleChildWorkflowExecutionTimedOut ::
  "ChildWorkflowExecutionTimedOutEventAttributes option \<Rightarrow> unit ego" where
  "handleChildWorkflowExecutionTimedOut attributes = go_bind (nonNil attributes) (\<lambda>a.
     closeChildWorkflow handleChildWorkflowExecutionClosed (workflowIdOf (cwt_WorkflowExecution a))
       (\<lambda>decision _. scheduledChildWorkflow_handle decision None
          (Some (NewTimeoutError (case cwt_TimeoutType a of None \<Rightarrow> 0 | Some t \<Rightarrow> t) []))))"

definition handleChildWorkflowExecutionTerminated ::
  "WorkflowExecutionT option option \<Rightarrow> unit ego" where
  "handleChildWorkflowExecutionTerminated attributes = go_bind (nonNil attributes) (\<lambda>execution.
     closeChildWorkflow handleChildWorkflowExecutionClosed (workflowIdOf execution)
       (\<lambda>decision _. scheduledChildWorkflow_handle decision None (Some TerminatedError)))"

definition handleUpsertWorkflowSearchAttributes :: "fields option option \<Rightarrow> unit ego" where
  "handleUpsertWorkflowSearchAttributes attributes = go_bind (nonNil attributes) (\<lambda>searchAttributes.
     updateWorkflowInfoWithSearchAttributes searchAttributes)"

definition handleRequestCancelExternalInitiatedEvent ::
  "int \<Rightarrow> RequestCancelExternalWorkflowExecutionInitiatedEventAttributes option \<Rightarrow> unit ego" where
  "handleRequestCancelExternalInitiatedEvent eventID attributes = go_bind (nonNil attributes) (\<lambda>a.
     lift (handleRequestCancelExternalWorkflowExecutionInitiated eventID
       (workflowIdOf (rci_WorkflowExecution a)) (bytesOf (rci_Control a))))"

definition settleCancellation :: "bool \<Rightarrow> ref \<Rightarrow> goError option \<Rightarrow> unit ego" where
  "settleCancellation isExternal decision err =
     (if isExternal then go_bind (asCancellation decision) (\<lambda>cancellation.
        if handled cancellation then go_return ()
        else scheduledCancellation_handle decision None err)
      else go_return ())"

definition handleExternalCancelRequestedEvent ::
  "ExternalWorkflowExecutionCancelRequestedEventAttributes option \<Rightarrow> unit ego" where
  "handleExternalCancelRequestedEvent attributes = go_bind (nonNil attributes) (\<lambda>a.
     go_bind (lift (handleExternalWorkflowExecutionCancelRequested
       (get_int (ecr_InitiatedEventId a)) (workflowIdOf (ecr_WorkflowExecution a)))) (\<lambda>(isExternal, decision).
     settleCancellation isExternal decision None))"

fun ExternalFailedCause_String :: "ExternalFailedCause option \<Rightarrow> string" where
  "ExternalFailedCause_String (Some CauseWorkflowAlreadyCompleted) = ''WORKFLOW_ALREADY_COMPLETED''"
| "ExternalFailedCause_String _ = ''UNKNOWN_EXTERNAL_WORKFLOW_EXECUTION''"

definition handleRequestCancelExternalFailedEvent ::
  "RequestCancelExternalWorkflowExecutionFailedEventAttributes option \<Rightarrow> unit ego" where
  "handleRequestCancelExternalFailedEvent attributes = go_bind (nonNil attributes) (\<lambda>a.
     go_bind (lift (handleRequestCancelExternalWorkflowExecutionFailed
       (get_int (rcf_InitiatedEventId a)) (workflowIdOf (rcf_WorkflowExecution a)))) (\<lambda>(isExternal, decision).
     settleCancellation isExternal decision
       (Some (PlainError (''cancel external workflow failed, '' @ ExternalFailedCause_String (rcf_Cause a))))))"

definition settleSignal :: "ref \<Rightarrow> goError option \<Rightarrow> unit ego" where
  "settleSignal decision err = go_bind (asSignal decision) (\<lambda>signal.
     if handled signal then go_return () else scheduledSignal_handle decision None err)"

definition handleSignalExternalCompletedEvent :: "int option \<Rightarrow> unit ego" where
  "handleSignalExternalCompletedEvent initiatedEventId =
     go_bind (lift (handleSignalExternalWorkflowExecutionCompleted (get_int initiatedEventId))) (\<lambda>decision.
     settleSignal decision None)"

definition handleSignalExternalFailedEvent :: "ExternalFailedCause option \<Rightarrow> int option \<Rightarrow> unit ego" where
  "handleSignalExternalFailedEvent cause initiatedEventId =
     go_bind (lift (handleSignalExternalWorkflowExecutionFailed (get_int initiatedEventId))) (\<lambda>decision.
     settleSignal decision (Some (case cause of
         Some CauseWorkflowAlreadyCompleted \<Rightarrow>
           PlainError (''signal external workflow failed, '' @ ExternalFailedCause_String cause)
       | _ \<Rightarrow> UnknownExternalWorkflowExecutionError)))"

section \<open>ProcessEvent\<close>

fun illegalState_String :: "illegalState \<Rightarrow> string" where
  "illegalState_String (invalidTransition event i s) =
     ''invalid state transition: attempt to '' @ event @ '', '' @ decisionID_String i
     @ '', state='' @ decisionState_String s"
| "illegalState_String (unknownDecision i) = ''unknown decision '' @ decisionID_String i
     @ '', possible causes are nondeterministic workflow definition code''
     @ '' or incompatible change in the workflow definition''"
| "illegalState_String (duplicateDecision i) = ''adding duplicate decision '' @ decisionID_String i"
| "illegalState_String unexpectedEventType = ''unexpected event type''"
| "illegalState_String (activityIDNotFound e) = ''unable to find activity ID for the event '' @ show_int e"
| "illegalState_String (localActivityMismatch code history) =
     ''code execute local activity '' @ code @ '', but history event found '' @ history"

fun recoveredOf :: "panicValue \<Rightarrow> recovered" where
  "recoveredOf (stateMachineIllegalStatePanic i) =
     RecoveredOther ''internal.stateMachineIllegalStatePanic'' (illegalState_String i)"
| "recoveredOf (StringPanic s) = RecoveredString s"
| "recoveredOf (RuntimePanic s) = RecoveredOther ''runtime.Error'' (''runtime error: '' @ s)"
| "recoveredOf LoopBound = RecoveredString []"

definition noError :: "unit ego \<Rightarrow> string option ego" where
  "noError m = go_then m (go_return None)"

definition dispatchEvent ::
  "workflowRegistry \<Rightarrow> int \<Rightarrow> HistoryEvent \<Rightarrow> string option ego" where
  "dispatchEvent registry now event = (case ev_EventType event of
      EventTypeWorkflowExecutionStarted a \<Rightarrow> handleWorkflowExecutionStarted registry a
    | EventTypeDecisionTaskStarted _ \<Rightarrow> noError (
        go_then (SetCurrentReplayTime now (get_int (ev_Timestamp event)))
        (go_then (onDecisionTaskStarted registry)
        (go_modify (\<lambda>w. w\<lparr>env_workflowInfo :=
           (env_workflowInfo w)\<lparr>wi_DecisionStartedEventID := get_int (ev_EventId event)\<rparr>\<rparr>))))
    | EventTypeActivityTaskScheduled a \<Rightarrow> noError (lift (handleActivityTaskScheduled
        (get_int (ev_EventId event)) (get_str (field a ats_ActivityId))))
    | EventTypeActivityTaskCompleted a \<Rightarrow> noError (handleActivityTaskCompleted a)
    | EventTypeActivityTaskFailed a \<Rightarrow> noError (handleActivityTaskFailed a)
    | EventTypeActivityTaskTimedOut a \<Rightarrow> noError (handleActivityTaskTimedOut a)
    | EventTypeActivityTaskCancelRequested activityId \<Rightarrow>
        noError (lift (handleActivityTaskCancelRequested (get_str activityId)))
    | EventTypeRequestCancelActivityTaskFailed activityId \<Rightarrow>
        noError (lift (handleRequestCancelActivityTaskFailed (get_str activityId)))
    | EventTypeActivityTaskCanceled a \<Rightarrow> noError (handleActivityTaskCanceledEvent a)
    | EventTypeTimerStarted timerId _ \<Rightarrow> noError (lift (handleTimerStarted (get_str timerId)))
    | EventTypeTimerFired timerId \<Rightarrow> noError (handleTimerFired timerId)
    | EventTypeTimerCanceled timerId \<Rightarrow> noError (lift (handleTimerCanceled (get_str timerId)))
    | EventTypeCancelTimerFailed timerId \<Rightarrow> noError (lift (handleCancelTimerFailed (get_str timerId)))
    | EventTypeWorkflowExecutionCancelRequested \<Rightarrow> noError handleWorkflowExecutionCancelRequested
    | EventTypeRequestCancelExternalWorkflowExecutionInitiated a \<Rightarrow>
        noError (handleRequestCancelExternalInitiatedEvent (get_int (ev_EventId event)) a)
    | EventTypeRequestCancelExternalWorkflowExecutionFailed a \<Rightarrow>
        noError (handleRequestCancelExternalFailedEvent a)
    | EventTypeExternalWorkflowExecutionCancelRequested a \<Rightarrow>
        noError (handleExternalCancelRequestedEvent a)
    | EventTypeWorkflowExecutionSignaled a \<Rightarrow> noError (handleWorkflowExecutionSignaled a)
    | EventTypeSignalExternalWorkflowExecutionInitiated a \<Rightarrow> noError (
        go_bind (nonNil a) (\<lambda>a. lift (handleSignalExternalWorkflowExecutionInitiated
          (get_int (ev_EventId event)) (bytesOf (sei_Control a)))))
    | EventTypeSignalExternalWorkflowExecutionFailed cause initiated \<Rightarrow>
        noError (handleSignalExternalFailedEvent cause initiated)
    | EventTypeExternalWorkflowExecutionSignaled initiated \<Rightarrow>
        noError (handleSignalExternalCompletedEvent initiated)
    | EventTypeMarkerRecorded a \<Rightarrow>
        handleMarkerRecorded registry now (get_int (ev_EventId event)) a
    | EventTypeStartChildWorkflowExecutionInitiated a \<Rightarrow> noError (lift
        (handleStartChildWorkflowExecutionInitiated (get_str (field a sci_WorkflowId))))
    | EventTypeStartChildWorkflowExecutionFailed workflowId \<Rightarrow>
        noError (handleStartChildWorkflowExecutionFailedEvent workflowId)
    | EventTypeChildWorkflowExecutionStarted e \<Rightarrow> noError (handleChildWorkflowExecutionStartedEvent e)
    | EventTypeChildWorkflowExecutionCompleted a \<Rightarrow> noError (handleChildWorkflowExecutionCompleted a)
    | EventTypeChildWorkflowExecutionFailed a \<Rightarrow> noError (handleChildWorkflowExecutionFailed a)
    | EventTypeChildWorkflowExecutionCanceled a \<Rightarrow> noError (handleChildWorkflowExecutionCanceledEvent a)
    | EventTypeChildWorkflowExecutionTimedOut a \<Rightarrow> noError (handleChildWorkflowExecutionTimedOut a)
    | EventTypeChildWorkflowExecutionTerminated e \<Rightarrow> noError (handleChildWorkflowExecutionTerminated e)
    | EventTypeUpsertWorkflowSearchAttributes a \<Rightarrow> noError (handleUpsertWorkflowSearchAttributes a)
    | _ \<Rightarrow> go_return None)"

definition isDecisionTaskStarted :: "HistoryEvent \<Rightarrow> bool" where
  "isDecisionTaskStarted event = (case ev_EventType event of
      EventTypeDecisionTaskStarted _ \<Rightarrow> True | _ \<Rightarrow> False)"

definition processBody ::
  "workflowRegistry \<Rightarrow> int \<Rightarrow> HistoryEvent \<Rightarrow> bool \<Rightarrow> bool \<Rightarrow> string option ego" where
  "processBody registry now event isReplay isLast =
     go_then (go_modify (\<lambda>w. w\<lparr>env_isReplay := isReplay\<rparr>))
     (go_bind (dispatchEvent registry now event) (\<lambda>err. case err of
       Some e \<Rightarrow> go_return (Some e)
     | None \<Rightarrow>
         go_then (go_modify (\<lambda>w. w\<lparr>env_workflowInfo := (env_workflowInfo w)\<lparr>wi_TotalHistoryBytes :=
           wi_TotalHistoryBytes (env_workflowInfo w) + word_of_int (estimateHistorySize event)\<rparr>\<rparr>))
         (go_then (if isLast \<and> \<not> isDecisionTaskStarted event then onDecisionTaskStarted registry
                   else go_return ())
         (go_return None))))"

definition ProcessEvent ::
  "workflowRegistry \<Rightarrow> int \<Rightarrow> string \<Rightarrow> HistoryEvent option \<Rightarrow> bool \<Rightarrow> bool \<Rightarrow> string option ego" where
  "ProcessEvent registry now stackTrace event isReplay isLast = (case event of
      None \<Rightarrow> go_return (Some ''nil event provided'')
    | Some e \<Rightarrow> go_recover (processBody registry now e isReplay isLast)
        (\<lambda>p. go_then (Complete None (Some (workflowPanicError (recoveredOf p) stackTrace)))
             (go_return None)))"

section \<open>Local activity results and queries\<close>

record localActivityResult =
  lr_result :: nbytes
  lr_err :: "goError option"
  lr_task :: localActivityTask
  lr_backoff :: int

definition localActivityMarker ::
  "DataConverter \<Rightarrow> int \<Rightarrow> localActivityResult \<Rightarrow> string + localActivityMarkerData" where
  "localActivityMarker dc replayTime lar =
     (let lamd = \<lparr>la_ActivityID = lat_activityID (lr_task lar),
            la_ActivityType = lap_ActivityType (lat_params (lr_task lar)),
            la_ErrReason = [], la_ErrJSON = [], la_ResultJSON = [],
            la_ReplayTime = replayTime, la_Attempt = lat_attempt (lr_task lar), la_Backoff = 0\<rparr>
      in case lr_err lar of
           Some err \<Rightarrow> (case getErrorDetails err dc of
               Inl p \<Rightarrow> Inl p
             | Inr (errReason, errDetails) \<Rightarrow> Inr (lamd\<lparr>la_ErrReason := errReason,
                 la_ErrJSON := bytesOf errDetails, la_Backoff := lr_backoff lar\<rparr>))
         | None \<Rightarrow> Inr (lamd\<lparr>la_ResultJSON := bytesOf (lr_result lar)\<rparr>))"

definition ProcessLocalActivityResult ::
  "workflowRegistry \<Rightarrow> int \<Rightarrow> string \<Rightarrow> localActivityResult \<Rightarrow> string option ego" where
  "ProcessLocalActivityResult registry now stackTrace lar =
     go_bind (go_get env_dataConverter) (\<lambda>dc.
     go_bind (go_get (\<lambda>w. env_currentReplayTime w + (now - env_currentLocalTime w))) (\<lambda>replayTime.
     case localActivityMarker dc replayTime lar of
       Inl p \<Rightarrow> go_panic (StringPanic p)
     | Inr lamd \<Rightarrow> go_bind (encodeArg (GoLocalActivityMarkerData lamd)) (\<lambda>encoded. case encoded of
         Inl err \<Rightarrow> go_return (Some err)
       | Inr markerData \<Rightarrow> ProcessEvent registry now stackTrace (Some \<lparr>ev_EventId = None, ev_Timestamp = None,
           ev_EventType = EventTypeMarkerRecorded (Some \<lparr>mr_MarkerName = Some localActivityMarkerName,
             mr_Details = markerData\<rparr>)\<rparr>) False False)))"

definition queryResultSizeLimit :: int where
  "queryResultSizeLimit = 2000000"

definition QueryTypeStackTrace :: string where "QueryTypeStackTrace = ''__stack_trace''"
definition QueryTypeOpenSessions :: string where "QueryTypeOpenSessions = ''__open_sessions''"
definition QueryTypeQueryTypes :: string where "QueryTypeQueryTypes = ''__query_types''"

text \<open>
  \<open>stackTrace\<close> and \<open>knownQueryTypes\<close> are asked of the workflow definition; the session
  list is handed to the converter as one value, made by \<open>sessions\<close>.  The query handler
  is the user's.
\<close>

definition ProcessQuery ::
  "string \<Rightarrow> string list \<Rightarrow> (SessionInfo list \<Rightarrow> goValue) \<Rightarrow>
   (string \<Rightarrow> nbytes \<Rightarrow> string + nbytes) \<Rightarrow> string \<Rightarrow> nbytes \<Rightarrow> (string + nbytes) ego" where
  "ProcessQuery stackTrace knownQueryTypes sessions queryHandler queryType queryArgs =
     (if queryType = QueryTypeStackTrace then encodeArg (GoString stackTrace)
      else if queryType = QueryTypeOpenSessions then
        go_bind getOpenSessions (\<lambda>open. encodeArg (sessions open))
      else if queryType = QueryTypeQueryTypes then encodeArg (GoStrings knownQueryTypes)
      else go_return (case queryHandler queryType queryArgs of
          Inl err \<Rightarrow> Inl err
        | Inr result \<Rightarrow>
            if len result > queryResultSizeLimit
            then Inl (''query result size ('' @ show_int (len result) @ '') exceeds limit (''
                   @ show_int queryResultSizeLimit @ '')'')
            else Inr result))"

end
