(* ===== verification/Environment_Runs.thy ===== *)
theory Environment_Runs
  imports Event_Handler Helper_Refinement
begin

text \<open>
  Runs of the workflow environment.  The helper operations are shown not to touch the
  payloads of machines (\<open>stable\<close>).  The locale \<open>env_invariant\<close> states what a predicate on
  environments has to survive (the primitive steps of the environment) and derives that
  it survives every command, every event handler, \<open>ProcessEvent\<close> and whole runs; later
  theories interpret it for the predicates they need.
\<close>

section \<open>The payloads in the heap\<close>

definition data_of :: "decisionsHelper \<Rightarrow> ref \<Rightarrow> scheduledData" where
  "data_of h r = (case machines h r of None \<Rightarrow> NilData | Some m \<Rightarrow> m_data m)"

definition stable :: "(ref \<Rightarrow> scheduledData) \<Rightarrow> decisionsHelper \<Rightarrow> bool" where
  "stable D h \<longleftrightarrow> helper_inv h \<and> data_of h = D"

lemma stable_modify:
  assumes "\<And>h. helper_inv h \<Longrightarrow> helper_inv (f h)" and "\<And>h. machines (f h) = machines h"
  shows "go_inv (stable D) (go_modify f)"
proof (rule go_inv_modify)
  fix h assume "stable D h"
  moreover have "data_of (f h) = data_of h" by (rule ext) (simp add: data_of_def assms(2))
  ultimately show "stable D (f h)" using assms(1) by (simp add: stable_def)
qed

lemma data_of_update: "machines h r = Some m \<Longrightarrow> m_data m' = m_data m \<Longrightarrow>
  data_of (h\<lparr>machines := (machines h)(r \<mapsto> m')\<rparr>) = data_of h"
  by (rule ext) (simp add: data_of_def)

lemma data_of_drop [simp]: "data_of (drop_if_completed m h) = data_of h"
  by (rule ext) (simp add: data_of_def drop_if_completed_def removeDecision_def split: option.split)

definition payloads :: "(ref \<Rightarrow> scheduledData) \<Rightarrow> decisionsHelper \<Rightarrow> bool" where
  "payloads D h \<longleftrightarrow> data_of h = D"

lemma stable_conj: "go_inv helper_inv m \<Longrightarrow> go_inv (payloads D) m \<Longrightarrow> go_inv (stable D) m"
  by (simp add: go_inv_def stable_def payloads_def)

lemma payloads_send [go_keeps]: "go_inv (payloads D) (send ev r)"
proof (rule go_invI)
  fix h assume D: "payloads D h"
  have "data_of (snd (send ev r h)) = data_of h"
  proof (cases "machines h r")
    case None
    then show ?thesis by (simp add: send_dangling)
  next
    case (Some m)
    note [simp] = data_of_update [OF Some]
    show ?thesis
    proof (cases "next_state (kind_tag (m_kind m)) ev (m_state m)")
      case None
      with Some show ?thesis by (auto elim!: send_None simp: rejected_def)
    next
      case (Some s)
      with \<open>machines h r = Some m\<close> show ?thesis by (auto elim!: send_Some simp: moves_to_def)
    qed
  qed
  with D show "payloads D (snd (send ev r h))" by (simp add: payloads_def)
qed

lemma stable_send [go_keeps]: "go_inv (stable D) (send ev r)"
  by (intro stable_conj go_keeps)

lemmas stable_calls [go_keeps] =
  stable_send [of _ EvCancel, unfolded send.simps] stable_send [of _ EvDecisionSent, unfolded send.simps]
  stable_send [of _ EvInitiated, unfolded send.simps]
  stable_send [of _ EvInitiationFailed, unfolded send.simps]
  stable_send [of _ EvStarted, unfolded send.simps] stable_send [of _ EvCompletion, unfolded send.simps]
  stable_send [of _ EvCancelInitiated, unfolded send.simps]
  stable_send [of _ EvCancelFailed, unfolded send.simps] stable_send [of _ EvCanceled, unfolded send.simps]

lemma stable_deref [go_keeps]: "go_inv (stable D) (deref r)"
  by (rule go_invI) (simp add: deref_def split: option.split)

lemma stable_getDecision [go_keeps]: "go_inv (stable D) (getDecision i)"
  unfolding getDecision_def panicIllegalState_def
  by (intro go_keeps stable_modify helper_inv_reorder) simp_all

lemma stable_bookkeeping [go_keeps]:
  "go_inv (stable D) (go_modify (\<lambda>h. h\<lparr>scheduledEventIDToActivityID := f h\<rparr>))"
  "go_inv (stable D) (go_modify (\<lambda>h. h\<lparr>scheduledEventIDToCancellationID := f h\<rparr>))"
  "go_inv (stable D) (go_modify (\<lambda>h. h\<lparr>scheduledEventIDToSignalID := f h\<rparr>))"
  by (rule stable_modify; simp add: helper_inv_def listed_def)+

lemma stable_onDecision [go_keeps]:
  "(\<And>r. go_inv (stable D) (method r)) \<Longrightarrow> go_inv (stable D) (onDecision i method)"
  unfolding onDecision_def by (intro go_keeps)

lemma stable_addNew:
  assumes "m_state m \<noteq> decisionStateCompleted" and "m_data m = NilData"
  shows "go_inv (stable D) (addNew (alloc_machine m))"
proof (rule go_invI)
  fix h assume s: "stable D h"
  then have inv: "helper_inv h" and D: "data_of h = D" by (simp_all add: stable_def)
  have "data_of (snd (addNew (alloc_machine m) h)) = data_of h"
    using helper_inv_fresh [OF inv] assms(2)
    by (intro ext) (simp add: data_of_def addNew_run Let_def alloc_machine_def split: option.split)
  with D go_invD [OF inv_addNew [OF assms(1)] inv] show "stable D (snd (addNew (alloc_machine m) h))"
    by (simp add: stable_def)
qed

lemma stable_addNew_machines [go_keeps]:
  "go_inv (stable D) (addNew (newActivityDecisionStateMachine a1))"
  "go_inv (stable D) (addNew (newTimerDecisionStateMachine a2))"
  "go_inv (stable D) (addNew (newChildWorkflowDecisionStateMachine a3))"
  "go_inv (stable D) (addNew (newMarkerDecisionStateMachine i a4))"
  "go_inv (stable D) (addNew (newCancelExternalWorkflowStateMachine a5 i))"
  "go_inv (stable D) (addNew (newSignalExternalWorkflowStateMachine a6 i))"
  "go_inv (stable D) (addNew (newUpsertSearchAttributesStateMachine a7 i))"
  unfolding new_machine_defs by (simp_all add: stable_addNew)

lemma stable_helper_ops [go_keeps]:
  "go_inv (stable D) (scheduleActivityTask a)"
  "go_inv (stable D) (requestCancelActivityTask i)"
  "go_inv (stable D) (handleActivityTaskClosed i)"
  "go_inv (stable D) (handleActivityTaskScheduled n i)"
  "go_inv (stable D) (handleActivityTaskCancelRequested i)"
  "go_inv (stable D) (handleActivityTaskCanceled i)"
  "go_inv (stable D) (handleRequestCancelActivityTaskFailed i)"
  "go_inv (stable D) (recordMarker i j d)"
  "go_inv (stable D) (startChildWorkflowExecution c)"
  "go_inv (stable D) (handleStartChildWorkflowExecutionInitiated i)"
  "go_inv (stable D) (handleStartChildWorkflowExecutionFailed i)"
  "go_inv (stable D) (requestCancelExternalWorkflowExecution i j k l b)"
  "go_inv (stable D) (handleRequestCancelExternalWorkflowExecutionInitiated n i j)"
  "go_inv (stable D) (handleExternalWorkflowExecutionCancelRequested n i)"
  "go_inv (stable D) (handleRequestCancelExternalWorkflowExecutionFailed n i)"
  "go_inv (stable D) (signalExternalWorkflowExecution i j k l d e b)"
  "go_inv (stable D) (upsertSearchAttributes i f)"
  "go_inv (stable D) (handleSignalExternalWorkflowExecutionInitiated n i)"
  "go_inv (stable D) (handleSignalExternalWorkflowExecutionCompleted n)"
  "go_inv (stable D) (handleSignalExternalWorkflowExecutionFailed n)"
  "go_inv (stable D) (startTimer t)"
  "go_inv (stable D) (cancelTimer i)"
  "go_inv (stable D) (handleTimerClosed i)"
  "go_inv (stable D) (handleTimerStarted i)"
  "go_inv (stable D) (handleTimerCanceled i)"
  "go_inv (stable D) (handleCancelTimerFailed i)"
  "go_inv (stable D) (handleChildWorkflowExecutionStarted i)"
  "go_inv (stable D) (handleChildWorkflowExecutionClosed i)"
  "go_inv (stable D) (handleChildWorkflowExecutionCanceled i)"
  unfolding helper_op_defs by (intro go_keeps)+

lemma stable_more_ops [go_keeps]:
  "go_inv (stable D) (getActivityID n)"
  "go_inv (stable D) (recordVersionMarker enc i v)"
  "go_inv (stable D) (recordSideEffectMarker i d)"
  "go_inv (stable D) (recordLocalActivityMarker i d)"
  "go_inv (stable D) (recordMutableSideEffectMarker i d)"
  "go_inv (stable D) (getData r)"
  "go_inv (stable D) (call_isDone r)"
  "go_inv (stable D) (panicIllegalState p)"
  unfolding getActivityID_def recordVersionMarker_def recordSideEffectMarker_def
    recordLocalActivityMarker_def recordMutableSideEffectMarker_def getData_def call_isDone_def
    panicIllegalState_def
  by (intro go_keeps)+

lemma payloads_step [go_keeps]: "go_inv (payloads D) (getDecisions_step b r)"
proof -
  have [go_keeps]: "go_inv (payloads D) (deref x)" for x
    by (rule go_invI) (simp add: deref_def split: option.split)
  have [go_keeps]: "go_inv (payloads D) (go_modify (removeDecision i x))" for i x
    by (rule go_inv_modify) (simp add: payloads_def data_of_def [abs_def] removeDecision_def)
  note [go_keeps] = payloads_send [of D EvDecisionSent, unfolded send.simps]
  show ?thesis unfolding getDecisions_step_def call_getDecision_def by (intro go_keeps)
qed

lemma payloads_from: "go_inv (payloads D) (getDecisions_from n b c)"
  by (induction n b c rule: getDecisions_from.induct) (simp_all, (intro go_keeps; assumption)+)

lemma stable_getDecisions [go_keeps]: "go_inv (stable D) (getDecisions b)"
proof (rule stable_conj [OF inv_getDecisions])
  show "go_inv (payloads D) (getDecisions b)"
    unfolding getDecisions_def by (intro go_keeps payloads_from)
qed

section \<open>Workflow code\<close>

fun result_callback :: "scheduledData \<Rightarrow> callback option" where
  "result_callback NilData = None"
| "result_callback (scheduledTimer c _) = Some c"
| "result_callback (scheduledActivity c _ _) = Some c"
| "result_callback (scheduledChildWorkflow c _ _ _) = Some c"
| "result_callback (scheduledCancellation c _) = Some c"
| "result_callback (scheduledSignal c _) = Some c"

abbreviation env_data :: "workflowEnv \<Rightarrow> ref \<Rightarrow> scheduledData" where
  "env_data w \<equiv> data_of (env_decisionsHelper w)"

text \<open>
  A callback handle larger than every handle in the heap or in the trace.
\<close>

fun call_handle :: "envCall \<Rightarrow> callback" where
  "call_handle (ResultCall c _ _) = c"
| "call_handle _ = 0"

definition heap_handles :: "workflowEnv \<Rightarrow> callback list" where
  "heap_handles w = map (\<lambda>r. case result_callback (env_data w r) of None \<Rightarrow> 0 | Some c \<Rightarrow> c)
     [0..<nextRef (env_decisionsHelper w)]"

definition newCallback :: "workflowEnv \<Rightarrow> callback" where
  "newCallback w = Suc (fold max (heap_handles w @ map call_handle (env_calls w)) 0)"

definition withCallback :: "(callback \<Rightarrow> 'a ego) \<Rightarrow> 'a ego" where
  "withCallback command = go_bind (go_get newCallback) command"

text \<open>
  Workflow code reaches the environment only through its interface, and every closure it
  passes is a new one.  It may look at the environment, stop, or panic at any point.
\<close>

inductive workflow_code :: "unit ego \<Rightarrow> bool" where
  returns: "workflow_code (go_return ())"
| panics: "workflow_code (go_panic p)"
| asksTime: "(\<And>x. workflow_code (k x)) \<Longrightarrow> workflow_code (go_bind Now k)"
| asksReplay: "(\<And>x. workflow_code (k x)) \<Longrightarrow> workflow_code (go_bind IsReplaying k)"
| asksInfo: "(\<And>x. workflow_code (k x)) \<Longrightarrow> workflow_code (go_bind (go_get env_workflowInfo) k)"
| activity: "(\<And>x. workflow_code (k x)) \<Longrightarrow> workflow_code (go_bind (withCallback (ExecuteActivity ap)) k)"
| child: "(\<And>x. workflow_code (k x)) \<Longrightarrow>
    workflow_code (go_bind (withCallback (\<lambda>c. ExecuteChildWorkflow marshal cp c s)) k)"
| timer: "(\<And>x. workflow_code (k x)) \<Longrightarrow> workflow_code (go_bind (withCallback (NewTimer d)) k)"
| cancelExternal: "(\<And>x. workflow_code (k x)) \<Longrightarrow>
    workflow_code (go_bind (withCallback (RequestCancelExternalWorkflow i j l)) k)"
| signalExternal: "(\<And>x. workflow_code (k x)) \<Longrightarrow>
    workflow_code (go_bind (withCallback (SignalExternalWorkflow i j l n b oc)) k)"
| sideEffect: "(\<And>x. workflow_code (k x)) \<Longrightarrow> workflow_code (go_bind (withCallback (SideEffect f)) k)"
| cancelActivity: "(\<And>x. workflow_code (k x)) \<Longrightarrow> workflow_code (go_bind (RequestCancelActivity i) k)"
| cancelTimer: "(\<And>x. workflow_code (k x)) \<Longrightarrow> workflow_code (go_bind (RequestCancelTimer i) k)"
| cancelChild: "(\<And>x. workflow_code (k x)) \<Longrightarrow> workflow_code (go_bind (RequestCancelChildWorkflow i j) k)"
| upsert: "(\<And>x. workflow_code (k x)) \<Longrightarrow> workflow_code (go_bind (UpsertSearchAttributes marshal attrs) k)"
| localActivity: "(\<And>x. workflow_code (k x)) \<Longrightarrow> workflow_code (go_bind (ExecuteLocalActivity lp c) k)"
| cancelLocal: "(\<And>x. workflow_code (k x)) \<Longrightarrow> workflow_code (go_bind (RequestCancelLocalActivity i) k)"
| onCancel: "(\<And>x. workflow_code (k x)) \<Longrightarrow> workflow_code (go_bind (RegisterCancelHandler c) k)"
| onSignal: "(\<And>x. workflow_code (k x)) \<Longrightarrow> workflow_code (go_bind (RegisterSignalHandler c) k)"
| version: "(\<And>x. workflow_code (k x)) \<Longrightarrow> workflow_code (go_bind (GetVersion marshal i mn mx opts) k)"
| mutable: "(\<And>x. workflow_code (k x)) \<Longrightarrow> workflow_code (go_bind (MutableSideEffect i v eq) k)"
| openSession: "(\<And>x. workflow_code (k x)) \<Longrightarrow> workflow_code (go_bind (AddSession si) k)"
| closeSession: "(\<And>x. workflow_code (k x)) \<Longrightarrow> workflow_code (go_bind (RemoveSession i) k)"
| completes: "(\<And>x. workflow_code (k x)) \<Longrightarrow> workflow_code (go_bind (Complete b e) k)"

definition disciplined :: "workflowRegistry \<Rightarrow> bool" where
  "disciplined registry \<longleftrightarrow> (\<forall>t wd. registry t = Inr wd \<longrightarrow>
     workflow_code (wd_OnDecisionTaskStarted wd) \<and> (\<forall>header input. workflow_code (wd_Execute wd header input)))"

section \<open>Runs\<close>

text \<open>
  Runs: events are processed, local activity results are applied, and the task handler
  collects decisions, writes the information of the task, starts local activities and
  completes the workflow, in any order and with any results, panics included.
\<close>

inductive env_reachable :: "workflowRegistry \<Rightarrow> workflowEnv \<Rightarrow> bool" for registry where
  start: "env_reachable registry (newWorkflowExecutionEventHandler info dc)"
| event: "env_reachable registry w \<Longrightarrow>
    env_reachable registry (snd (ProcessEvent registry now st event isReplay isLast w))"
| localResult: "env_reachable registry w \<Longrightarrow>
    env_reachable registry (snd (ProcessLocalActivityResult registry now st lar w))"
| collect: "env_reachable registry w \<Longrightarrow> env_reachable registry (snd (lift (getDecisions b) w))"
| informed: "env_reachable registry w \<Longrightarrow> wi_RunID info = wi_RunID (env_workflowInfo w) \<Longrightarrow>
    env_reachable registry (w\<lparr>env_workflowInfo := info\<rparr>)"
| started: "env_reachable registry w \<Longrightarrow> env_reachable registry (w\<lparr>env_unstartedLaTasks := ids\<rparr>)"
| completed: "env_reachable registry w \<Longrightarrow> env_reachable registry (snd (Complete result err w))"

section \<open>Invariants of the environment\<close>

locale env_invariant =
  fixes I :: "workflowEnv \<Rightarrow> bool"
  assumes coherent: "I w \<Longrightarrow> helper_inv (env_decisionsHelper w)"
    and keep_helper: "I w \<Longrightarrow> helper_inv h \<Longrightarrow> data_of h = env_data w \<Longrightarrow> I (w\<lparr>env_decisionsHelper := h\<rparr>)"
    and keep_handles [go_keeps]:
      "go_inv I (scheduledTimer_handle r result err)"
      "go_inv I (scheduledActivity_handle r result err)"
      "go_inv I (scheduledChildWorkflow_handle r result err)"
      "go_inv I (scheduledCancellation_handle r result err)"
      "go_inv I (scheduledSignal_handle r result err)"
    and keep_issue [go_keeps]:
      "go_inv I (withCallback (ExecuteActivity ap))"
      "go_inv I (withCallback (\<lambda>c. ExecuteChildWorkflow marshal cp c s))"
      "go_inv I (withCallback (NewTimer d))"
      "go_inv I (withCallback (RequestCancelExternalWorkflow i j k))"
      "go_inv I (withCallback (SignalExternalWorkflow i j k l x b))"
      "go_inv I (withCallback (SideEffect f))"
    and keep_called [go_keeps]:
      "go_inv I (called (StartedCall c i j e))"
      "go_inv I (called (LocalActivityCall c lar))"
      "go_inv I (called (CancelHandlerCall c))"
      "go_inv I (called (SignalHandlerCall c i y))"
      "go_inv I (called (CompleteHandlerCall y e))"
    and keep_time [go_keeps]: "go_inv I (SetCurrentReplayTime now t)"
    and keep_frame:
      "(\<And>w. env_decisionsHelper (u w) = env_decisionsHelper w) \<Longrightarrow>
       (\<And>w. env_calls (u w) = env_calls w) \<Longrightarrow>
       (\<And>w. env_currentReplayTime (u w) = env_currentReplayTime w) \<Longrightarrow>
       (\<And>w. wi_RunID (env_workflowInfo (u w)) = wi_RunID (env_workflowInfo w)) \<Longrightarrow> go_inv I (go_modify u :: unit ego)"
begin

lemma keep_lift [go_keeps]:
  assumes "\<And>D. go_inv (stable D) m"
  shows "go_inv I (lift m)"
proof (rule go_invI)
  fix w assume w: "I w"
  have "stable (env_data w) (snd (m (env_decisionsHelper w)))"
    by (rule go_invD [OF assms]) (simp add: stable_def coherent [OF w])
  with keep_helper [OF w] show "I (snd (lift m w))"
    by (auto simp: lift_def stable_def split: prod.split)
qed

lemma as_data [go_keeps]:
  "go_inv I (asTimer r)" "go_inv I (asActivity r)" "go_inv I (asChildWorkflow r)"
  "go_inv I (asCancellation r)" "go_inv I (asSignal r)"
  unfolding asTimer_def asActivity_def asChildWorkflow_def asCancellation_def asSignal_def badAssertion_def
  by (intro go_keeps; simp split: scheduledData.split; intro conjI allI impI go_keeps)+

lemma sequence [go_keeps]:
  "go_inv I GenerateSequence" "go_inv I GenerateSequenceID" "go_inv I callNil" "go_inv I badAssertion"
  unfolding GenerateSequence_def GenerateSequenceID_def callNil_def badAssertion_def
  by (intro go_keeps keep_frame; simp)+

lemma simple_ops [go_keeps]:
  "go_inv I (Complete b e)"
  "go_inv I (nonNil p)"
  "go_inv I (constructErrorM reason details)"
  "go_inv I (updateWorkflowInfoWithSearchAttributes a)"
  "go_inv I (localActivityResultOf lamd)"
  "go_inv I (encodeArg v)"
  unfolding Complete_def nonNil_def constructErrorM_def
    updateWorkflowInfoWithSearchAttributes_def localActivityResultOf_def encodeArg_def
  by (intro go_keeps keep_frame; simp)+

lemma close [go_keeps]:
  "(\<And>r. go_inv I (f r)) \<Longrightarrow> go_inv I (closeActivity n f)"
  "(\<And>D i. go_inv (stable D) (op i)) \<Longrightarrow> (\<And>r s. go_inv I (g r s)) \<Longrightarrow>
   go_inv I (closeChildWorkflow op i g)"
  "go_inv I (settleCancellation b r e)"
  "go_inv I (settleSignal r e)"
  unfolding closeActivity_def closeChildWorkflow_def settleCancellation_def settleSignal_def
  by (intro go_keeps | assumption)+

lemma handlers [go_keeps]:
  "go_inv I (handleActivityTaskCompleted a1)"
  "go_inv I (handleActivityTaskFailed a2)"
  "go_inv I (handleActivityTaskTimedOut a3)"
  "go_inv I (handleActivityTaskCanceledEvent a4)"
  "go_inv I (handleTimerFired i)"
  "go_inv I handleWorkflowExecutionCancelRequested"
  "go_inv I (handleWorkflowExecutionSignaled a5)"
  "go_inv I (handleStartChildWorkflowExecutionFailedEvent i)"
  "go_inv I (handleChildWorkflowExecutionStartedEvent e)"
  "go_inv I (handleChildWorkflowExecutionCompleted a6)"
  "go_inv I (handleChildWorkflowExecutionFailed a7)"
  "go_inv I (handleChildWorkflowExecutionCanceledEvent a8)"
  "go_inv I (handleChildWorkflowExecutionTimedOut a9)"
  "go_inv I (handleChildWorkflowExecutionTerminated e)"
  "go_inv I (handleUpsertWorkflowSearchAttributes f)"
  "go_inv I (handleRequestCancelExternalInitiatedEvent n b1)"
  "go_inv I (handleExternalCancelRequestedEvent b2)"
  "go_inv I (handleRequestCancelExternalFailedEvent b3)"
  "go_inv I (handleSignalExternalCompletedEvent k)"
  "go_inv I (handleSignalExternalFailedEvent c k)"
  unfolding handleActivityTaskCompleted_def handleActivityTaskFailed_def handleActivityTaskTimedOut_def
    handleActivityTaskCanceledEvent_def handleTimerFired_def handleWorkflowExecutionCancelRequested_def
    handleWorkflowExecutionSignaled_def handleStartChildWorkflowExecutionFailedEvent_def
    handleChildWorkflowExecutionStartedEvent_def handleChildWorkflowExecutionCompleted_def
    handleChildWorkflowExecutionFailed_def handleChildWorkflowExecutionCanceledEvent_def
    handleChildWorkflowExecutionTimedOut_def handleChildWorkflowExecutionTerminated_def
    handleUpsertWorkflowSearchAttributes_def handleRequestCancelExternalInitiatedEvent_def
    handleExternalCancelRequestedEvent_def handleRequestCancelExternalFailedEvent_def
    handleSignalExternalCompletedEvent_def handleSignalExternalFailedEvent_def Let_def
  by (intro go_keeps)+

lemma commands [go_keeps]:
  "go_inv I (RequestCancelActivity i)"
  "go_inv I (RequestCancelTimer i)"
  "go_inv I (RequestCancelChildWorkflow i j)"
  "go_inv I (UpsertSearchAttributes marshal attrs)"
  "go_inv I (ExecuteLocalActivity lp c)"
  "go_inv I (RequestCancelLocalActivity i)"
  "go_inv I (RegisterCancelHandler c)"
  "go_inv I (RegisterSignalHandler c)"
  "go_inv I (AddSession si)"
  "go_inv I (RemoveSession i)"
  "go_inv I (validateVersion i v mn mx)"
  "go_inv I (encodeValue x)"
  "go_inv I (decodeValue dc b t)"
  "go_inv I (recordMutableSideEffect i b)"
  unfolding RequestCancelActivity_def RequestCancelTimer_def RequestCancelChildWorkflow_def
    UpsertSearchAttributes_def changeVersionUpsertID_def ExecuteLocalActivity_def
    RequestCancelLocalActivity_def RegisterCancelHandler_def RegisterSignalHandler_def AddSession_def
    RemoveSession_def validateVersion_def encodeValue_def decodeValue_def recordMutableSideEffect_def
  by (intro go_keeps keep_frame; auto split: goValue.split list.split option.split intro!: go_keeps)+

lemma more_commands [go_keeps]:
  "go_inv I (GetVersion marshal i mn mx opts)"
  "go_inv I (isEqualValue x b eq)"
  "go_inv I (MutableSideEffect i x eq)"
  unfolding GetVersion_def recordVersion_def isEqualValue_def MutableSideEffect_def Let_def
  by (intro go_keeps keep_frame; (simp add: isEqualValue_def)?; intro go_keeps)+

lemma keep_workflow_code: "workflow_code m \<Longrightarrow> go_inv I m"
proof (induction rule: workflow_code.induct)
  case (asksTime k)
  then show ?case unfolding Now_def by (intro go_keeps)
next
  case (asksReplay k)
  then show ?case unfolding IsReplaying_def by (intro go_keeps)
qed (intro go_keeps; assumption)+

lemma keep_onDecisionTaskStarted:
  "disciplined registry \<Longrightarrow> go_inv I (onDecisionTaskStarted registry)"
  unfolding onDecisionTaskStarted_def
  by (intro go_keeps keep_workflow_code) (simp add: disciplined_def)

lemma keep_handleWorkflowExecutionStarted:
  "disciplined registry \<Longrightarrow> go_inv I (handleWorkflowExecutionStarted registry a)"
  unfolding handleWorkflowExecutionStarted_def
  by (intro go_keeps keep_frame keep_workflow_code) (simp_all add: disciplined_def)

lemma markers:
  assumes "disciplined registry"
  shows "go_inv I (handleLocalActivityMarker registry now b)"
    and "go_inv I (handleMarkerRecorded registry now n a)"
proof -
  note [go_keeps] = keep_onDecisionTaskStarted [OF assms]
  show "go_inv I (handleLocalActivityMarker registry now b)" for b
    unfolding handleLocalActivityMarker_def
    by (intro go_keeps; (simp split: list.split goValue.split option.split)?; intro conjI allI impI go_keeps keep_frame; simp?)
  note [go_keeps] = this
  show "go_inv I (handleMarkerRecorded registry now n a)"
    unfolding handleMarkerRecorded_def Let_def
    by (intro go_keeps; (simp split: list.split goValue.split option.split)?; intro conjI allI impI go_keeps keep_frame; simp?)
qed

lemma keep_noError [go_keeps]: "go_inv I m \<Longrightarrow> go_inv I (noError m)"
  unfolding noError_def by (intro go_keeps)

lemma keep_dispatchEvent:
  assumes "disciplined registry"
  shows "go_inv I (dispatchEvent registry now event)"
proof -
  note [go_keeps] = keep_onDecisionTaskStarted [OF assms] keep_handleWorkflowExecutionStarted [OF assms]
    markers [OF assms]
  show ?thesis
    unfolding dispatchEvent_def
    by (cases "ev_EventType event"; simp only: EventType.case; intro go_keeps keep_frame; simp?)
qed

lemma keep_ProcessEvent:
  assumes "disciplined registry"
  shows "go_inv I (ProcessEvent registry now st event isReplay isLast)"
proof -
  note [go_keeps] = keep_onDecisionTaskStarted [OF assms] keep_dispatchEvent [OF assms]
  show ?thesis
    unfolding ProcessEvent_def processBody_def by (intro go_keeps keep_frame; simp)
qed

lemma keep_ProcessLocalActivityResult:
  assumes "disciplined registry"
  shows "go_inv I (ProcessLocalActivityResult registry now st lar)"
proof -
  note [go_keeps] = keep_ProcessEvent [OF assms]
  show ?thesis unfolding ProcessLocalActivityResult_def by (intro go_keeps)
qed


lemma collect_decisions: "go_inv I (lift (getDecisions b))"
  by (intro go_keeps)

lemma reachable:
  assumes "disciplined registry" and "\<And>info dc. I (newWorkflowExecutionEventHandler info dc)"
    and "env_reachable registry w"
  shows "I w"
  using assms(3)
proof (induction rule: env_reachable.induct)
  case (start info dc)
  show ?case by (rule assms(2))
next
  case (event w now st event isReplay isLast)
  show ?case by (rule go_invD [OF keep_ProcessEvent [OF assms(1)] event.IH])
next
  case (localResult w now st lar)
  show ?case by (rule go_invD [OF keep_ProcessLocalActivityResult [OF assms(1)] localResult.IH])
next
  case (collect w b)
  show ?case by (rule go_invD [OF collect_decisions collect.IH])
next
  case (informed w info)
  have "go_inv I (go_modify (\<lambda>w. if wi_RunID info = wi_RunID (env_workflowInfo w)
      then w\<lparr>env_workflowInfo := info\<rparr> else w) :: unit ego)" by (rule keep_frame) simp_all
  from go_invD [OF this informed.IH] show ?case using informed.hyps by (simp add: go_modify_def)
next
  case (started w ids)
  have "go_inv I (go_modify (env_unstartedLaTasks_update (\<lambda>_. ids)) :: unit ego)" by (rule keep_frame) simp_all
  from go_invD [OF this started.IH] show ?case by (simp add: go_modify_def)
next
  case (completed w result err)
  show ?case by (rule go_invD [OF simple_ops(1) completed.IH])
qed

end

end
