(* ===== verification/Callback_Safety.thy ===== *)
theory Callback_Safety
  imports Environment_Runs
begin

text \<open>
  Every callback that workflow code hands to the environment is called at most once, and a
  scheduled command's callback has been called exactly when its \<open>handled\<close> flag is set.
  The invariant \<open>cb_inv\<close> speaks about the heap of machines and the trace of calls; it is an
  instance of \<open>env_invariant\<close>.  Two more instances: the replay clock never goes back, and
  calls are never taken back.
\<close>

section \<open>The invariant\<close>

fun calls_result :: "callback \<Rightarrow> envCall \<Rightarrow> bool" where
  "calls_result c (ResultCall c' _ _) = (c = c')"
| "calls_result c _ = False"

definition call_count :: "callback \<Rightarrow> envCall list \<Rightarrow> nat" where
  "call_count c cs = length (filter (calls_result c) cs)"

definition once :: "(ref \<Rightarrow> scheduledData) \<Rightarrow> envCall list \<Rightarrow> bool" where
  "once D cs \<longleftrightarrow>
     (\<forall>r c. result_callback (D r) = Some c \<longrightarrow> call_count c cs = (if handled (D r) then 1 else 0)) \<and>
     (\<forall>r r' c. result_callback (D r) = Some c \<longrightarrow> result_callback (D r') = Some c \<longrightarrow> r = r') \<and>
     (\<forall>c. call_count c cs \<le> 1)"

definition fresh :: "callback \<Rightarrow> (ref \<Rightarrow> scheduledData) \<Rightarrow> envCall list \<Rightarrow> bool" where
  "fresh c D cs \<longleftrightarrow> call_count c cs = 0 \<and> (\<forall>r. result_callback (D r) \<noteq> Some c)"

definition cb_inv :: "workflowEnv \<Rightarrow> bool" where
  "cb_inv w \<longleftrightarrow> helper_inv (env_decisionsHelper w) \<and> once (env_data w) (env_calls w)"

text \<open>The part of the state the invariant looks at, held fixed.\<close>

definition frozen :: "(ref \<Rightarrow> scheduledData) \<Rightarrow> envCall list \<Rightarrow> workflowEnv \<Rightarrow> bool" where
  "frozen D cs w \<longleftrightarrow> stable D (env_decisionsHelper w) \<and> env_calls w = cs"

lemma frozen_lift [go_keeps]: "go_inv (stable D) m \<Longrightarrow> go_inv (frozen D cs) (lift m)"
  by (auto simp: go_inv_def frozen_def lift_def split: prod.splits)

lemma frozen_cb_inv:
  assumes "\<And>D cs. go_inv (frozen D cs) m"
  shows "go_inv cb_inv m"
proof (rule go_invI)
  fix w assume "cb_inv w"
  then show "cb_inv (snd (m w))"
    using go_invD [OF assms, of "env_data w" "env_calls w" w]
    by (simp add: cb_inv_def frozen_def stable_def)
qed

lemma frozen_modify:
  "(\<And>w. env_decisionsHelper (f w) = env_decisionsHelper w) \<Longrightarrow> (\<And>w. env_calls (f w) = env_calls w) \<Longrightarrow>
   go_inv (frozen D cs) (go_modify f)"
  by (rule go_inv_modify) (simp add: frozen_def)

lemma frozen_ops [go_keeps]:
  "go_inv (frozen D cs) GenerateSequence"
  "go_inv (frozen D cs) GenerateSequenceID"
  "go_inv (frozen D cs) callNil"
  "go_inv (frozen D cs) badAssertion"
  unfolding GenerateSequence_def GenerateSequenceID_def callNil_def badAssertion_def
  by (intro go_keeps frozen_modify; simp)+

lemma cb_lift [go_keeps]: "(\<And>D. go_inv (stable D) m) \<Longrightarrow> go_inv cb_inv (lift m)"
  by (rule frozen_cb_inv) (rule frozen_lift)

subsection \<open>Calling back\<close>

lemma call_count_append [simp]:
  "call_count c (cs @ [e]) = call_count c cs + (if calls_result c e then 1 else 0)"
  by (simp add: call_count_def)

lemma once_other_call: "(\<And>c. \<not> calls_result c e) \<Longrightarrow> once D (cs @ [e]) = once D cs"
  by (simp add: once_def)

lemma setHandled_simps [simp]:
  "result_callback (setHandled s) = result_callback s"
  "result_callback s \<noteq> None \<Longrightarrow> handled (setHandled s)"
  by (cases s; simp)+

lemma once_handle:
  assumes "once D cs" and "result_callback (D r) = Some c" and "\<not> handled (D r)"
  shows "once (D(r := setHandled (D r))) (cs @ [ResultCall c result err])"
  using assms unfolding once_def by (auto simp: fun_upd_def)

lemma once_new:
  assumes "once D cs" and "fresh c D cs" and "result_callback d = Some c" and "\<not> handled d"
  shows "once (D(r := d)) cs"
  using assms unfolding once_def fresh_def by (auto simp: fun_upd_def)

lemma once_call_fresh: "once D cs \<Longrightarrow> fresh c D cs \<Longrightarrow> once D (cs @ [ResultCall c result err])"
  unfolding once_def fresh_def by auto

lemma data_of_set: "machines h r = Some m \<Longrightarrow>
  data_of (h\<lparr>machines := (machines h)(r \<mapsto> m\<lparr>m_data := d\<rparr>)\<rparr>) = (data_of h)(r := d)"
  by (rule ext) (simp add: data_of_def)

lemma getData_cases:
  obtains "lift (getData r) w = (Inl nilDereference, w)"
  | m where "machines (env_decisionsHelper w) r = Some m" "lift (getData r) w = (Inr (m_data m), w)"
      "env_data w r = m_data m"
  by (cases "machines (env_decisionsHelper w) r")
    (auto simp: lift_def getData_def go_bind_def deref_def go_return_def data_of_def)

lemma lift_setData:
  assumes "machines (env_decisionsHelper w) r = Some m"
  shows "\<exists>h'. lift (setData r d) w = (Inr (), w\<lparr>env_decisionsHelper := h'\<rparr>)
    \<and> data_of h' = (env_data w)(r := d) \<and> (helper_inv (env_decisionsHelper w) \<longrightarrow> helper_inv h')"
proof -
  let ?h = "env_decisionsHelper w"
  have run: "setData r d ?h = (Inr (), ?h\<lparr>machines := (machines ?h)(r \<mapsto> m\<lparr>m_data := d\<rparr>)\<rparr>)"
    using assms by (simp add: setData_def go_simps)
  have "helper_inv ?h \<Longrightarrow> helper_inv (snd (setData r d ?h))"
    using go_invD [OF inv_setData] .
  with run data_of_set [OF assms] show ?thesis
    by (intro exI [of _ "?h\<lparr>machines := (machines ?h)(r \<mapsto> m\<lparr>m_data := d\<rparr>)\<rparr>"]) (simp add: lift_def)
qed

lemma cb_handleOnce:
  assumes "cb_inv w" and "machines (env_decisionsHelper w) r = Some m" and "m_data m = s"
    and "result_callback s = Some c"
  shows "cb_inv (snd (handleOnce what r s c result err w))"
proof (cases "handled s")
  case True
  with assms show ?thesis by (simp add: handleOnce_def go_panic_def)
next
  case False
  have D: "env_data w r = s" using assms(2,3) by (simp add: data_of_def)
  obtain h' where h': "lift (setData r (setHandled s)) w = (Inr (), w\<lparr>env_decisionsHelper := h'\<rparr>)"
    "data_of h' = (env_data w)(r := setHandled s)" "helper_inv h'"
    using lift_setData [OF assms(2)] assms(1) by (auto simp: cb_inv_def)
  from once_handle [of "env_data w" "env_calls w" r c] assms(1,4) False D h'
  show ?thesis by (simp add: handleOnce_def called_def go_simps cb_inv_def)
qed

lemma cb_after_getData:
  assumes "\<And>w m. cb_inv w \<Longrightarrow> machines (env_decisionsHelper w) r = Some m \<Longrightarrow> cb_inv (snd (f (m_data m) w))"
  shows "go_inv cb_inv (go_bind (lift (getData r)) f)"
proof (rule go_invI)
  fix w assume "cb_inv w"
  then show "cb_inv (snd (go_bind (lift (getData r)) f w))"
    by (rule_tac getData_cases [of r w]) (simp_all add: go_simps assms)
qed

lemma cb_scheduled_handle [go_keeps]:
  "go_inv cb_inv (scheduledTimer_handle r result err)"
  "go_inv cb_inv (scheduledActivity_handle r result err)"
  "go_inv cb_inv (scheduledChildWorkflow_handle r result err)"
  "go_inv cb_inv (scheduledCancellation_handle r result err)"
  "go_inv cb_inv (scheduledSignal_handle r result err)"
  unfolding scheduledTimer_handle_def scheduledActivity_handle_def scheduledChildWorkflow_handle_def
    scheduledCancellation_handle_def scheduledSignal_handle_def
  by (rule cb_after_getData, auto simp: badAssertion_def go_panic_def
      split: scheduledData.split intro: cb_handleOnce)+

lemma cb_called [go_keeps]:
  "go_inv cb_inv (called (StartedCall c i j e))"
  "go_inv cb_inv (called (LocalActivityCall c lar))"
  "go_inv cb_inv (called (CancelHandlerCall c))"
  "go_inv cb_inv (called (SignalHandlerCall c i b))"
  "go_inv cb_inv (called (CompleteHandlerCall b e))"
  unfolding called_def by (rule go_inv_modify, simp add: cb_inv_def once_other_call)+

section \<open>Environment commands\<close>

text \<open>A command is given a callback that is not in use yet: each Go closure is a new one.\<close>

definition issues :: "callback \<Rightarrow> 'a ego \<Rightarrow> bool" where
  "issues c m \<longleftrightarrow> (\<forall>w. cb_inv w \<longrightarrow> fresh c (env_data w) (env_calls w) \<longrightarrow> cb_inv (snd (m w)))"

lemma issues_inv: "go_inv cb_inv m \<Longrightarrow> issues c m"
  by (simp add: issues_def go_inv_def)

lemma issues_bind:
  assumes "\<And>D cs. go_inv (frozen D cs) m" and "\<And>a. issues c (f a)"
  shows "issues c (go_bind m f)"
  unfolding issues_def
proof (intro allI impI)
  fix w assume w: "cb_inv w" "fresh c (env_data w) (env_calls w)"
  have "frozen (env_data w) (env_calls w) (snd (m w))"
    by (rule go_invD [OF assms(1)]) (use w(1) in \<open>simp add: frozen_def stable_def cb_inv_def\<close>)
  with w assms(2) show "cb_inv (snd (go_bind m f w))"
    by (auto simp: go_bind_def issues_def frozen_def stable_def cb_inv_def split: prod.splits sum.splits)
qed

lemma issues_then:
  "(\<And>D cs. go_inv (frozen D cs) m) \<Longrightarrow> issues c k \<Longrightarrow> issues c (go_then m k)"
  unfolding go_then_def by (rule issues_bind)

lemma issues_setData:
  assumes "result_callback d = Some c" and "\<not> handled d"
  shows "issues c (lift (setData r d))"
  unfolding issues_def
proof (intro allI impI)
  fix w assume w: "cb_inv w" "fresh c (env_data w) (env_calls w)"
  show "cb_inv (snd (lift (setData r d) w))"
  proof (cases "machines (env_decisionsHelper w) r")
    case None
    with w(1) show ?thesis by (simp add: lift_def setData_def update_machine_def go_bind_def deref_def)
  next
    case (Some m)
    from lift_setData [OF this, of d] once_new [of "env_data w" "env_calls w" c d r] w assms
    show ?thesis by (auto simp: cb_inv_def)
  qed
qed

lemma issues_setData_then:
  assumes "result_callback d = Some c" and "\<not> handled d" and "go_inv cb_inv k"
  shows "issues c (go_then (lift (setData r d)) k)"
  using issues_setData [OF assms(1,2), of r] assms(3)
  by (auto simp: issues_def go_then_def go_bind_def go_inv_def split: prod.splits sum.splits)

lemma issues_called: "issues c (called (ResultCall c result err))"
  by (simp add: issues_def called_def go_modify_def cb_inv_def once_call_fresh)

lemma issues_called_then: "go_inv cb_inv k \<Longrightarrow> issues c (go_then (called (ResultCall c result err)) k)"
  by (simp add: issues_def called_def go_modify_def go_simps cb_inv_def once_call_fresh go_inv_def)

lemma issues_cases:
  "(b \<Longrightarrow> issues c m) \<Longrightarrow> (\<not> b \<Longrightarrow> issues c k) \<Longrightarrow> issues c (if b then m else k)"
  "(x = None \<Longrightarrow> issues c m) \<Longrightarrow> (\<And>a. x = Some a \<Longrightarrow> issues c (f a)) \<Longrightarrow>
   issues c (case x of None \<Rightarrow> m | Some a \<Rightarrow> f a)"
  "(\<And>e. y = Inl e \<Longrightarrow> issues c (g e)) \<Longrightarrow> (\<And>a. y = Inr a \<Longrightarrow> issues c (h a)) \<Longrightarrow>
   issues c (case y of Inl e \<Rightarrow> g e | Inr a \<Rightarrow> h a)"
  "(\<And>a b. z = (a, b) \<Longrightarrow> issues c (p a b)) \<Longrightarrow> issues c (case z of (a, b) \<Rightarrow> p a b)"
  by (simp, cases x, simp_all, cases y, simp_all, cases z, simp)

lemmas issues_intros =
  issues_setData_then issues_called_then issues_setData issues_called issues_bind issues_then issues_cases

lemma issues_commands:
  "issues c (ExecuteActivity ap c)"
  "issues c (ExecuteChildWorkflow marshal cp c s)"
  "issues c (NewTimer d c)"
  "issues c (RequestCancelExternalWorkflow i j k c)"
  "issues c (SignalExternalWorkflow i j k l x b c)"
  "issues c (SideEffect f c)"
  unfolding ExecuteActivity_def ExecuteChildWorkflow_def NewTimer_def RequestCancelExternalWorkflow_def
    SignalExternalWorkflow_def SideEffect_def childWorkflowID_def Let_def
  by (intro issues_intros go_keeps issues_inv [OF go_inv_return] issues_inv [OF go_inv_panic]; simp)+

lemma fold_max_ge: "(x :: nat) \<in> set xs \<Longrightarrow> x \<le> fold max xs a"
proof -
  have "fold max xs a = Max (insert a (set xs))" by (simp add: Max.set_eq_fold [symmetric])
  then show "x \<in> set xs \<Longrightarrow> x \<le> fold max xs a" by simp
qed

lemma fresh_newCallback:
  assumes "helper_inv (env_decisionsHelper w)"
  shows "fresh (newCallback w) (env_data w) (env_calls w)"
  unfolding fresh_def
proof (intro conjI allI notI)
  have below: "x < newCallback w" if "x \<in> set (heap_handles w) \<union> call_handle ` set (env_calls w)" for x
    using that fold_max_ge [of x "heap_handles w @ map call_handle (env_calls w)" 0]
    by (auto simp: newCallback_def less_Suc_eq_le)
  have "\<not> calls_result (newCallback w) e" if "e \<in> set (env_calls w)" for e
  proof -
    have "call_handle e < newCallback w" using below that by blast
    then show ?thesis by (cases e) auto
  qed
  then show "call_count (newCallback w) (env_calls w) = 0"
    by (simp add: call_count_def filter_empty_conv)
  fix r assume c: "result_callback (env_data w r) = Some (newCallback w)"
  then have "r < nextRef (env_decisionsHelper w)"
    using helper_inv_bound [OF assms, of r] by (auto simp: data_of_def split: option.splits)
  with c have "newCallback w \<in> set (heap_handles w)" by (force simp: heap_handles_def)
  with below show False by blast
qed

lemma cb_withCallback:
  assumes "\<And>c. issues c (command c)"
  shows "go_inv cb_inv (withCallback command)"
proof (rule go_invI)
  fix w assume w: "cb_inv w"
  then have "fresh (newCallback w) (env_data w) (env_calls w)"
    by (intro fresh_newCallback) (simp add: cb_inv_def)
  with w assms [of "newCallback w"] show "cb_inv (snd (withCallback command w))"
    by (simp add: withCallback_def issues_def go_simps)
qed

lemmas cb_issued_commands = issues_commands [THEN cb_withCallback]

section \<open>The instances\<close>

interpretation cb: env_invariant cb_inv
proof (unfold_locales, goal_cases)
  case (1 w)
  then show ?case by (simp add: cb_inv_def)
next
  case (2 w h)
  then show ?case by (simp add: cb_inv_def)
next
  case (19 now t)
  then show ?case by (rule frozen_cb_inv) (unfold SetCurrentReplayTime_def, intro go_keeps frozen_modify; simp)
next
  case (20 u)
  then show ?case by (intro frozen_cb_inv frozen_modify)
qed (rule cb_scheduled_handle cb_issued_commands cb_called)+

lemma reachable_cb_inv:
  assumes "disciplined registry" and "env_reachable registry w"
  shows "cb_inv w"
proof (rule cb.reachable [OF assms(1) _ assms(2)])
  fix info dc
  have "data_of newDecisionsHelper = (\<lambda>_. NilData)"
    by (rule ext) (simp add: data_of_def newDecisionsHelper_def)
  then show "cb_inv (newWorkflowExecutionEventHandler info dc)"
    by (simp add: cb_inv_def newWorkflowExecutionEventHandler_def helper_inv_new once_def call_count_def)
qed

end
