(* ===== verification/Environment_Progress.thy ===== *)
theory Environment_Progress
  imports Callback_Safety "HOL-Library.Sublist"
begin

text \<open>
  What every operation of the workflow environment and of the event handler keeps: the calls
  made so far, the direction of the clock and the run the handler is for.
\<close>

section \<open>Progress\<close>

text \<open>The replay clock never goes back, calls are never taken back, and the run stays the same.\<close>

definition progress :: "envCall list \<Rightarrow> int \<Rightarrow> string \<Rightarrow> workflowEnv \<Rightarrow> bool" where
  "progress cs t run w \<longleftrightarrow> helper_inv (env_decisionsHelper w) \<and> prefix cs (env_calls w)
     \<and> t \<le> env_currentReplayTime w \<and> wi_RunID (env_workflowInfo w) = run"

lemma progress_lift [go_keeps]: "go_inv helper_inv m \<Longrightarrow> go_inv (progress cs t run) (lift m)"
  by (auto simp: go_inv_def progress_def lift_def split: prod.splits)

lemma progress_called [go_keeps]: "go_inv (progress cs t run) (called c)"
  unfolding called_def by (rule go_inv_modify) (simp add: progress_def prefix_prefix)

lemma progress_frame:
  "(\<And>w. env_decisionsHelper (u w) = env_decisionsHelper w) \<Longrightarrow> (\<And>w. env_calls (u w) = env_calls w) \<Longrightarrow>
   (\<And>w. env_currentReplayTime (u w) = env_currentReplayTime w) \<Longrightarrow>
   (\<And>w. wi_RunID (env_workflowInfo (u w)) = wi_RunID (env_workflowInfo w)) \<Longrightarrow> go_inv (progress cs t run) (go_modify u)"
  by (rule go_inv_modify) (simp add: progress_def)

lemma progress_time [go_keeps]: "go_inv (progress cs t run) (SetCurrentReplayTime now u)"
  by (rule go_invI) (auto simp: SetCurrentReplayTime_def progress_def go_simps)

lemma inv_getData [go_keeps]: "go_inv helper_inv (getData r)"
  unfolding getData_def by (intro go_keeps)

lemma inv_recordSideEffectMarker [go_keeps]: "go_inv helper_inv (recordSideEffectMarker i d)"
  unfolding recordSideEffectMarker_def by (intro go_keeps)

lemma progress_handleOnce [go_keeps]: "go_inv (progress cs t run) (handleOnce what r s c b e)"
  unfolding handleOnce_def by (intro go_keeps)

lemma progress_handles [go_keeps]:
  "go_inv (progress cs t run) (scheduledTimer_handle r result err)"
  "go_inv (progress cs t run) (scheduledActivity_handle r result err)"
  "go_inv (progress cs t run) (scheduledChildWorkflow_handle r result err)"
  "go_inv (progress cs t run) (scheduledCancellation_handle r result err)"
  "go_inv (progress cs t run) (scheduledSignal_handle r result err)"
  unfolding scheduledTimer_handle_def scheduledActivity_handle_def scheduledChildWorkflow_handle_def
    scheduledCancellation_handle_def scheduledSignal_handle_def badAssertion_def
  by (intro go_keeps; simp split: scheduledData.split; intro conjI allI impI go_keeps)+

lemma progress_sequence [go_keeps]:
  "go_inv (progress cs t run) GenerateSequence" "go_inv (progress cs t run) GenerateSequenceID"
  unfolding GenerateSequence_def GenerateSequenceID_def by (intro go_keeps progress_frame; simp)+

lemma progress_commands:
  "go_inv (progress cs t run) (withCallback (ExecuteActivity ap))"
  "go_inv (progress cs t run) (withCallback (\<lambda>c. ExecuteChildWorkflow marshal cp c s))"
  "go_inv (progress cs t run) (withCallback (NewTimer d))"
  "go_inv (progress cs t run) (withCallback (RequestCancelExternalWorkflow i j k))"
  "go_inv (progress cs t run) (withCallback (SignalExternalWorkflow i j k l x b))"
  "go_inv (progress cs t run) (withCallback (SideEffect f))"
  unfolding withCallback_def ExecuteActivity_def ExecuteChildWorkflow_def NewTimer_def
    RequestCancelExternalWorkflow_def SignalExternalWorkflow_def SideEffect_def childWorkflowID_def Let_def
  by (intro go_keeps progress_frame)+

interpretation progress: env_invariant "progress cs t run" for cs t run
proof (unfold_locales, goal_cases)
  case (1 w)
  then show ?case by (simp add: progress_def)
next
  case (2 w h)
  then show ?case by (simp add: progress_def)
next
  case (20 u)
  then show ?case by (rule progress_frame)
qed (rule progress_handles progress_commands progress_called progress_time)+

end
