(* ===== verification/Environment_Properties.thy ===== *)
theory Environment_Properties
  imports Environment_Progress
begin

text \<open>
  The properties of the workflow environment and the event handler, with their witnesses.
\<close>

section \<open>Callbacks\<close>

text \<open>
  (C12) Result callbacks are called at most once.  In every state the event handler can reach,
  whatever events arrive and whatever disciplined workflow code asks for, no result callback has
  been called twice, and the result callback of a scheduled activity, timer, child workflow,
  cancellation or signal has been called exactly when its \<open>handled\<close> flag is set.  The calls
  counted are those of a result or error (\<open>ResultCall\<close>); the callback that tells that a child
  workflow has started and the callbacks of local activities are not among them.
\<close>

theorem callbacks_at_most_once:
  assumes "disciplined registry" and "env_reachable registry w"
  shows "call_count c (env_calls w) \<le> 1
    \<and> (result_callback (env_data w r) = Some c \<longrightarrow>
         call_count c (env_calls w) = (if handled (env_data w r) then 1 else 0))"
  using reachable_cb_inv [OF assms] by (simp add: cb_inv_def once_def)

text \<open>A workflow that schedules one activity when it starts and does nothing on resumption.\<close>

definition ex_params :: executeActivityParams where
  "ex_params = \<lparr>eap_ActivityID = None, eap_TaskListName = ''tl'', eap_TaskListKind = TaskListKindNormal,
     eap_ScheduleToCloseTimeoutSeconds = 10, eap_ScheduleToStartTimeoutSeconds = 10,
     eap_StartToCloseTimeoutSeconds = 10, eap_HeartbeatTimeoutSeconds = 10,
     eap_WaitForCancellation = False, eap_RetryPolicy = None, eap_ActivityType = ''act'',
     eap_Input = [], eap_Header = None\<rparr>"

definition ex_registry :: workflowRegistry where
  "ex_registry t = Inr \<lparr>
     wd_Execute = (\<lambda>_ _. go_bind (withCallback (ExecuteActivity ex_params)) (\<lambda>_. go_return ())),
     wd_OnDecisionTaskStarted = go_return ()\<rparr>"

lemma ex_registry_disciplined: "disciplined ex_registry"
  by (auto simp: disciplined_def ex_registry_def intro: workflow_code.intros)

definition ex_info :: WorkflowInfo where
  "ex_info = \<lparr>wi_WorkflowType = ''wf'', wi_ID = ''id'', wi_RunID = ''run'', wi_OriginalRunId = [],
     wi_TaskListName = ''tl'', wi_SearchAttributes = None, wi_DecisionStartedEventID = 0,
     wi_TotalHistoryBytes = 0, wi_ExecutionStartToCloseTimeoutSeconds = 60, wi_TaskStartToCloseTimeoutSeconds = 10,
     wi_Domain = ''domain'', wi_Attempt = 0, wi_lastCompletionResult = None, wi_CronSchedule = None,
     wi_ContinuedExecutionRunID = None, wi_ParentWorkflowDomain = None, wi_ParentWorkflowExecution = None,
     wi_Memo = None, wi_RetryPolicy = None, wi_BinaryChecksum = None, wi_HistoryBytesServer = 0,
     wi_HistoryCount = 0\<rparr>"

definition event_of :: "int \<Rightarrow> EventType \<Rightarrow> HistoryEvent option" where
  "event_of n t = Some \<lparr>ev_EventId = Some n, ev_Timestamp = Some (n * Second), ev_EventType = t\<rparr>"

definition ex_started :: "HistoryEvent option" where
  "ex_started = event_of 1 (EventTypeWorkflowExecutionStarted (Some
     \<lparr>wes_Input = None, wes_ContinuedFailureDetails = None, wes_LastCompletionResult = None,
      wes_Memo = None, wes_Header = None, wes_SearchAttributes = None,
      wes_TaskList = Some \<lparr>tl_Name = Some ''tl'', tl_Kind = None\<rparr>, wes_OriginalExecutionRunId = None,
      wes_ExecutionStartToCloseTimeoutSeconds = Some 60, wes_TaskStartToCloseTimeoutSeconds = Some 10,
      wes_Attempt = None, wes_CronSchedule = None, wes_ContinuedExecutionRunId = None,
      wes_ParentWorkflowDomain = None, wes_ParentWorkflowExecution = None, wes_RetryPolicy = None\<rparr>))"

definition ex_env :: workflowEnv where
  "ex_env = snd (ProcessEvent ex_registry 0 [] ex_started False False
     (newWorkflowExecutionEventHandler ex_info pairConverter))"

lemma ex_env_reachable: "env_reachable ex_registry ex_env"
  unfolding ex_env_def by (intro env_reachable.intros)

lemma ex_env_data: "env_data ex_env 0 = scheduledActivity 1 False False"
  by code_simp

theorem callbacks_at_most_once_witness:
  "disciplined ex_registry \<and> env_reachable ex_registry ex_env
   \<and> result_callback (env_data ex_env 0) = Some 1 \<and> call_count 1 (env_calls ex_env) = 0"
  using callbacks_at_most_once [OF ex_registry_disciplined ex_env_reachable, of 1 0]
    ex_registry_disciplined ex_env_reachable by (simp add: ex_env_data)

text \<open>
  (C15) Processing an event, whatever it is and whether or not a handler panics, only extends
  the trace of calls and never moves the replay clock back.
\<close>

theorem ProcessEvent_progress:
  assumes "disciplined registry" and "helper_inv (env_decisionsHelper w)"
  shows "prefix (env_calls w) (env_calls (snd (ProcessEvent registry now st event isReplay isLast w)))
    \<and> env_currentReplayTime w
       \<le> env_currentReplayTime (snd (ProcessEvent registry now st event isReplay isLast w))"
proof -
  have "progress (env_calls w) (env_currentReplayTime w) (wi_RunID (env_workflowInfo w))
      (snd (ProcessEvent registry now st event isReplay isLast w))"
    by (rule go_invD [OF progress.keep_ProcessEvent [OF assms(1)]]) (simp add: progress_def assms(2))
  then show ?thesis by (simp add: progress_def)
qed

theorem ProcessEvent_progress_witness:
  "zeroTime \<le> env_currentReplayTime
     (snd (ProcessEvent ex_registry 0 [] (event_of 2 (EventTypeDecisionTaskStarted None)) False False
       (newWorkflowExecutionEventHandler ex_info pairConverter)))"
  using ProcessEvent_progress [OF ex_registry_disciplined, of
      "newWorkflowExecutionEventHandler ex_info pairConverter" 0 "[]"
      "event_of 2 (EventTypeDecisionTaskStarted None)" False False]
  by (simp add: newWorkflowExecutionEventHandler_def helper_inv_new)

section \<open>Outcomes of activities\<close>

text \<open>
  What a closing event means to the workflow: the scheduled event it closes, and the result
  or error.  A timeout of an activity that failed before reports that failure.
\<close>

definition activity_outcome ::
  "DataConverter \<Rightarrow> EventType \<Rightarrow> (int \<times> nbytes \<times> goError option) option" where
  "activity_outcome dc t = (case t of
      EventTypeActivityTaskCompleted (Some a) \<Rightarrow>
        Some (get_int (atc_ScheduledEventId a), atc_Result a, None)
    | EventTypeActivityTaskFailed (Some a) \<Rightarrow> (case atf_Reason a of
        None \<Rightarrow> None
      | Some reason \<Rightarrow> (case constructError reason (atf_Details a) dc of
          Inl _ \<Rightarrow> None
        | Inr err \<Rightarrow> Some (get_int (atf_ScheduledEventId a), None, Some err)))
    | EventTypeActivityTaskTimedOut (Some a) \<Rightarrow>
        if get_str (att_LastFailureReason a) \<noteq> [] \<and> att_TimeoutType a \<in> {None, Some TimeoutTypeStartToClose}
        then (case constructError (get_str (att_LastFailureReason a)) (att_LastFailureDetails a) dc of
            Inl _ \<Rightarrow> None
          | Inr err \<Rightarrow> Some (get_int (att_ScheduledEventId a), None, Some err))
        else Some (get_int (att_ScheduledEventId a), None,
          Some (TimeoutError (case att_TimeoutType a of None \<Rightarrow> 0 | Some x \<Rightarrow> x)
                 (Some (EncodedValues (att_Details a)))))
    | _ \<Rightarrow> None)"

lemma close_activity_run:
  assumes inv: "helper_inv (env_decisionsHelper w)"
    and n: "scheduledEventIDToActivityID (env_decisionsHelper w) n = Some i"
    and m: "m \<in> set (contents (env_decisionsHelper w))"
    and i: "m_id m = makeDecisionID decisionTypeActivity i"
    and s: "next_state (kind_tag (m_kind m)) EvCompletion (m_state m) = Some s"
    and d: "m_data m = scheduledActivity c wait False"
  obtains r w1 where "\<And>f. closeActivity (Some n) f w = f r w1"
    and "\<And>result err. \<exists>w2. scheduledActivity_handle r result err w1 = (Inr (), w2)
           \<and> env_calls w2 = env_calls w @ [ResultCall c result err]
           \<and> env_workflowInfo w2 = env_workflowInfo w"
    and "env_dataConverter w1 = env_dataConverter w"
proof -
  let ?h = "env_decisionsHelper w"
  from onDecision_accepts [OF inv m s] obtain r h' m' where
    1: "onDecision (m_id m) (send EvCompletion) ?h = (Inr r, h')" "helper_inv h'" "machines h' r = Some m'"
    "m_data m' = m_data m" .
  let ?w1 = "w\<lparr>env_decisionsHelper := h'\<rparr>"
  have closed: "lift (handleActivityTaskClosed i) w = (Inr r, ?w1)"
    using 1(1) by (simp add: lift_def handleActivityTaskClosed_def i)
  have getid: "lift (getActivityID (Some n)) w = (Inr i, w)"
    using n by (simp add: lift_def getActivityID_def go_simps)
  have data: "lift (getData r) ?w1 = (Inr (scheduledActivity c wait False), ?w1)"
    using 1(3,4) d by (simp add: lift_def getData_def go_simps)
  have as: "asActivity r ?w1 = (Inr (scheduledActivity c wait False), ?w1)"
    using data by (simp add: asActivity_def go_simps)
  have "closeActivity (Some n) f w = f r ?w1" for f
    using closed getid as by (simp add: closeActivity_def go_simps)
  moreover have "\<exists>w2. scheduledActivity_handle r result err ?w1 = (Inr (), w2)
      \<and> env_calls w2 = env_calls w @ [ResultCall c result err]
      \<and> env_workflowInfo w2 = env_workflowInfo w" for result err
    using lift_setData [of ?w1 r m' "scheduledActivity c wait True"] 1(3) data
    by (auto simp: scheduledActivity_handle_def handleOnce_def called_def go_simps)
  ultimately show ?thesis using that [of r ?w1] by simp
qed

lemma processBody_run:
  assumes "ev_EventType e = t" and "dispatchEvent registry now e (w\<lparr>env_isReplay := isReplay\<rparr>) = (Inr None, w1)"
  shows "ProcessEvent registry now st (Some e) isReplay False w =
    (Inr None, w1\<lparr>env_workflowInfo := (env_workflowInfo w1)\<lparr>wi_TotalHistoryBytes :=
       wi_TotalHistoryBytes (env_workflowInfo w1) + word_of_int (estimateHistorySize e)\<rparr>\<rparr>)"
  using assms by (simp add: ProcessEvent_def go_recover_def processBody_def go_simps)

lemma activity_outcome_dispatch:
  assumes "activity_outcome (env_dataConverter w) (ev_EventType e) = Some (n, result, err)"
    and "\<And>f. closeActivity (Some n) f w = f r w1"
    and "env_dataConverter w1 = env_dataConverter w"
    and "scheduledActivity_handle r result err w1 = (Inr (), w2)"
  shows "dispatchEvent registry now e w = (Inr None, w2)"
proof -
  have close: "closeActivity (Some k) f w = f r w1" if "get_int (Some k) = n" for k f
    using assms(2) that by simp
  have nil: "closeActivity None f w = f r w1" if "n = 0" for f
    using assms(2) [of f] that by (simp add: closeActivity_def)
  have close': "closeActivity x f w = f r w1" if "get_int x = n" for x f
    using close nil that by (cases x) auto
  show ?thesis
  proof (cases "ev_EventType e")
    case (EventTypeActivityTaskCompleted a)
    with assms(1,4) show ?thesis
      by (auto simp: dispatchEvent_def noError_def activity_outcome_def handleActivityTaskCompleted_def
          field_def close' nonNil_def go_simps split: option.splits)
  next
    case (EventTypeActivityTaskFailed a)
    with assms(1,3,4) show ?thesis
      by (auto simp: dispatchEvent_def noError_def activity_outcome_def handleActivityTaskFailed_def
          field_def close' nonNil_def constructErrorM_def go_bind_assoc go_simps
          split: option.splits sum.splits)
  next
    case (EventTypeActivityTaskTimedOut a)
    with assms(1,3,4) show ?thesis
      by (auto simp: dispatchEvent_def noError_def activity_outcome_def handleActivityTaskTimedOut_def
          field_def close' nonNil_def constructErrorM_def timeoutType_defs NewTimeoutError_def variadic_def
          newEncodedValues_def go_bind_assoc go_simps split: option.splits sum.splits if_splits)
  qed (use assms(1) in \<open>simp_all add: activity_outcome_def\<close>)
qed

text \<open>
  (C13) The outcome of an activity reaches the workflow.  When an event closes an activity
  whose callback is still open, and the machine's diagram allows the completion, processing
  the event succeeds and calls that callback, once, with the result, the failure rebuilt
  from its reason and details, or the timeout, which for a retried activity is the last
  failure.
\<close>

theorem activity_outcome_delivered:
  assumes "helper_inv (env_decisionsHelper w)"
    and "activity_outcome (env_dataConverter w) (ev_EventType e) = Some (n, result, err)"
    and "scheduledEventIDToActivityID (env_decisionsHelper w) n = Some i"
    and "m \<in> set (contents (env_decisionsHelper w))"
    and "m_id m = makeDecisionID decisionTypeActivity i"
    and "next_state (kind_tag (m_kind m)) EvCompletion (m_state m) \<noteq> None"
    and "m_data m = scheduledActivity c wait False"
  shows "\<exists>w'. ProcessEvent registry now st (Some e) isReplay False w = (Inr None, w')
           \<and> env_calls w' = env_calls w @ [ResultCall c result err]"
proof -
  let ?w = "w\<lparr>env_isReplay := isReplay\<rparr>"
  from assms(6) obtain s where s: "next_state (kind_tag (m_kind m)) EvCompletion (m_state m) = Some s" by blast
  from close_activity_run [of ?w n i m s c wait] assms(1,3-5,7) s
  obtain r w1 where run: "\<And>f. closeActivity (Some n) f ?w = f r w1"
    and h: "\<exists>w2. scheduledActivity_handle r result err w1 = (Inr (), w2)
        \<and> env_calls w2 = env_calls w @ [ResultCall c result err]"
    and dc: "env_dataConverter w1 = env_dataConverter ?w" by (auto; metis)
  from h obtain w2 where h2: "scheduledActivity_handle r result err w1 = (Inr (), w2)"
    "env_calls w2 = env_calls w @ [ResultCall c result err]" by blast
  have "dispatchEvent registry now e ?w = (Inr None, w2)"
    by (rule activity_outcome_dispatch [OF _ run dc h2(1)]) (use assms(2) in simp)
  from processBody_run [OF refl this] h2(2) show ?thesis by simp
qed

text \<open>The activity's decision is sent and the service reports it scheduled as event 5.\<close>

definition ex_running :: workflowEnv where
  "ex_running = snd (ProcessEvent ex_registry 0 []
     (event_of 5 (EventTypeActivityTaskScheduled (Some \<lparr>ats_ActivityId = Some ''0'',
        ats_ActivityType = Some ''act'', ats_TaskList = None, ats_Input = None, ats_Header = None\<rparr>)))
     False False (snd (lift (getDecisions True) ex_env)))"

lemma ex_running_reachable: "env_reachable ex_registry ex_running"
  unfolding ex_running_def by (intro env_reachable.intros ex_env_reachable)

lemma ex_running_contents:
  "map (\<lambda>m. (m_id m, m_state m, m_data m, kind_tag (m_kind m))) (contents (env_decisionsHelper ex_running)) =
     [(makeDecisionID decisionTypeActivity ''0'', decisionStateInitiated, scheduledActivity 1 False False, ActivityKind)]"
  by code_simp

lemma ex_running_inv: "helper_inv (env_decisionsHelper ex_running)"
  by (rule cb.coherent [OF reachable_cb_inv [OF ex_registry_disciplined ex_running_reachable]])

lemma ex_running_machine:
  obtains m where "m \<in> set (contents (env_decisionsHelper ex_running))"
    and "m_id m = makeDecisionID decisionTypeActivity ''0''" and "m_state m = decisionStateInitiated"
    and "m_data m = scheduledActivity 1 False False" and "kind_tag (m_kind m) = ActivityKind"
proof -
  obtain m where "contents (env_decisionsHelper ex_running) = [m]"
    using ex_running_contents by (cases "contents (env_decisionsHelper ex_running)") auto
  with that ex_running_contents show ?thesis by simp
qed

lemma ex_running_simps:
  "scheduledEventIDToActivityID (env_decisionsHelper ex_running) 5 = Some ''0''" "env_calls ex_running = []"
  by code_simp+

definition ex_completed :: HistoryEvent where
  "ex_completed = \<lparr>ev_EventId = Some 7, ev_Timestamp = Some 0, ev_EventType =
     EventTypeActivityTaskCompleted (Some \<lparr>atc_Result = Some ''ok'', atc_ScheduledEventId = Some 5, atc_Identity = None\<rparr>)\<rparr>"

theorem activity_outcome_delivered_witness:
  "\<exists>w'. ProcessEvent ex_registry 0 [] (Some ex_completed) False False ex_running = (Inr None, w')
     \<and> env_calls w' = [ResultCall 1 (Some ''ok'') None]"
proof -
  obtain m where "m \<in> set (contents (env_decisionsHelper ex_running))"
    "m_id m = makeDecisionID decisionTypeActivity ''0''" "m_state m = decisionStateInitiated"
    "m_data m = scheduledActivity 1 False False" "kind_tag (m_kind m) = ActivityKind"
    by (rule ex_running_machine)
  with activity_outcome_delivered [OF ex_running_inv, of ex_completed 5 "Some ''ok''" None "''0''" m 1 False
      ex_registry 0 "[]" False]
  show ?thesis
    by (simp add: ex_running_simps ex_completed_def activity_outcome_def next_state_def edge_defs)
qed

lemma closeActivity_get_int: "closeActivity (Some (get_int x)) = closeActivity x"
  by (rule ext)+ (simp add: closeActivity_def)

lemma activity_outcome_ignored:
  assumes "activity_outcome (env_dataConverter w) (ev_EventType e) = Some (n, result, err)"
    and "\<And>f. closeActivity (Some n) f w = (Inr (), w1)"
  shows "dispatchEvent registry now e w = (Inr None, w1)"
proof -
  have "closeActivity x f w = (Inr (), w1)" if "get_int x = n" for x f
    using assms(2) closeActivity_get_int [of x] that by simp
  with assms(1) show ?thesis
    by (cases "ev_EventType e") (auto simp: dispatchEvent_def noError_def activity_outcome_def field_def
        handleActivityTaskCompleted_def handleActivityTaskFailed_def handleActivityTaskTimedOut_def go_simps
        split: option.splits sum.splits if_splits)
qed

lemma cancel_activity_run:
  assumes inv: "helper_inv (env_decisionsHelper w)"
    and m: "m \<in> set (contents (env_decisionsHelper w))"
    and i: "m_id m = makeDecisionID decisionTypeActivity i"
    and s: "m_state m = decisionStateInitiated" and k: "kind_tag (m_kind m) = ActivityKind"
    and d: "m_data m = scheduledActivity c False False"
  obtains h1 m1 where "RequestCancelActivity i w =
      (Inr (), w\<lparr>env_decisionsHelper := h1, env_calls := env_calls w @ [ResultCall c None (Some ErrCanceled)]\<rparr>)"
    and "helper_inv h1" and "m1 \<in> set (contents h1)" and "m_id m1 = m_id m"
    and "m_state m1 = decisionStateCanceledAfterInitiated" and "kind_tag (m_kind m1) = ActivityKind"
    and "m_data m1 = scheduledActivity c False True"
    and "scheduledEventIDToActivityID h1 = scheduledEventIDToActivityID (env_decisionsHelper w)"
proof -
  let ?h = "env_decisionsHelper w" and ?s = decisionStateCanceledAfterInitiated
  have cancels: "next_state (kind_tag (m_kind m)) EvCancel (m_state m) = Some ?s"
    by (simp add: s k next_state_def edge_defs)
  from onDecision_accepts [OF inv m cancels] obtain r h' m' where
    1: "onDecision (m_id m) (send EvCancel) ?h = (Inr r, h')" "helper_inv h'" "machines h' r = Some m'"
    "m_id m' = m_id m" "m_state m' = ?s" "m_data m' = m_data m" "kind_tag (m_kind m') = kind_tag (m_kind m)" .
  have listed: "r \<in> set (orderedDecisions h')"
    by (rule onDecision_listed [OF 1(1) inv 1(3)]) (simp add: 1(5))
  let ?m1 = "m'\<lparr>m_data := scheduledActivity c False True\<rparr>"
  let ?h1 = "h'\<lparr>machines := (machines h')(r \<mapsto> ?m1)\<rparr>"
  have inv1: "helper_inv ?h1" by (rule helper_inv_update [OF 1(2,3)]) (simp_all add: 1(5))
  have ids: "scheduledEventIDToActivityID h' = scheduledEventIDToActivityID ?h"
    using go_invD [OF frame_onDecision, of ?h _ "m_id m" EvCancel] 1(1) by simp
  have req: "requestCancelActivityTask i ?h = (Inr r, h')"
    using 1(1) by (simp add: requestCancelActivityTask_def i)
  have "RequestCancelActivity i w =
      (Inr (), w\<lparr>env_decisionsHelper := ?h1, env_calls := env_calls w @ [ResultCall c None (Some ErrCanceled)]\<rparr>)"
    by (simp add: RequestCancelActivity_def lift_def req asActivity_def getData_def deref_def 1(3,6) d go_simps
        call_isDone_def scheduledActivity_handle_def handleOnce_def setData_def called_def)
  moreover have "?m1 \<in> set (contents ?h1)"
    using listed by (force simp: contents_def heap_def)
  ultimately show ?thesis
    using that [of ?h1 ?m1] inv1 1(4,5,7) k ids by simp
qed

lemma close_handled_run:
  assumes inv: "helper_inv (env_decisionsHelper w)"
    and n: "scheduledEventIDToActivityID (env_decisionsHelper w) n = Some i"
    and m: "m \<in> set (contents (env_decisionsHelper w))"
    and i: "m_id m = makeDecisionID decisionTypeActivity i"
    and s: "next_state (kind_tag (m_kind m)) EvCompletion (m_state m) = Some s"
    and d: "m_data m = scheduledActivity c wait True"
  obtains h' where "\<And>f. closeActivity (Some n) f w = (Inr (), w\<lparr>env_decisionsHelper := h'\<rparr>)"
proof -
  from onDecision_accepts [OF inv m s] obtain r h' m' where
    1: "onDecision (m_id m) (send EvCompletion) (env_decisionsHelper w) = (Inr r, h')"
    "machines h' r = Some m'" "m_data m' = m_data m" .
  then have "closeActivity (Some n) f w = (Inr (), w\<lparr>env_decisionsHelper := h'\<rparr>)" for f
    using n d by (simp add: closeActivity_def lift_def handleActivityTaskClosed_def i getActivityID_def
        asActivity_def getData_def go_simps)
  with that show ?thesis .
qed

text \<open>
  (C14) Cancelling an activity that does not wait for its cancellation answers the workflow
  at once: the callback gets the cancellation error, and the event that later closes the
  activity on the server is processed without calling back a second time.
\<close>

theorem cancelled_activity_answered_once:
  assumes "helper_inv (env_decisionsHelper w)"
    and "m \<in> set (contents (env_decisionsHelper w))"
    and "m_id m = makeDecisionID decisionTypeActivity i"
    and "m_state m = decisionStateInitiated" and "kind_tag (m_kind m) = ActivityKind"
    and "m_data m = scheduledActivity c False False"
    and "scheduledEventIDToActivityID (env_decisionsHelper w) n = Some i"
    and "activity_outcome (env_dataConverter w) (ev_EventType e) = Some (n, result, err)"
  shows "\<exists>w1 w2. RequestCancelActivity i w = (Inr (), w1)
           \<and> env_calls w1 = env_calls w @ [ResultCall c None (Some ErrCanceled)]
           \<and> ProcessEvent registry now st (Some e) isReplay False w1 = (Inr None, w2)
           \<and> env_calls w2 = env_calls w1"
proof -
  from cancel_activity_run [OF assms(1-6)] obtain h1 m1 where 1: "RequestCancelActivity i w =
      (Inr (), w\<lparr>env_decisionsHelper := h1, env_calls := env_calls w @ [ResultCall c None (Some ErrCanceled)]\<rparr>)"
    "helper_inv h1" "m1 \<in> set (contents h1)" "m_id m1 = m_id m"
    "m_state m1 = decisionStateCanceledAfterInitiated" "kind_tag (m_kind m1) = ActivityKind"
    "m_data m1 = scheduledActivity c False True"
    "scheduledEventIDToActivityID h1 = scheduledEventIDToActivityID (env_decisionsHelper w)" .
  define w1 where "w1 = w\<lparr>env_decisionsHelper := h1,
    env_calls := env_calls w @ [ResultCall c None (Some ErrCanceled)]\<rparr>"
  have closes: "next_state (kind_tag (m_kind m1)) EvCompletion (m_state m1) = Some decisionStateCompleted"
    by (simp add: 1(5,6) next_state_def edge_defs)
  from close_handled_run [of "w1\<lparr>env_isReplay := isReplay\<rparr>" n i m1, OF _ _ _ _ closes]
  obtain h2 where "\<And>f. closeActivity (Some n) f (w1\<lparr>env_isReplay := isReplay\<rparr>) =
      (Inr (), w1\<lparr>env_isReplay := isReplay, env_decisionsHelper := h2\<rparr>)"
    using 1(2-4,7,8) assms(3,7) by (auto simp: w1_def)
  from activity_outcome_ignored [OF _ this] assms(8)
  have "dispatchEvent registry now e (w1\<lparr>env_isReplay := isReplay\<rparr>) =
      (Inr None, w1\<lparr>env_isReplay := isReplay, env_decisionsHelper := h2\<rparr>)"
    by (simp add: w1_def)
  from processBody_run [OF refl this] 1(1) show ?thesis by (simp add: w1_def)
qed

theorem cancelled_activity_answered_once_witness:
  "\<exists>w1 w2. RequestCancelActivity ''0'' ex_running = (Inr (), w1)
     \<and> env_calls w1 = [ResultCall 1 None (Some ErrCanceled)]
     \<and> ProcessEvent ex_registry 0 [] (Some ex_completed) False False w1 = (Inr None, w2)
     \<and> env_calls w2 = [ResultCall 1 None (Some ErrCanceled)]"
proof -
  obtain m where "m \<in> set (contents (env_decisionsHelper ex_running))"
    "m_id m = makeDecisionID decisionTypeActivity ''0''" "m_state m = decisionStateInitiated"
    "m_data m = scheduledActivity 1 False False" "kind_tag (m_kind m) = ActivityKind"
    by (rule ex_running_machine)
  with cancelled_activity_answered_once [OF ex_running_inv, of m "''0''" 1 5 ex_completed "Some ''ok''" None
      ex_registry 0 "[]" False]
  show ?thesis by (auto simp: ex_running_simps ex_completed_def activity_outcome_def)
qed

end
