(* ===== verification/Environment_Replay.thy ===== *)
theory Environment_Replay
  imports Callback_Safety
begin

text \<open>
  Determinism of the workflow environment: what a workflow is told on replay is what it was
  told the first time.  Versions and side effects are read back from the markers they left;
  sequence numbers and timers do what the workflow relies on; events that match nothing
  fail the workflow.
\<close>

section \<open>Sequence numbers\<close>

text \<open>The identifiers a workflow draws, in order.\<close>

fun draw :: "nat \<Rightarrow> string list ego" where
  "draw 0 = go_return []"
| "draw (Suc n) = go_bind GenerateSequenceID (\<lambda>i. go_bind (draw n) (\<lambda>is. go_return (i # is)))"

lemma draw_run:
  "draw n w = (Inr (map (\<lambda>k. show_int (sint (env_counterID w + of_nat k))) [0..<n]),
     w\<lparr>env_counterID := env_counterID w + of_nat n\<rparr>)"
proof (induction n arbitrary: w)
  case (Suc n)
  let ?w = "w\<lparr>env_counterID := env_counterID w + 1\<rparr>"
  have "draw (Suc n) w = (case draw n ?w of (Inl p, w') \<Rightarrow> (Inl p, w')
      | (Inr is, w') \<Rightarrow> (Inr (show_int (sint (env_counterID w)) # is), w'))"
    by (simp add: GenerateSequenceID_def GenerateSequence_def go_simps split: prod.split sum.split)
  also have "\<dots> = (Inr (show_int (sint (env_counterID w)) #
      map (\<lambda>k. show_int (sint (env_counterID w + 1 + of_nat k))) [0..<n]),
      w\<lparr>env_counterID := env_counterID w + 1 + of_nat n\<rparr>)"
    by (simp add: Suc.IH)
  finally show ?case
    by (simp add: upt_conv_Cons map_Suc_upt [symmetric] o_def add.assoc del: upt_Suc)
qed (simp add: go_simps)

text \<open>
  (C20) The identifiers of activities, timers and side effects are pairwise distinct for as
  long as the 32-bit counter has not gone round, and not longer.
\<close>

theorem sequence_ids_distinct:
  "\<exists>ids. fst (draw n w) = Inr ids \<and> length ids = n \<and> (distinct ids \<longleftrightarrow> n \<le> 2 ^ 32)"
proof -
  let ?id = "\<lambda>k. show_int (sint (env_counterID w + of_nat k))"
  have eq: "sint (env_counterID w + of_nat a) = sint (env_counterID w + of_nat b)
      \<longleftrightarrow> (of_nat a :: i32) = of_nat b" for a b
    by (simp flip: word_eq_iff_signed)
  have "distinct (map ?id [0..<n]) \<longleftrightarrow> inj_on (of_nat :: nat \<Rightarrow> i32) {0..<n}"
    by (simp add: distinct_map inj_on_def eq)
  also have "\<dots> \<longleftrightarrow> n \<le> 2 ^ 32"
  proof
    assume "inj_on (of_nat :: nat \<Rightarrow> i32) {0..<n}"
    moreover have "(of_nat 0 :: i32) = of_nat (2 ^ 32)" by simp
    ultimately show "n \<le> 2 ^ 32"
      using inj_onD [of of_nat "{0..<n}" 0 "2 ^ 32"] by (simp add: not_le) force
  qed (auto simp: inj_on_def word_of_nat_eq_iff take_bit_nat_eq_self)
  finally show ?thesis by (simp add: draw_run)
qed

section \<open>Versions\<close>

text \<open>What a converter has to do for the values of one marker: give them back.\<close>

definition carries :: "DataConverter \<Rightarrow> goValue list \<Rightarrow> goType list \<Rightarrow> bool" where
  "carries dc vs ts \<longleftrightarrow> (case ToData dc vs of
      Inr (Some data) \<Rightarrow> FromData dc (Some data) ts = (vs, None)
    | _ \<Rightarrow> False)"

lemma carriesE:
  assumes "carries dc vs ts"
  obtains data where "ToData dc vs = Inr (Some data)" and "FromData dc (Some data) ts = (vs, None)"
  using assms that by (auto simp: carries_def split: sum.splits option.splits)

lemma validateVersion_ok:
  "validateVersion c v lo hi w = (Inr (), w') \<longleftrightarrow> w' = w \<and> lo \<le> v \<and> v \<le> hi"
  by (auto simp: validateVersion_def go_simps)

lemma inserted_kept:
  assumes "still_open n"
  shows "go_inv (\<lambda>h. helper_inv h \<and> m \<in> set (contents h)) (addNew (alloc_machine n))"
proof (rule go_invI)
  fix h assume h: "helper_inv h \<and> m \<in> set (contents h)"
  show "helper_inv (snd (addNew (alloc_machine n) h)) \<and> m \<in> set (contents (snd (addNew (alloc_machine n) h)))"
  proof (cases "m_id n \<in> m_id ` set (contents h)")
    case True
    with store.insert_duplicate [of h n] h assms show ?thesis by auto
  next
    case False
    with store.insert_ok [of h n] h assms show ?thesis by auto
  qed
qed

lemma go_inv_lift: "go_inv I m \<Longrightarrow> go_inv (\<lambda>w. I (env_decisionsHelper w)) (lift m)"
  by (auto simp: go_inv_def lift_def split: prod.split)

lemma changeVersionUpsertID_pure: "go_inv I (changeVersionUpsertID v)"
  by (auto simp: changeVersionUpsertID_def badAssertion_def split: goValue.split list.split intro: go_keeps)

lemma UpsertSearchAttributes_keeps:
  "go_inv (\<lambda>w. helper_inv (env_decisionsHelper w) \<and> m \<in> set (contents (env_decisionsHelper w)))
     (UpsertSearchAttributes marshal attributes)"
proof -
  let ?I = "\<lambda>h. helper_inv h \<and> m \<in> set (contents h)"
  have "go_inv ?I (upsertSearchAttributes i a)" for i a
    unfolding upsertSearchAttributes_def new_machine_defs
    by (rule inserted_kept) (simp add: still_open_def newDecisionStateMachineBase_def)
  then have *: "go_inv (\<lambda>w. ?I (env_decisionsHelper w)) (lift (upsertSearchAttributes i a))" for i a
    by (rule go_inv_lift)
  show ?thesis
    unfolding UpsertSearchAttributes_def GenerateSequenceID_def GenerateSequence_def
      updateWorkflowInfoWithSearchAttributes_def
    by (intro go_keeps * changeVersionUpsertID_pure go_inv_modify; simp)
qed

definition marker_machine :: "string \<Rightarrow> string \<Rightarrow> bytes \<Rightarrow> machine" where
  "marker_machine name i details = newDecisionStateMachineBase decisionTypeMarker (markerID name i)
     (markerDecisionStateMachine (RecordMarker \<lparr>rm_MarkerName = Some name, rm_Details = details\<rparr>))"

definition marker_event :: "string \<Rightarrow> bytes \<Rightarrow> MarkerRecordedEventAttributes option" where
  "marker_event name details = Some \<lparr>mr_MarkerName = Some name, mr_Details = Some details\<rparr>"

lemma recordMarker_alloc: "recordMarker name i details = addNew (alloc_machine (marker_machine name i details))"
  by (simp add: recordMarker_def newMarkerDecisionStateMachine_def marker_machine_def)

lemma marker_machine_open: "still_open (marker_machine name i details)"
  by (simp add: marker_machine_def still_open_def newDecisionStateMachineBase_def)

lemma recordMarker_Inr:
  assumes "recordMarker name i details h = (Inr r, h')" and "helper_inv h"
  shows "helper_inv h' \<and> contents h' = contents h @ [marker_machine name i details]"
  using assms store.insert_ok [OF assms(2) marker_machine_open, of name i details]
    store.insert_duplicate [OF assms(2) marker_machine_open, of name i details]
  by (auto simp: recordMarker_alloc)

lemma recordMarker_fresh:
  assumes "helper_inv h" and "makeDecisionID decisionTypeMarker (markerID name i) \<notin> m_id ` set (contents h)"
  obtains r h' where "recordMarker name i details h = (Inr r, h')" and "helper_inv h'"
    and "contents h' = contents h @ [marker_machine name i details]"
  using store.insert_ok [OF assms(1) marker_machine_open, of name i details] assms(2) that
  by (auto simp: recordMarker_alloc marker_machine_def newDecisionStateMachineBase_def)

lemma GetVersion_records:
  assumes run: "GetVersion marshal c lo hi opts w = (Inr v, w')" and inv: "helper_inv (env_decisionsHelper w)"
    and new: "map_of (env_changeVersions w) c = None" and live: "\<not> env_isReplay w" and v: "v \<noteq> DefaultVersion"
  obtains details where "encodeVersion (env_dataConverter w) c v = Inr details"
    and "marker_machine versionMarkerName c details \<in> set (contents (env_decisionsHelper w'))"
proof -
  from run new live v obtain w1 where rec: "recordVersion marshal c v w = (Inr (), w1)"
    and w': "env_decisionsHelper w' = env_decisionsHelper w1"
    by (auto simp: GetVersion_def Let_def go_simps go_bind_eq_Inr go_then_eq_Inr validateVersion_ok
        split: if_splits)
  from rec obtain r w2 where 2: "lift (recordVersionMarker (encodeVersion (env_dataConverter w)) c v) w = (Inr r, w2)"
    and up: "snd (UpsertSearchAttributes marshal
      (createSearchAttributesForChangeVersion c v (env_changeVersions w2)) w2) = w1"
    by (auto simp: recordVersion_def go_simps go_bind_eq_Inr go_then_eq_Inr)
  from 2 obtain details where d: "encodeVersion (env_dataConverter w) c v = Inr details"
    and "recordMarker versionMarkerName c details (env_decisionsHelper w) = (Inr r, env_decisionsHelper w2)"
    by (auto simp: lift_def recordVersionMarker_def go_simps split: sum.splits prod.splits)
  from recordMarker_Inr [OF this(2) inv]
  have "marker_machine versionMarkerName c details \<in> set (contents (env_decisionsHelper w1))"
    using go_invD [OF UpsertSearchAttributes_keeps [of "marker_machine versionMarkerName c details"], of w2] up
    by auto
  with d w' that show ?thesis by simp
qed

text \<open>
  (C16) A version is replayed from its marker.  The first live call records a marker with
  the change and the version chosen; an environment, here any, that processes the marker
  event answers that version from then on, live or replaying, with any options.  The
  converter only has to give back the marker's own values.
\<close>

theorem version_replays_from_marker:
  assumes "GetVersion marshal c lo hi opts w = (Inr v, w')" and "helper_inv (env_decisionsHelper w)"
    and "map_of (env_changeVersions w) c = None" and "\<not> env_isReplay w" and "v \<noteq> DefaultVersion"
    and "carries (env_dataConverter w) [GoString c, GoInt v] [TString, TInt]"
  shows "\<exists>details. marker_machine versionMarkerName c details \<in> set (contents (env_decisionsHelper w'))
    \<and> (\<forall>w2 registry now n. env_dataConverter w2 = env_dataConverter w \<longrightarrow>
        (\<exists>w3. handleMarkerRecorded registry now n (marker_event versionMarkerName details) w2 = (Inr None, w3)
           \<and> (\<forall>marshal' opts'. GetVersion marshal' c lo hi opts' w3 = (Inr v, w3))))"
proof -
  from GetVersion_records [OF assms(1-5)] obtain details where
    d: "encodeVersion (env_dataConverter w) c v = Inr details"
    and m: "marker_machine versionMarkerName c details \<in> set (contents (env_decisionsHelper w'))" .
  from assms(6) obtain data where "ToData (env_dataConverter w) [GoString c, GoInt v] = Inr (Some data)"
    and "FromData (env_dataConverter w) (Some data) [TString, TInt] = ([GoString c, GoInt v], None)"
    by (rule carriesE)
  with d have
    get: "EncodedValues_Get (env_dataConverter w) (Some details) [TString, TInt] = ([GoString c, GoInt v], None)"
    by (simp add: encodeVersion_def encodeArgs_def EncodedValues_Get_def EncodedValues_HasValues_def)
  have range: "lo \<le> v \<and> v \<le> hi"
    using assms(1,3) by (auto simp: GetVersion_def Let_def go_simps go_bind_eq_Inr go_then_eq_Inr validateVersion_ok)
  have names: "versionMarkerName \<noteq> sideEffectMarkerName"
    by (simp add: versionMarkerName_def sideEffectMarkerName_def)
  have "\<exists>w3. handleMarkerRecorded registry now n (marker_event versionMarkerName details) w2 = (Inr None, w3)
      \<and> (\<forall>marshal' opts'. GetVersion marshal' c lo hi opts' w3 = (Inr v, w3))"
    if "env_dataConverter w2 = env_dataConverter w" for w2 registry now n
    using that range
    by (simp add: handleMarkerRecorded_def marker_event_def nonNil_def names get go_simps Let_def
        GetVersion_def validateVersion_def update_conv)
  with m show ?thesis by blast
qed

section \<open>Side effects\<close>

lemma SideEffect_live:
  assumes "helper_inv (env_decisionsHelper w)" and "\<not> env_isReplay w"
    and "ToData (env_dataConverter w) [GoInt (sint (env_counterID w)), GoBytes result] = Inr (Some details)"
    and "makeDecisionID decisionTypeMarker (markerID sideEffectMarkerName (show_int (sint (env_counterID w))))
      \<notin> m_id ` set (contents (env_decisionsHelper w))"
  shows "\<exists>w'. SideEffect (result, None) callback w = (Inr (), w')
    \<and> env_calls w' = env_calls w @ [ResultCall callback result None]
    \<and> contents (env_decisionsHelper w') = contents (env_decisionsHelper w)
        @ [marker_machine sideEffectMarkerName (show_int (sint (env_counterID w))) details]"
proof -
  from recordMarker_fresh [OF assms(1,4)] obtain r h' where
    "recordMarker sideEffectMarkerName (show_int (sint (env_counterID w))) details (env_decisionsHelper w) = (Inr r, h')"
    "contents h' = contents (env_decisionsHelper w)
       @ [marker_machine sideEffectMarkerName (show_int (sint (env_counterID w))) details]" .
  with assms(2,3) show ?thesis
    by (simp add: SideEffect_def GenerateSequence_def encodeArgs_def lift_def recordSideEffectMarker_def
        called_def go_simps)
qed

lemma SideEffect_replay:
  assumes "helper_inv (env_decisionsHelper w)" and "env_isReplay w"
    and "env_sideEffectResult w (env_counterID w) = Some result"
    and "makeDecisionID decisionTypeMarker (markerID sideEffectMarkerName (show_int (sint (env_counterID w))))
      \<notin> m_id ` set (contents (env_decisionsHelper w))"
  shows "\<exists>w'. SideEffect f callback w = (Inr (), w') \<and> env_calls w' = env_calls w @ [ResultCall callback result None]"
proof -
  from recordMarker_fresh [OF assms(1,4)] obtain r h' where
    "recordMarker sideEffectMarkerName (show_int (sint (env_counterID w)))
       (case result of None \<Rightarrow> [] | Some b \<Rightarrow> b) (env_decisionsHelper w) = (Inr r, h')" by blast
  with assms(2,3) show ?thesis
    by (simp add: SideEffect_def GenerateSequence_def lift_def recordSideEffectMarker_def called_def go_simps)
qed

text \<open>
  (C17) A side effect is run once.  Live, the callback gets the function's result, and a
  marker with the result is recorded; a replay that has processed the marker event and
  reaches the call with the same sequence number gets the recorded result, whatever the
  function would return now.
\<close>

theorem side_effect_replays_from_marker:
  assumes "helper_inv (env_decisionsHelper w)" and "\<not> env_isReplay w"
    and "carries (env_dataConverter w) [GoInt (sint (env_counterID w)), GoBytes result] [TInt, TBytes]"
    and "makeDecisionID decisionTypeMarker (markerID sideEffectMarkerName (show_int (sint (env_counterID w))))
      \<notin> m_id ` set (contents (env_decisionsHelper w))"
  shows "\<exists>details w'. SideEffect (result, None) callback w = (Inr (), w')
    \<and> env_calls w' = env_calls w @ [ResultCall callback result None]
    \<and> contents (env_decisionsHelper w') = contents (env_decisionsHelper w)
        @ [marker_machine sideEffectMarkerName (show_int (sint (env_counterID w))) details]
    \<and> (\<forall>w2 registry now n f callback'. env_dataConverter w2 = env_dataConverter w \<and> env_isReplay w2
        \<and> env_counterID w2 = env_counterID w \<and> env_decisionsHelper w2 = env_decisionsHelper w \<longrightarrow>
        (\<exists>w3 w4. handleMarkerRecorded registry now n (marker_event sideEffectMarkerName details) w2 = (Inr None, w3)
           \<and> SideEffect f callback' w3 = (Inr (), w4)
           \<and> env_calls w4 = env_calls w2 @ [ResultCall callback' result None]))"
proof -
  from assms(3) obtain details where
    to: "ToData (env_dataConverter w) [GoInt (sint (env_counterID w)), GoBytes result] = Inr (Some details)"
    and "FromData (env_dataConverter w) (Some details) [TInt, TBytes] =
      ([GoInt (sint (env_counterID w)), GoBytes result], None)" by (rule carriesE)
  then have get: "EncodedValues_Get (env_dataConverter w) (Some details) [TInt, TBytes] =
      ([GoInt (sint (env_counterID w)), GoBytes result], None)"
    by (simp add: EncodedValues_Get_def EncodedValues_HasValues_def)
  have "\<exists>w3 w4. handleMarkerRecorded registry now n (marker_event sideEffectMarkerName details) w2 = (Inr None, w3)
      \<and> SideEffect f callback' w3 = (Inr (), w4) \<and> env_calls w4 = env_calls w2 @ [ResultCall callback' result None]"
    if w2: "env_dataConverter w2 = env_dataConverter w" "env_isReplay w2" "env_counterID w2 = env_counterID w"
      "env_decisionsHelper w2 = env_decisionsHelper w" for w2 registry now n f callback'
  proof -
    let ?w3 = "w2\<lparr>env_sideEffectResult := (env_sideEffectResult w2)(env_counterID w \<mapsto> result)\<rparr>"
    have "handleMarkerRecorded registry now n (marker_event sideEffectMarkerName details) w2 = (Inr None, ?w3)"
      using w2(1) get by (simp add: handleMarkerRecorded_def marker_event_def nonNil_def Let_def go_simps)
    with SideEffect_replay [of ?w3 result f callback'] w2 assms(1,4) show ?thesis by simp
  qed
  with SideEffect_live [OF assms(1,2) to assms(4), of callback] show ?thesis by blast
qed

lemma recordMarker_again:
  assumes "helper_inv h" and "makeDecisionID decisionTypeMarker (markerID name i) \<in> m_id ` set (contents h)"
  shows "\<exists>h'. recordMarker name i details h =
    (Inl (stateMachineIllegalStatePanic (duplicateDecision (makeDecisionID decisionTypeMarker (markerID name i)))), h')"
  using contents_lookup [OF assms(1), of "makeDecisionID decisionTypeMarker (markerID name i)"] assms(2)
  by (auto simp: recordMarker_alloc addNew_run Let_def alloc_machine_def marker_machine_def
      newDecisionStateMachineBase_def split: option.splits)

text \<open>
  (C23) A mutable side effect may change once per decision task.  The first live call
  records its value; a second call in the same task whose value differs records under the
  same marker identifier, and the duplicate panics.
\<close>

theorem mutable_side_effect_twice_panics:
  assumes "helper_inv (env_decisionsHelper w)" and "\<not> env_isReplay w" and "env_mutableSideEffect w i = None"
    and "makeDecisionID decisionTypeMarker (markerID mutableSideEffectMarkerName i)
      \<notin> m_id ` set (contents (env_decisionsHelper w))"
    and "dc = env_dataConverter w"
    and "ToData dc [x] = Inr (Some a)" and "ToData dc [GoString i, GoString a] = Inr (Some a')"
    and "ToData dc [y] = Inr (Some b)" and "ToData dc [GoString i, GoString b] = Inr (Some b')"
    and "typeOf y = Some t" and "FromData dc (Some a) [t] = ([x], None)" and "\<not> equals y x"
  shows "\<exists>w1 w2. MutableSideEffect i x equals w = (Inr (Some a), w1)
    \<and> MutableSideEffect i y equals w1 = (Inl (stateMachineIllegalStatePanic (duplicateDecision
          (makeDecisionID decisionTypeMarker (markerID mutableSideEffectMarkerName i)))), w2)"
proof -
  let ?name = mutableSideEffectMarkerName
  from recordMarker_fresh [OF assms(1,4)] obtain r h' where
    1: "recordMarker ?name i a' (env_decisionsHelper w) = (Inr r, h')" "helper_inv h'"
    "contents h' = contents (env_decisionsHelper w) @ [marker_machine ?name i a']" .
  define w1 where "w1 = w\<lparr>env_decisionsHelper := h',
    env_mutableSideEffect := (env_mutableSideEffect w)(i \<mapsto> Some a)\<rparr>"
  have first: "MutableSideEffect i x equals w = (Inr (Some a), w1)"
    using assms(2,3,5-7) 1(1)
    by (simp add: MutableSideEffect_def encodeValue_def encodeArg_def recordMutableSideEffect_def encodeArgs_def
        lift_def recordMutableSideEffectMarker_def go_simps w1_def)
  have "makeDecisionID decisionTypeMarker (markerID ?name i) \<in> m_id ` set (contents h')"
    by (simp add: 1(3) marker_machine_def newDecisionStateMachineBase_def)
  from recordMarker_again [OF 1(2) this, of b'] obtain h2 where "recordMarker ?name i b' h' =
    (Inl (stateMachineIllegalStatePanic (duplicateDecision (makeDecisionID decisionTypeMarker (markerID ?name i)))), h2)"
    by blast
  then have "MutableSideEffect i y equals w1 = (Inl (stateMachineIllegalStatePanic (duplicateDecision
      (makeDecisionID decisionTypeMarker (markerID ?name i)))), w1\<lparr>env_decisionsHelper := h2\<rparr>)"
    using assms(2,5,8-12)
    by (simp add: w1_def MutableSideEffect_def isEqualValue_def decodeValue_def EncodedValues_Get_def
        EncodedValues_HasValues_def encodeValue_def encodeArg_def recordMutableSideEffect_def encodeArgs_def
        lift_def recordMutableSideEffectMarker_def go_simps)
  with first show ?thesis by blast
qed

section \<open>Search attributes\<close>

lemma map_of_setEntries: "map_of (setEntries current fs) = map_of current ++ map_of (rev fs)"
  by (induction current fs rule: setEntries.induct) (auto simp: update_conv' map_add_def split: option.splits)

text \<open>
  (C22) Merging search attributes gives every key its value from the update, or its old
  value.  The merge panics exactly when there is something to merge into and the update
  is nil.
\<close>

theorem mergeSearchAttributes_lookup:
  "if getFields current \<noteq> [] \<and> upsert = None
   then mergeSearchAttributes current upsert = Inl nilDereference
   else \<exists>merged. mergeSearchAttributes current upsert = Inr merged
     \<and> map_of (getFields merged) = map_of (getFields current) ++ map_of (rev (getFields upsert))"
  by (auto simp: mergeSearchAttributes_def map_of_setEntries getFields_def split: option.splits)

section \<open>Timers\<close>

lemma insert_data:
  assumes inv: "helper_inv h" and "still_open m" and new: "m_id m \<notin> m_id ` set (contents h)"
  obtains r h1 h2 where "addNew (alloc_machine m) h = (Inr r, h1)" and "setData r d h1 = (Inr (), h2)"
    and "contents h2 = contents h @ [m\<lparr>m_data := d\<rparr>]"
proof -
  let ?r = "nextRef h"
  have none: "decisions h (m_id m) = None" using contents_lookup [OF inv, of "m_id m"] new by simp
  have fresh: "?r \<notin> set (orderedDecisions h)"
    using helper_inv_fresh [OF inv] by (auto elim: helper_inv_listed [OF inv])
  let ?h1 = "snd (addNew (alloc_machine m) h)"
  let ?h2 = "?h1\<lparr>machines := (machines ?h1)(?r \<mapsto> m\<lparr>m_data := d\<rparr>)\<rparr>"
  have h1: "addNew (alloc_machine m) h = (Inr ?r, ?h1)" "machines ?h1 = (machines h)(?r \<mapsto> m)"
    "orderedDecisions ?h1 = orderedDecisions h @ [?r]"
    by (simp_all add: addNew_run alloc_machine_def none Let_def)
  have "setData ?r d ?h1 = (Inr (), ?h2)"
    using h1(2) by (simp add: setData_def deref_def go_simps)
  moreover have "contents ?h2 = contents h @ [m\<lparr>m_data := d\<rparr>]"
    using fresh h1(2,3) by (auto simp: contents_def heap_def)
  ultimately show ?thesis using that [OF h1(1)] by blast
qed

definition timer_machine :: "string \<Rightarrow> int \<Rightarrow> callback \<Rightarrow> machine" where
  "timer_machine i seconds callback = (newDecisionStateMachineBase decisionTypeTimer i
     (timerDecisionStateMachine \<lparr>st_TimerId = Some i, st_StartToFireTimeoutSeconds = Some seconds\<rparr> False))
     \<lparr>m_data := scheduledTimer callback False\<rparr>"

text \<open>
  (C21) Timers.  A positive duration, however small, becomes a timer of at least one second
  whose callback waits; a duration that is not positive calls back at once and schedules
  nothing, with an error exactly when the duration rounds up to less than zero seconds.
\<close>

theorem NewTimer_by_duration:
  assumes "helper_inv (env_decisionsHelper w)"
    and "makeDecisionID decisionTypeTimer (show_int (sint (env_counterID w)))
      \<notin> m_id ` set (contents (env_decisionsHelper w))"
  shows "if d \<le> 0
    then \<exists>err. NewTimer d callback w =
        (Inr None, w\<lparr>env_calls := env_calls w @ [ResultCall callback None err]\<rparr>)
      \<and> (err = None \<longleftrightarrow> Int64Ceil (Duration_Seconds d) = 0)
    else \<exists>w' seconds. NewTimer d callback w = (Inr (Some (show_int (sint (env_counterID w)))), w')
      \<and> env_calls w' = env_calls w \<and> seconds = Int64Ceil (Duration_Seconds d) \<and> 1 \<le> seconds
      \<and> contents (env_decisionsHelper w') = contents (env_decisionsHelper w)
          @ [timer_machine (show_int (sint (env_counterID w))) seconds callback]"
proof (cases "d \<le> 0")
  case True
  with Int64Ceil_Seconds_nonpos [of d] show ?thesis
    by (auto simp: NewTimer_def Let_def called_def go_simps)
next
  case False
  define s where "s = Int64Ceil (Duration_Seconds d)"
  then have s: "1 \<le> s" using False Int64Ceil_Seconds_pos [of d] by simp
  let ?i = "show_int (sint (env_counterID w))"
  let ?m = "newDecisionStateMachineBase decisionTypeTimer ?i
     (timerDecisionStateMachine \<lparr>st_TimerId = Some ?i, st_StartToFireTimeoutSeconds = Some s\<rparr> False)"
  have ok: "still_open ?m" "m_id ?m \<notin> m_id ` set (contents (env_decisionsHelper w))"
    using assms(2) by (simp_all add: still_open_def newDecisionStateMachineBase_def)
  obtain r h1 h2 where 1: "addNew (alloc_machine ?m) (env_decisionsHelper w) = (Inr r, h1)"
    "setData r (scheduledTimer callback False) h1 = (Inr (), h2)"
    "contents h2 = contents (env_decisionsHelper w) @ [?m\<lparr>m_data := scheduledTimer callback False\<rparr>]"
    by (rule insert_data [OF assms(1) ok])
  then have "NewTimer d callback w =
      (Inr (Some ?i), w\<lparr>env_counterID := env_counterID w + 1, env_decisionsHelper := h2\<rparr>)"
    using s by (simp add: NewTimer_def s_def [symmetric] GenerateSequenceID_def GenerateSequence_def lift_def
        startTimer_def newTimerDecisionStateMachine_def go_simps)
  with False s 1(3) show ?thesis by (simp add: s_def timer_machine_def)
qed

section \<open>Events that match nothing\<close>

text \<open>
  (C19) A timer event for a timer that is not open fails the workflow: the event is
  processed without an error, the decisions stay as they were, and the workflow is
  completed with a panic error that names the unknown decision.
\<close>

theorem unknown_timer_fails_workflow:
  assumes "helper_inv (env_decisionsHelper w)"
    and "makeDecisionID decisionTypeTimer t \<notin> m_id ` set (contents (env_decisionsHelper w))"
    and "ev_EventType e \<in> {EventTypeTimerFired (Some t), EventTypeTimerStarted (Some t) s,
           EventTypeTimerCanceled (Some t), EventTypeCancelTimerFailed (Some t)}"
  shows "ProcessEvent registry now st (Some e) isReplay isLast w = (Inr None, w\<lparr>env_isReplay := isReplay,
    env_calls := env_calls w @ [CompleteHandlerCall None (Some (workflowPanicError
      (RecoveredOther ''internal.stateMachineIllegalStatePanic''
        (illegalState_String (unknownDecision (makeDecisionID decisionTypeTimer t)))) st))]\<rparr>)"
  using assms(3) onDecision_unknown [OF assms(1,2)]
  by (auto simp: ProcessEvent_def go_recover_def processBody_def dispatchEvent_def noError_def
      handleTimerFired_def handleTimerStarted_def handleTimerCanceled_def handleCancelTimerFailed_def
      handleTimerClosed_def lift_def Complete_def called_def go_simps)

section \<open>Witnesses\<close>

text \<open>
  A converter for the two kinds of marker, and the environment of a workflow that has just
  been created with it.
\<close>

definition markerConverter :: DataConverter where
  "markerConverter = \<lparr>
     ToData = (\<lambda>vs. case vs of
         [GoString a] \<Rightarrow> Inr (Some a)
       | [GoString a, GoString b] \<Rightarrow> Inr (Some (a @ CHR ''='' # b))
       | [GoString a, GoInt v] \<Rightarrow> Inr (Some (a @ CHR ''='' # show_int v))
       | [GoInt i, GoBytes (Some b)] \<Rightarrow> Inr (Some (show_int i @ CHR ''='' # b))
       | _ \<Rightarrow> Inl ''unsupported''),
     FromData = (\<lambda>data ts. case data of
         None \<Rightarrow> ([], Some ''no data'')
       | Some s \<Rightarrow> let a = takeWhile (\<lambda>c. c \<noteq> CHR ''='') s; b = drop (Suc (length a)) s in
           if ts = [TString] then ([GoString s], None)
           else if ts = [TString, TInt] then ([GoString a, GoInt (the (parseInt 64 b))], None)
           else if ts = [TInt, TBytes] then ([GoInt (the (parseInt 64 a)), GoBytes (Some b)], None)
           else ([], Some ''unsupported''))\<rparr>"

definition fresh_env :: workflowEnv where
  "fresh_env = newWorkflowExecutionEventHandler
     \<lparr>wi_WorkflowType = ''wf'', wi_ID = ''id'', wi_RunID = ''run'', wi_OriginalRunId = [],
      wi_TaskListName = ''tl'', wi_SearchAttributes = None, wi_DecisionStartedEventID = 0,
      wi_TotalHistoryBytes = 0, wi_ExecutionStartToCloseTimeoutSeconds = 60, wi_TaskStartToCloseTimeoutSeconds = 10,
     wi_Domain = ''domain'', wi_Attempt = 0, wi_lastCompletionResult = None, wi_CronSchedule = None,
     wi_ContinuedExecutionRunID = None, wi_ParentWorkflowDomain = None, wi_ParentWorkflowExecution = None,
     wi_Memo = None, wi_RetryPolicy = None, wi_BinaryChecksum = None, wi_HistoryBytesServer = 0,
     wi_HistoryCount = 0\<rparr> markerConverter"

lemma fresh_env_simps:
  "helper_inv (env_decisionsHelper fresh_env)" "contents (env_decisionsHelper fresh_env) = []"
  "env_calls fresh_env = []" "env_dataConverter fresh_env = markerConverter"
  "env_changeVersions fresh_env = []" "\<not> env_isReplay fresh_env" "env_counterID fresh_env = 0"
  by (simp_all add: fresh_env_def newWorkflowExecutionEventHandler_def helper_inv_new)
    (simp add: newDecisionsHelper_def contents_def)

lemma markerConverter_carries:
  "carries markerConverter [GoString ''c'', GoInt 2] [TString, TInt]"
  "carries markerConverter [GoInt 0, GoBytes (Some ''r'')] [TInt, TBytes]"
  by code_simp+

definition ex_version :: "(panicValue + int) \<times> workflowEnv" where
  "ex_version = GetVersion (\<lambda>_. Inr []) ''c'' 1 2 [] fresh_env"

lemma ex_version_run: "ex_version = (Inr 2, snd ex_version)"
proof -
  have "fst ex_version = Inr 2" by code_simp
  then show ?thesis by (metis prod.collapse)
qed

lemma ex_version_GetVersion: "GetVersion (\<lambda>_. Inr []) ''c'' 1 2 [] fresh_env = (Inr 2, snd ex_version)"
  using ex_version_run by (simp add: ex_version_def)

theorem version_replays_from_marker_witness:
  "\<exists>details w3. marker_machine versionMarkerName ''c'' details \<in> set (contents (env_decisionsHelper (snd ex_version)))
     \<and> handleMarkerRecorded (\<lambda>_. Inl ''none'') 0 1 (marker_event versionMarkerName details) fresh_env = (Inr None, w3)
     \<and> GetVersion (\<lambda>_. Inr []) ''c'' 1 2 [customVersionOption 1] w3 = (Inr 2, w3)"
proof -
  have "map_of (env_changeVersions fresh_env) ''c'' = None" and "(2 :: int) \<noteq> DefaultVersion"
    and "carries (env_dataConverter fresh_env) [GoString ''c'', GoInt 2] [TString, TInt]"
    using markerConverter_carries(1) by (simp_all add: fresh_env_simps DefaultVersion_def)
  from version_replays_from_marker [OF ex_version_GetVersion fresh_env_simps(1) this(1) fresh_env_simps(6) this(2,3)]
  obtain details where "marker_machine versionMarkerName ''c'' details
      \<in> set (contents (env_decisionsHelper (snd ex_version)))"
    and "\<forall>w2 registry now n. env_dataConverter w2 = env_dataConverter fresh_env \<longrightarrow>
      (\<exists>w3. handleMarkerRecorded registry now n (marker_event versionMarkerName details) w2 = (Inr None, w3)
         \<and> (\<forall>marshal' opts'. GetVersion marshal' ''c'' 1 2 opts' w3 = (Inr 2, w3)))"
    by blast
  then show ?thesis by blast
qed

theorem side_effect_replays_from_marker_witness:
  "\<exists>details w' w3 w4. SideEffect (Some ''r'', None) 7 fresh_env = (Inr (), w')
     \<and> env_calls w' = [ResultCall 7 (Some ''r'') None]
     \<and> handleMarkerRecorded (\<lambda>_. Inl ''none'') 0 1 (marker_event sideEffectMarkerName details)
         (fresh_env\<lparr>env_isReplay := True\<rparr>) = (Inr None, w3)
     \<and> SideEffect (Some ''other'', None) 8 w3 = (Inr (), w4)
     \<and> env_calls w4 = [ResultCall 8 (Some ''r'') None]"
proof -
  let ?w2 = "fresh_env\<lparr>env_isReplay := True\<rparr>"
  have "makeDecisionID decisionTypeMarker (markerID sideEffectMarkerName (show_int (sint (env_counterID fresh_env))))
      \<notin> m_id ` set (contents (env_decisionsHelper fresh_env))"
    and "carries (env_dataConverter fresh_env) [GoInt (sint (env_counterID fresh_env)), GoBytes (Some ''r'')]
      [TInt, TBytes]"
    using markerConverter_carries(2) by (simp_all add: fresh_env_simps)
  from side_effect_replays_from_marker [OF fresh_env_simps(1,6) this(2,1), of 7]
  obtain details w' where live: "SideEffect (Some ''r'', None) 7 fresh_env = (Inr (), w')"
      "env_calls w' = env_calls fresh_env @ [ResultCall 7 (Some ''r'') None]"
    and replay: "\<forall>w2 registry now n f callback'. env_dataConverter w2 = env_dataConverter fresh_env \<and> env_isReplay w2
      \<and> env_counterID w2 = env_counterID fresh_env \<and> env_decisionsHelper w2 = env_decisionsHelper fresh_env \<longrightarrow>
      (\<exists>w3 w4. handleMarkerRecorded registry now n (marker_event sideEffectMarkerName details) w2 = (Inr None, w3)
        \<and> SideEffect f callback' w3 = (Inr (), w4)
        \<and> env_calls w4 = env_calls w2 @ [ResultCall callback' (Some ''r'') None])"
    by blast
  have "env_dataConverter ?w2 = env_dataConverter fresh_env \<and> env_isReplay ?w2
      \<and> env_counterID ?w2 = env_counterID fresh_env \<and> env_decisionsHelper ?w2 = env_decisionsHelper fresh_env"
    by simp
  with replay obtain w3 w4 where
    "handleMarkerRecorded (\<lambda>_. Inl ''none'') 0 1 (marker_event sideEffectMarkerName details) ?w2 = (Inr None, w3)"
    "SideEffect (Some ''other'', None) 8 w3 = (Inr (), w4)"
    "env_calls w4 = env_calls ?w2 @ [ResultCall 8 (Some ''r'') None]" by blast
  with live fresh_env_simps(3) show ?thesis by auto
qed

theorem mutable_side_effect_twice_panics_witness:
  "\<exists>w1 w2. MutableSideEffect ''m'' (GoString ''1'') (=) fresh_env = (Inr (Some ''1''), w1)
    \<and> MutableSideEffect ''m'' (GoString ''2'') (=) w1 = (Inl (stateMachineIllegalStatePanic (duplicateDecision
          (makeDecisionID decisionTypeMarker (markerID mutableSideEffectMarkerName ''m'')))), w2)"
  using mutable_side_effect_twice_panics [OF fresh_env_simps(1,6), of "''m''" markerConverter "GoString ''1''" "''1''"
      "''m=1''" "GoString ''2''" "''2''" "''m=2''" TString "(=)"]
  by (simp add: fresh_env_simps markerConverter_def)
    (simp add: fresh_env_def newWorkflowExecutionEventHandler_def)

lemma show_int_0: "show_int 0 = ''0''"
  by code_simp

theorem NewTimer_by_duration_witness:
  "\<exists>w' seconds. NewTimer 1 7 fresh_env = (Inr (Some ''0''), w') \<and> env_calls w' = [] \<and> 1 \<le> seconds
     \<and> contents (env_decisionsHelper w') = [timer_machine ''0'' seconds 7]"
  using NewTimer_by_duration [of fresh_env 1 7] by (auto simp: fresh_env_simps show_int_0)

theorem unknown_timer_fails_workflow_witness:
  "\<exists>w'. ProcessEvent (\<lambda>_. Inl ''none'') 0 ''st''
      (Some \<lparr>ev_EventId = Some 4, ev_Timestamp = None, ev_EventType = EventTypeTimerFired (Some ''0'')\<rparr>)
      False True fresh_env = (Inr None, w')
    \<and> env_calls w' = [CompleteHandlerCall None (Some (workflowPanicError
      (RecoveredOther ''internal.stateMachineIllegalStatePanic''
        (illegalState_String (unknownDecision (makeDecisionID decisionTypeTimer ''0'')))) ''st''))]"
  using unknown_timer_fails_workflow [of fresh_env "''0''" "\<lparr>ev_EventId = Some 4, ev_Timestamp = None,
      ev_EventType = EventTypeTimerFired (Some ''0'')\<rparr>" None "\<lambda>_. Inl ''none''" 0 "''st''" False True]
  by (simp add: fresh_env_simps)

end
