(* ===== verification/Version_Stability.thy ===== *)
theory Version_Stability
  imports Environment_Replay
begin

text \<open>
  A version of a change, once answered by \<open>GetVersion\<close>, is the answer for the rest of the run:
  no command of the workflow, no event and no local activity result alters it, but for a
  version marker of the history that says otherwise.
\<close>

section \<open>What leaves the version of a change alone\<close>

definition versionIs :: "string \<Rightarrow> int \<Rightarrow> workflowEnv \<Rightarrow> bool" where
  "versionIs c v w \<longleftrightarrow> map_of (env_changeVersions w) c = Some v"

named_theorems version_kept \<open>operations that keep the version of a change\<close>

lemma version_lift [version_kept]: "go_inv (versionIs c v) (lift m)"
  by (rule go_invI) (simp add: lift_def versionIs_def split: prod.split)

lemma version_called [version_kept]: "go_inv (versionIs c v) (called x)"
  by (rule go_invI) (simp add: called_def go_modify_def versionIs_def)

lemma version_frame:
  "(\<And>w. env_changeVersions (u w) = env_changeVersions w) \<Longrightarrow> go_inv (versionIs c v) (go_modify u)"
  by (rule go_invI) (simp add: go_modify_def versionIs_def)

lemma version_basic [version_kept]:
  "go_inv (versionIs c v) (asTimer r)" "go_inv (versionIs c v) (asActivity r)" "go_inv (versionIs c v) (asChildWorkflow r)"
  "go_inv (versionIs c v) (asCancellation r)" "go_inv (versionIs c v) (asSignal r)"
  "go_inv (versionIs c v) GenerateSequence" "go_inv (versionIs c v) GenerateSequenceID"
  "go_inv (versionIs c v) callNil" "go_inv (versionIs c v) badAssertion"
  "go_inv (versionIs c v) (Complete b e)" "go_inv (versionIs c v) (nonNil p)"
  "go_inv (versionIs c v) (constructErrorM reason details)" "go_inv (versionIs c v) (encodeArg x)"
  "go_inv (versionIs c v) (updateWorkflowInfoWithSearchAttributes a)" "go_inv (versionIs c v) (localActivityResultOf lamd)"
  "go_inv (versionIs c v) (SetCurrentReplayTime now t)" "go_inv (versionIs c v) (handleOnce what r s cb result err)"
  unfolding asTimer_def asActivity_def asChildWorkflow_def asCancellation_def asSignal_def GenerateSequence_def
    GenerateSequenceID_def callNil_def badAssertion_def Complete_def nonNil_def constructErrorM_def encodeArg_def
    updateWorkflowInfoWithSearchAttributes_def localActivityResultOf_def SetCurrentReplayTime_def handleOnce_def
  by (auto intro!: go_keeps version_kept version_frame split: scheduledData.split)

lemma version_handles [version_kept]:
  "go_inv (versionIs c v) (scheduledTimer_handle r result err)"
  "go_inv (versionIs c v) (scheduledActivity_handle r result err)"
  "go_inv (versionIs c v) (scheduledChildWorkflow_handle r result err)"
  "go_inv (versionIs c v) (scheduledCancellation_handle r result err)"
  "go_inv (versionIs c v) (scheduledSignal_handle r result err)"
  unfolding scheduledTimer_handle_def scheduledActivity_handle_def scheduledChildWorkflow_handle_def
    scheduledCancellation_handle_def scheduledSignal_handle_def
  by (auto intro!: go_keeps version_kept split: scheduledData.split)

lemma version_issues [version_kept]:
  "go_inv (versionIs c v) (ExecuteActivity ap cb)"
  "go_inv (versionIs c v) (ExecuteChildWorkflow marshal cp cb s)"
  "go_inv (versionIs c v) (NewTimer d cb)"
  "go_inv (versionIs c v) (RequestCancelExternalWorkflow i j k cb)"
  "go_inv (versionIs c v) (SignalExternalWorkflow i j k l x b cb)"
  "go_inv (versionIs c v) (SideEffect f cb)"
  unfolding ExecuteActivity_def ExecuteChildWorkflow_def childWorkflowID_def NewTimer_def RequestCancelExternalWorkflow_def
    SignalExternalWorkflow_def SideEffect_def Let_def
  by (auto intro!: go_keeps version_kept version_frame split: scheduledData.split list.split sum.split option.split prod.split)

lemma version_withCallback [version_kept]:
  "(\<And>cb. go_inv (versionIs c v) (command cb)) \<Longrightarrow> go_inv (versionIs c v) (withCallback command)"
  unfolding withCallback_def by (intro go_keeps)

lemma version_commands [version_kept]:
  "go_inv (versionIs c v) (RequestCancelActivity i)"
  "go_inv (versionIs c v) (RequestCancelTimer i)"
  "go_inv (versionIs c v) (RequestCancelChildWorkflow i j)"
  "go_inv (versionIs c v) (UpsertSearchAttributes marshal attrs)"
  "go_inv (versionIs c v) (ExecuteLocalActivity lp cb)"
  "go_inv (versionIs c v) (RequestCancelLocalActivity i)"
  "go_inv (versionIs c v) (RegisterCancelHandler cb)"
  "go_inv (versionIs c v) (RegisterSignalHandler cb)"
  "go_inv (versionIs c v) (AddSession si)"
  "go_inv (versionIs c v) (RemoveSession i)"
  "go_inv (versionIs c v) (validateVersion i u mn mx)"
  "go_inv (versionIs c v) (encodeValue x)"
  "go_inv (versionIs c v) (decodeValue dc b t)"
  "go_inv (versionIs c v) (recordMutableSideEffect i b)"
  unfolding RequestCancelActivity_def RequestCancelTimer_def RequestCancelChildWorkflow_def
    UpsertSearchAttributes_def changeVersionUpsertID_def ExecuteLocalActivity_def
    RequestCancelLocalActivity_def RegisterCancelHandler_def RegisterSignalHandler_def AddSession_def
    RemoveSession_def validateVersion_def encodeValue_def decodeValue_def recordMutableSideEffect_def Let_def
  by (auto intro!: go_keeps version_kept version_frame split: goValue.split list.split option.split)

lemma version_MutableSideEffect [version_kept]: "go_inv (versionIs c v) (MutableSideEffect i x eq)"
  unfolding MutableSideEffect_def isEqualValue_def Let_def
  by (auto intro!: go_keeps version_kept version_frame split: goValue.split list.split option.split)

lemma version_update: "c' \<noteq> c \<Longrightarrow>
    go_inv (versionIs c v) (go_modify (\<lambda>w. w\<lparr>env_changeVersions := AList.update c' u (env_changeVersions w)\<rparr>))"
  by (rule go_invI) (simp add: go_modify_def versionIs_def update_conv)

lemma version_GetVersion [version_kept]: "go_inv (versionIs c v) (GetVersion marshal c' mn mx opts)"
proof (cases "c' = c")
  case True
  show ?thesis
  proof (rule go_invI)
    fix w assume w: "versionIs c v w"
    then have "snd (GetVersion marshal c' mn mx opts w) = w"
      using True by (simp add: GetVersion_def versionIs_def validateVersion_def go_simps)
    then show "versionIs c v (snd (GetVersion marshal c' mn mx opts w))" using w by simp
  qed
next
  case False
  then show ?thesis
    unfolding GetVersion_def recordVersion_def Let_def
    by (auto intro!: go_keeps version_kept version_update split: option.split)
qed

lemma version_code: "workflow_code m \<Longrightarrow> go_inv (versionIs c v) m"
  by (induction rule: workflow_code.induct) (unfold Now_def IsReplaying_def, (intro go_keeps version_kept; assumption?)+)

section \<open>Events\<close>

lemma version_close [version_kept]:
  "(\<And>r. go_inv (versionIs c v) (f r)) \<Longrightarrow> go_inv (versionIs c v) (closeActivity n f)"
  "(\<And>r s. go_inv (versionIs c v) (g r s)) \<Longrightarrow> go_inv (versionIs c v) (closeChildWorkflow op i g)"
  "go_inv (versionIs c v) (settleCancellation b r e)"
  "go_inv (versionIs c v) (settleSignal r e)"
  unfolding closeActivity_def closeChildWorkflow_def settleCancellation_def settleSignal_def
  by (intro go_keeps version_kept | assumption)+

lemma version_handlers [version_kept]:
  "go_inv (versionIs c v) (handleActivityTaskCompleted a1)"
  "go_inv (versionIs c v) (handleActivityTaskFailed a2)"
  "go_inv (versionIs c v) (handleActivityTaskTimedOut a3)"
  "go_inv (versionIs c v) (handleActivityTaskCanceledEvent a4)"
  "go_inv (versionIs c v) (handleTimerFired i)"
  "go_inv (versionIs c v) handleWorkflowExecutionCancelRequested"
  "go_inv (versionIs c v) (handleWorkflowExecutionSignaled a5)"
  "go_inv (versionIs c v) (handleStartChildWorkflowExecutionFailedEvent i)"
  "go_inv (versionIs c v) (handleChildWorkflowExecutionStartedEvent e)"
  "go_inv (versionIs c v) (handleChildWorkflowExecutionCompleted a6)"
  "go_inv (versionIs c v) (handleChildWorkflowExecutionFailed a7)"
  "go_inv (versionIs c v) (handleChildWorkflowExecutionCanceledEvent a8)"
  "go_inv (versionIs c v) (handleChildWorkflowExecutionTimedOut a9)"
  "go_inv (versionIs c v) (handleChildWorkflowExecutionTerminated e)"
  "go_inv (versionIs c v) (handleUpsertWorkflowSearchAttributes f)"
  "go_inv (versionIs c v) (handleRequestCancelExternalInitiatedEvent n b1)"
  "go_inv (versionIs c v) (handleExternalCancelRequestedEvent b2)"
  "go_inv (versionIs c v) (handleRequestCancelExternalFailedEvent b3)"
  "go_inv (versionIs c v) (handleSignalExternalCompletedEvent k)"
  "go_inv (versionIs c v) (handleSignalExternalFailedEvent cause k)"
  unfolding handleActivityTaskCompleted_def handleActivityTaskFailed_def handleActivityTaskTimedOut_def
    handleActivityTaskCanceledEvent_def handleTimerFired_def handleWorkflowExecutionCancelRequested_def
    handleWorkflowExecutionSignaled_def handleStartChildWorkflowExecutionFailedEvent_def
    handleChildWorkflowExecutionStartedEvent_def handleChildWorkflowExecutionCompleted_def
    handleChildWorkflowExecutionFailed_def handleChildWorkflowExecutionCanceledEvent_def
    handleChildWorkflowExecutionTimedOut_def handleChildWorkflowExecutionTerminated_def
    handleUpsertWorkflowSearchAttributes_def handleRequestCancelExternalInitiatedEvent_def
    handleExternalCancelRequestedEvent_def handleRequestCancelExternalFailedEvent_def
    handleSignalExternalCompletedEvent_def handleSignalExternalFailedEvent_def Let_def
  by (intro go_keeps version_kept version_frame; simp?)+

lemma version_onDecisionTaskStarted:
  "disciplined registry \<Longrightarrow> go_inv (versionIs c v) (onDecisionTaskStarted registry)"
  unfolding onDecisionTaskStarted_def by (intro go_keeps version_kept version_code) (simp add: disciplined_def)

lemma version_handleWorkflowExecutionStarted:
  "disciplined registry \<Longrightarrow> go_inv (versionIs c v) (handleWorkflowExecutionStarted registry a)"
  unfolding handleWorkflowExecutionStarted_def
  by (intro go_keeps version_kept version_frame version_code) (simp_all add: disciplined_def)

lemma version_localMarker:
  assumes "disciplined registry"
  shows "go_inv (versionIs c v) (handleLocalActivityMarker registry now b)"
  unfolding handleLocalActivityMarker_def
  by (auto intro!: go_keeps version_kept version_frame version_onDecisionTaskStarted [OF assms]
      split: list.split goValue.split option.split)

text \<open>What a version marker of the history says, read as \<open>handleMarkerRecorded\<close> reads it.\<close>

definition markedVersion :: "DataConverter \<Rightarrow> MarkerRecordedEventAttributes \<Rightarrow> (string \<times> int) option" where
  "markedVersion dc a = (if get_str (mr_MarkerName a) = versionMarkerName
     then (case EncodedValues_Get dc (mr_Details a) [TString, TInt] of
         (_, Some err) \<Rightarrow> None
       | ([GoString changeID, GoInt version], None) \<Rightarrow> Some (changeID, version)
       | (_, None) \<Rightarrow> Some ([], 0))
     else None)"

definition contradicts :: "DataConverter \<Rightarrow> string \<Rightarrow> int \<Rightarrow> HistoryEvent option \<Rightarrow> bool" where
  "contradicts dc c v event \<longleftrightarrow> (case event of
      Some e \<Rightarrow> (case ev_EventType e of
          EventTypeMarkerRecorded (Some a) \<Rightarrow> (case markedVersion dc a of
              Some (c', u) \<Rightarrow> c' = c \<and> u \<noteq> v
            | None \<Rightarrow> False)
        | _ \<Rightarrow> False)
    | None \<Rightarrow> False)"

lemma version_marker:
  assumes d: "disciplined registry" and w: "versionIs c v w"
    and ok: "\<not> contradicts (env_dataConverter w) c v (Some e)" and e: "ev_EventType e = EventTypeMarkerRecorded a"
  shows "versionIs c v (snd (handleMarkerRecorded registry now n a w))"
proof (cases a)
  case None
  then show ?thesis using w by (simp add: handleMarkerRecorded_def nonNil_def callNil_def go_panic_def)
next
  case (Some b)
  show ?thesis
  proof (cases "get_str (mr_MarkerName b) = versionMarkerName")
    case True
    have other: "versionMarkerName \<noteq> sideEffectMarkerName" by (simp add: versionMarkerName_def sideEffectMarkerName_def)
    show ?thesis
      using w ok e Some True other
      by (auto simp: handleMarkerRecorded_def nonNil_def go_simps contradicts_def markedVersion_def versionIs_def update_conv
          split: prod.splits option.splits list.splits goValue.splits if_splits)
  next
    case False
    then have "go_inv (versionIs c v) (handleMarkerRecorded registry now n a)"
      unfolding handleMarkerRecorded_def Some nonNil_def Let_def
      by (auto intro!: go_keeps version_kept version_frame version_localMarker [OF d]
          split: list.split goValue.split option.split)
    then show ?thesis using w by (rule go_invD)
  qed
qed

lemma version_dispatchEvent:
  assumes d: "disciplined registry" and w: "versionIs c v w" and ok: "\<not> contradicts (env_dataConverter w) c v (Some e)"
  shows "versionIs c v (snd (dispatchEvent registry now e w))"
proof (cases "\<exists>a. ev_EventType e = EventTypeMarkerRecorded a")
  case True
  then obtain a where a: "ev_EventType e = EventTypeMarkerRecorded a" by blast
  then show ?thesis using version_marker [OF d w ok a] by (simp add: dispatchEvent_def)
next
  case False
  have "go_inv (versionIs c v) (dispatchEvent registry now e)"
    unfolding dispatchEvent_def noError_def
    by (insert False, cases "ev_EventType e"; simp only: EventType.case EventType.simps simp_thms ex_simps;
        intro go_keeps version_kept version_frame version_onDecisionTaskStarted [OF d] version_handleWorkflowExecutionStarted [OF d]; simp?)
  then show ?thesis using w by (rule go_invD)
qed

lemma go_inv_after: "I (snd (m w)) \<Longrightarrow> (\<And>x. go_inv I (k x)) \<Longrightarrow> I (snd (go_bind m k w))"
  by (auto simp: go_bind_def go_inv_def split: prod.splits sum.splits)

lemma version_ProcessEvent:
  assumes d: "disciplined registry" and w: "versionIs c v w" and ok: "\<not> contradicts (env_dataConverter w) c v event"
  shows "versionIs c v (snd (ProcessEvent registry now st event isReplay isLast w))"
proof (cases event)
  case None
  then show ?thesis using w by (simp add: ProcessEvent_def go_simps)
next
  case (Some e)
  let ?w = "w\<lparr>env_isReplay := isReplay\<rparr>"
  have "versionIs c v ?w" using w by (simp add: versionIs_def)
  then have "versionIs c v (snd (dispatchEvent registry now e ?w))"
    using ok Some by (intro version_dispatchEvent [OF d]) simp_all
  then have body: "versionIs c v (snd (processBody registry now e isReplay isLast w))"
    unfolding processBody_def
    by (subst go_then_modify, rule go_inv_after) (auto intro!: go_keeps version_frame version_onDecisionTaskStarted [OF d])
  have "go_inv (versionIs c v) (go_then (Complete None (Some (workflowPanicError (recoveredOf p) st))) (go_return None) :: string option ego)" for p
    by (intro go_keeps version_kept)
  then show ?thesis
    using body Some by (auto simp: ProcessEvent_def go_recover_def go_inv_def split: prod.splits sum.splits)
qed

section \<open>The rest of the run\<close>

text \<open>
  What may happen after a version of the change \<open>c\<close> was answered: the code goes on, events are processed
  that do not contradict the version, local activities end, decisions are collected.
\<close>

inductive later :: "workflowRegistry \<Rightarrow> string \<Rightarrow> int \<Rightarrow> workflowEnv \<Rightarrow> workflowEnv \<Rightarrow> bool" for registry c v w where
  now: "later registry c v w w"
| code: "later registry c v w w1 \<Longrightarrow> workflow_code m \<Longrightarrow> later registry c v w (snd (m w1))"
| event: "later registry c v w w1 \<Longrightarrow> \<not> contradicts (env_dataConverter w1) c v event \<Longrightarrow>
    later registry c v w (snd (ProcessEvent registry t st event isReplay isLast w1))"
| localResult: "later registry c v w w1 \<Longrightarrow> later registry c v w (snd (ProcessLocalActivityResult registry t st lar w1))"
| collect: "later registry c v w w1 \<Longrightarrow> later registry c v w (snd (lift (getDecisions b) w1))"

lemma version_localResult:
  assumes d: "disciplined registry"
  shows "go_inv (versionIs c v) (ProcessLocalActivityResult registry t st lar)"
proof -
  have "\<not> contradicts dc c v (Some \<lparr>ev_EventId = None, ev_Timestamp = None,
      ev_EventType = EventTypeMarkerRecorded (Some \<lparr>mr_MarkerName = Some localActivityMarkerName, mr_Details = b\<rparr>)\<rparr>)" for dc b
    by (simp add: contradicts_def markedVersion_def localActivityMarkerName_def versionMarkerName_def)
  then have "go_inv (versionIs c v) (ProcessEvent registry t st (Some \<lparr>ev_EventId = None, ev_Timestamp = None,
      ev_EventType = EventTypeMarkerRecorded (Some \<lparr>mr_MarkerName = Some localActivityMarkerName, mr_Details = b\<rparr>)\<rparr>) False False)" for b
    by (intro go_invI version_ProcessEvent [OF d]) simp_all
  then show ?thesis unfolding ProcessLocalActivityResult_def by (intro go_keeps version_kept) simp_all
qed

lemma version_later:
  assumes d: "disciplined registry" and "later registry c v w w1" and "versionIs c v w"
  shows "versionIs c v w1"
  using assms(2,3)
proof (induction rule: later.induct)
  case (code w1 m)
  then show ?case using version_code [of m c v] by (auto intro: go_invD)
next
  case (event w1 event t st isReplay isLast)
  then show ?case using version_ProcessEvent [OF d] by blast
next
  case (localResult w1 t st lar)
  then show ?case using go_invD [OF version_localResult [OF d]] by blast
next
  case (collect w1 b)
  then show ?case using go_invD [OF version_lift] by blast
qed simp

text \<open>
  (C18) A version, once chosen, stays.  \<open>GetVersion\<close> answers a version inside the range the code
  supports.  From then on, whatever the workflow code does and whatever events and local
  activity results follow, every further call for the same change answers the same version,
  whatever its options, as long as the code still supports it, and panics otherwise.  The
  exception is a version marker in the history that carries another version for the change, which
  \<open>handleMarkerRecorded\<close> takes over.
\<close>

theorem version_stable:
  assumes "disciplined registry" and "GetVersion marshal c lo hi opts w = (Inr v, w')" and "later registry c v w' w1"
  shows "lo \<le> v \<and> v \<le> hi \<and>
    (if lo' \<le> v \<and> v \<le> hi' then GetVersion marshal' c lo' hi' opts' w1 = (Inr v, w1)
     else \<exists>msg. GetVersion marshal' c lo' hi' opts' w1 = (Inl (StringPanic msg), w1))"
proof -
  have v: "lo \<le> v \<and> v \<le> hi \<and> versionIs c v w'"
    using assms(2) by (auto simp: GetVersion_def Let_def go_simps update_conv go_bind_eq_Inr go_then_eq_Inr
        validateVersion_ok versionIs_def split: option.splits)
  then have "versionIs c v w1" using version_later [OF assms(1,3)] by blast
  then show ?thesis
    using v by (auto simp: GetVersion_def validateVersion_def go_simps versionIs_def)
qed

text \<open>The version is still answered after another change was asked for.\<close>

definition exLater :: workflowEnv where
  "exLater = snd (go_bind (GetVersion (\<lambda>_. Inr []) ''d'' 1 7 []) (\<lambda>_. go_return ()) (snd ex_version))"

theorem version_stable_witness:
  "disciplined (\<lambda>_. Inl ''none'') \<and> later (\<lambda>_. Inl ''none'') ''c'' 2 (snd ex_version) exLater \<and>
   GetVersion (\<lambda>_. Inl []) ''c'' 0 5 [useMinVersionOption] exLater = (Inr 2, exLater)"
proof -
  have d: "disciplined (\<lambda>_. Inl ''none'')" by (simp add: disciplined_def)
  have l: "later (\<lambda>_. Inl ''none'') ''c'' 2 (snd ex_version) exLater"
    unfolding exLater_def by (intro later.code later.now workflow_code.intros)
  from version_stable [OF d ex_version_GetVersion l, of 0 5] d l show ?thesis by simp
qed

text \<open>A marker that says otherwise is taken over.\<close>

lemma marker_overrides_version:
  assumes "versionIs c v w" and "EncodedValues_Get (env_dataConverter w) (Some details) [TString, TInt] = ([GoString c, GoInt u], None)"
  shows "versionIs c u (snd (handleMarkerRecorded registry now n (marker_event versionMarkerName details) w))"
proof -
  have "versionMarkerName \<noteq> sideEffectMarkerName" by (simp add: versionMarkerName_def sideEffectMarkerName_def)
  then show ?thesis
    using assms by (simp add: handleMarkerRecorded_def marker_event_def nonNil_def go_simps versionIs_def update_conv)
qed

end
