(* ===== verification/Replay_Match.thy ===== *)
theory Replay_Match
  imports Event_Handler
begin

text \<open>
  The determinism check of a replay (\<open>workflow_replayer_utils.go\<close>): the decisions a replayed
  workflow makes are matched, in order, with the events the service recorded for the
  decisions of the first execution.  The model keeps the two indices of the loop.

  The texts of the error are made by two reflective printers, which are parameters.
\<close>

section \<open>Entries that are not compared\<close>

definition replayDomainName :: string where
  "replayDomainName = ''ReplayDomain''"

definition IsReplayDomain :: "string \<Rightarrow> bool" where
  "IsReplayDomain dn = (replayDomainName = dn)"

definition isUncheckedMarker :: "string option \<Rightarrow> bool" where
  "isUncheckedMarker name = (get_str name = versionMarkerName \<or> get_str name = mutableSideEffectMarkerName)"

definition skipDeterministicCheckForEvent :: "HistoryEvent \<Rightarrow> bool" where
  "skipDeterministicCheckForEvent e = (case ev_EventType e of
      EventTypeMarkerRecorded a \<Rightarrow> isUncheckedMarker (field a mr_MarkerName)
    | _ \<Rightarrow> False)"

text \<open>
  A version marker followed by the search-attribute update of the same \<open>GetVersion\<close> call.
  The fields of the second event are read without a nil check.
\<close>

definition isVersionMarker :: "HistoryEvent \<Rightarrow> bool" where
  "isVersionMarker e = (case ev_EventType e of
      EventTypeMarkerRecorded a \<Rightarrow> get_str (field a mr_MarkerName) = versionMarkerName
    | _ \<Rightarrow> False)"

definition hasChangeVersion :: "HistoryEvent \<Rightarrow> panicValue + bool" where
  "hasChangeVersion e = (case ev_EventType e of
      EventTypeUpsertWorkflowSearchAttributes (Some (Some fs)) \<Rightarrow>
        Inr (map_of fs CadenceChangeVersion \<noteq> None)
    | EventTypeUpsertWorkflowSearchAttributes _ \<Rightarrow> Inl nilDereference
    | _ \<Rightarrow> Inr False)"

definition skipDeterministicCheckForUpsertChangeVersion ::
  "HistoryEvent list \<Rightarrow> nat \<Rightarrow> panicValue + bool" where
  "skipDeterministicCheckForUpsertChangeVersion events idx =
     (if isVersionMarker (events ! idx) \<and> Suc idx < length events
      then hasChangeVersion (events ! Suc idx) else Inr False)"

definition skipDeterministicCheckForDecision :: "Decision \<Rightarrow> bool" where
  "skipDeterministicCheckForDecision d = (case d of
      RecordMarker a \<Rightarrow> isUncheckedMarker (rm_MarkerName a)
    | _ \<Rightarrow> False)"

section \<open>One decision against one event\<close>

text \<open>
  \<open>reflect.DeepEqual\<close> on the two maps; the model does not tell a nil map from an empty one,
  which only the strict mode could see.
\<close>

definition isSearchAttributesMatched :: "fields option \<Rightarrow> fields option \<Rightarrow> bool" where
  "isSearchAttributesMatched attrFromEvent attrFromDecision = (case (attrFromEvent, attrFromDecision) of
      (Some e, Some d) \<Rightarrow> list_all (\<lambda>k. map_of e k = map_of d k) (map fst e @ map fst d)
    | (None, None) \<Rightarrow> True
    | _ \<Rightarrow> False)"

definition checkDomainsInDecisionAndEvent :: "string \<Rightarrow> string \<Rightarrow> bool" where
  "checkDomainsInDecisionAndEvent eventDomainName decisionDomainName =
     (if decisionDomainName = [] \<or> IsReplayDomain decisionDomainName then False
      else eventDomainName \<noteq> decisionDomainName)"

definition taskListName :: "TaskList option \<Rightarrow> string" where
  "taskListName t = get_str (field t tl_Name)"

text \<open>Reading a field of the event's attributes, once it is known which test comes first.\<close>

definition attr :: "'a option \<Rightarrow> ('a \<Rightarrow> bool) \<Rightarrow> panicValue + bool" where
  "attr a test = (case a of None \<Rightarrow> Inl nilDereference | Some x \<Rightarrow> Inr (test x))"

definition isDecisionMatchEvent :: "Decision \<Rightarrow> HistoryEvent \<Rightarrow> bool \<Rightarrow> panicValue + bool" where
  "isDecisionMatchEvent d e strictMode = (case d of
      ScheduleActivityTask da \<Rightarrow> (case ev_EventType e of
        EventTypeActivityTaskScheduled ea \<Rightarrow>
          if get_str (field ea ats_ActivityId) \<noteq> get_str (sat_ActivityId da) then Inr False
          else attr ea (\<lambda>a.
            lastPartOfName (get_str (ats_ActivityType a)) = lastPartOfName (get_str (sat_ActivityType da))
            \<and> \<not> (strictMode \<and> taskListName (ats_TaskList a) \<noteq> taskListName (sat_TaskList da))
            \<and> \<not> (strictMode \<and> bytesOf (ats_Input a) \<noteq> sat_Input da))
      | _ \<Rightarrow> Inr False)
    | RequestCancelActivityTask activityId \<Rightarrow> (case ev_EventType e of
        EventTypeActivityTaskCancelRequested i \<Rightarrow> Inr (get_str i = get_str activityId)
      | _ \<Rightarrow> Inr False)
    | StartTimer da \<Rightarrow> (case ev_EventType e of
        EventTypeTimerStarted i timeout \<Rightarrow> Inr (get_str i = get_str (st_TimerId da)
          \<and> \<not> (strictMode \<and> get_int timeout \<noteq> get_int (st_StartToFireTimeoutSeconds da)))
      | _ \<Rightarrow> Inr False)
    | CancelTimer timerId \<Rightarrow> (case ev_EventType e of
        EventTypeTimerCanceled i \<Rightarrow> Inr (get_str i = get_str timerId)
      | EventTypeCancelTimerFailed i \<Rightarrow> Inr (get_str i = get_str timerId)
      | _ \<Rightarrow> Inr False)
    | CompleteWorkflowExecution result \<Rightarrow> (case ev_EventType e of
        EventTypeWorkflowExecutionCompleted ea \<Rightarrow>
          if strictMode then attr ea (\<lambda>r. bytesOf r = result) else Inr True
      | _ \<Rightarrow> Inr False)
    | FailWorkflowExecution reason details \<Rightarrow> (case ev_EventType e of
        EventTypeWorkflowExecutionFailed ea \<Rightarrow>
          if \<not> strictMode then Inr True
          else if get_str (field ea wef_Reason) \<noteq> get_str reason then Inr False
          else attr ea (\<lambda>a. bytesOf (wef_Details a) = details)
      | _ \<Rightarrow> Inr False)
    | RecordMarker da \<Rightarrow> (case ev_EventType e of
        EventTypeMarkerRecorded ea \<Rightarrow>
          Inr (get_str (field ea mr_MarkerName) = get_str (rm_MarkerName da))
      | _ \<Rightarrow> Inr False)
    | RequestCancelExternalWorkflowExecution da \<Rightarrow> (case ev_EventType e of
        EventTypeRequestCancelExternalWorkflowExecutionInitiated ea \<Rightarrow>
          if checkDomainsInDecisionAndEvent (get_str (field ea rci_Domain)) (get_str (rce_Domain da))
          then Inr False
          else attr ea (\<lambda>a. workflowIdOf (rci_WorkflowExecution a) = get_str (rce_WorkflowId da))
      | _ \<Rightarrow> Inr False)
    | SignalExternalWorkflowExecution da \<Rightarrow> (case ev_EventType e of
        EventTypeSignalExternalWorkflowExecutionInitiated ea \<Rightarrow>
          if checkDomainsInDecisionAndEvent (get_str (field ea sei_Domain)) (get_str (sew_Domain da))
             \<or> get_str (field ea sei_SignalName) \<noteq> get_str (sew_SignalName da)
          then Inr False
          else attr ea (\<lambda>a. workflowIdOf (sei_WorkflowExecution a) = workflowIdOf (sew_Execution da))
      | _ \<Rightarrow> Inr False)
    | CancelWorkflowExecution details \<Rightarrow> (case ev_EventType e of
        EventTypeWorkflowExecutionCanceled ea \<Rightarrow>
          if strictMode then attr ea (\<lambda>b. bytesOf b = details) else Inr True
      | _ \<Rightarrow> Inr False)
    | ContinueAsNewWorkflowExecution _ \<Rightarrow> (case ev_EventType e of
        EventTypeWorkflowExecutionContinuedAsNew _ \<Rightarrow> Inr True
      | _ \<Rightarrow> Inr False)
    | StartChildWorkflowExecution da \<Rightarrow> (case ev_EventType e of
        EventTypeStartChildWorkflowExecutionInitiated ea \<Rightarrow> attr ea (\<lambda>a.
          lastPartOfName (get_str (sci_WorkflowType a)) = lastPartOfName (get_str (scw_WorkflowType da))
          \<and> \<not> (strictMode \<and> checkDomainsInDecisionAndEvent (get_str (sci_Domain a)) (get_str (scw_Domain da)))
          \<and> \<not> (strictMode \<and> taskListName (sci_TaskList a) \<noteq> taskListName (scw_TaskList da)))
      | _ \<Rightarrow> Inr False)
    | UpsertWorkflowSearchAttributes attributes \<Rightarrow> (case ev_EventType e of
        EventTypeUpsertWorkflowSearchAttributes ea \<Rightarrow>
          if strictMode then attr ea (\<lambda>a. isSearchAttributesMatched a attributes) else Inr True
      | _ \<Rightarrow> Inr False))"

section \<open>The loop\<close>

text \<open>The printers of \<open>internal/common/util\<close>.\<close>

record stringer =
  HistoryEventToString :: "HistoryEvent \<Rightarrow> string"
  DecisionToString :: "Decision \<Rightarrow> string"

definition NewNonDeterminsticError ::
  "stringer \<Rightarrow> string \<Rightarrow> HistoryEvent option \<Rightarrow> Decision option \<Rightarrow> goError" where
  "NewNonDeterminsticError p reason history decision = NonDeterministicError reason
     (case history of None \<Rightarrow> [] | Some e \<Rightarrow> HistoryEventToString p e)
     (case decision of None \<Rightarrow> [] | Some d \<Rightarrow> DecisionToString p d)"

function matchLoop ::
  "stringer \<Rightarrow> Decision list \<Rightarrow> HistoryEvent list \<Rightarrow> nat \<Rightarrow> nat \<Rightarrow> panicValue + goError option" where
  "matchLoop p ds hs di hi =
     (if \<not> (hi < length hs \<or> di < length ds) then Inr None
      else case (if hi < length hs then skipDeterministicCheckForUpsertChangeVersion hs hi else Inr False) of
        Inl e \<Rightarrow> Inl e
      | Inr skipPair \<Rightarrow>
          if skipPair then matchLoop p ds hs di (hi + 2)
          else if hi < length hs \<and> skipDeterministicCheckForEvent (hs ! hi) then matchLoop p ds hs di (hi + 1)
          else if di < length ds \<and> skipDeterministicCheckForDecision (ds ! di) then matchLoop p ds hs (di + 1) hi
          else if \<not> di < length ds then
            Inr (Some (NewNonDeterminsticError p ''missing replay decision'' (Some (hs ! hi)) None))
          else if \<not> hi < length hs then
            Inr (Some (NewNonDeterminsticError p ''extra replay decision'' None (Some (ds ! di))))
          else case isDecisionMatchEvent (ds ! di) (hs ! hi) False of
            Inl e \<Rightarrow> Inl e
          | Inr b \<Rightarrow> if b then matchLoop p ds hs (di + 1) (hi + 1)
              else Inr (Some (NewNonDeterminsticError p ''mismatch'' (Some (hs ! hi)) (Some (ds ! di)))))"
  by pat_completeness auto
termination
  by (relation "measure (\<lambda>(p, ds, hs, di, hi). (length ds - di) + (length hs - hi))") (auto split: if_splits)

declare matchLoop.simps [simp del]

definition matchReplayWithHistory ::
  "stringer \<Rightarrow> Decision list \<Rightarrow> HistoryEvent list \<Rightarrow> panicValue + goError option" where
  "matchReplayWithHistory p replayDecisions historyEvents = matchLoop p replayDecisions historyEvents 0 0"

section \<open>Reference\<close>

text \<open>
  What is compared: of the events, all but the pairs a \<open>GetVersion\<close> call left and the other
  unchecked markers; of the decisions, all but the unchecked markers.
\<close>

fun comparedEvents :: "HistoryEvent list \<Rightarrow> HistoryEvent list" where
  "comparedEvents [] = []"
| "comparedEvents [e] = (if skipDeterministicCheckForEvent e then [] else [e])"
| "comparedEvents (e # e' # es) =
     (if isVersionMarker e \<and> hasChangeVersion e' = Inr True then comparedEvents es
      else if skipDeterministicCheckForEvent e then comparedEvents (e' # es)
      else e # comparedEvents (e' # es))"

definition comparedDecisions :: "Decision list \<Rightarrow> Decision list" where
  "comparedDecisions ds = filter (\<lambda>d. \<not> skipDeterministicCheckForDecision d) ds"

definition corresponds :: "Decision \<Rightarrow> HistoryEvent \<Rightarrow> bool" where
  "corresponds d e \<longleftrightarrow> isDecisionMatchEvent d e False = Inr True"

text \<open>The first difference of the two lists, as an error.\<close>

fun firstDifference :: "stringer \<Rightarrow> Decision list \<Rightarrow> HistoryEvent list \<Rightarrow> goError option" where
  "firstDifference p [] [] = None"
| "firstDifference p [] (e # _) = Some (NewNonDeterminsticError p ''missing replay decision'' (Some e) None)"
| "firstDifference p (d # _) [] = Some (NewNonDeterminsticError p ''extra replay decision'' None (Some d))"
| "firstDifference p (d # ds) (e # es) =
     (if corresponds d e then firstDifference p ds es
      else Some (NewNonDeterminsticError p ''mismatch'' (Some e) (Some d)))"

lemma firstDifference_None: "firstDifference p ds es = None \<longleftrightarrow> list_all2 corresponds ds es"
  by (induction p ds es rule: firstDifference.induct) auto

text \<open>The service always sends the attributes of an event.\<close>

definition attributes_present :: "HistoryEvent \<Rightarrow> bool" where
  "attributes_present e = (case ev_EventType e of
      EventTypeActivityTaskScheduled None \<Rightarrow> False
    | EventTypeRequestCancelExternalWorkflowExecutionInitiated None \<Rightarrow> False
    | EventTypeSignalExternalWorkflowExecutionInitiated None \<Rightarrow> False
    | EventTypeStartChildWorkflowExecutionInitiated None \<Rightarrow> False
    | EventTypeUpsertWorkflowSearchAttributes None \<Rightarrow> False
    | EventTypeUpsertWorkflowSearchAttributes (Some None) \<Rightarrow> False
    | _ \<Rightarrow> True)"

lemma attributes_present_match:
  assumes "attributes_present e"
  shows "isDecisionMatchEvent d e False = Inr (corresponds d e)"
proof -
  have "\<exists>b. isDecisionMatchEvent d e False = Inr b"
    using assms
    by (cases "ev_EventType e"; cases d) (auto simp: isDecisionMatchEvent_def attributes_present_def attr_def
        split: option.splits)
  then show ?thesis by (auto simp: corresponds_def)
qed

lemma attributes_present_change: "attributes_present e \<Longrightarrow> \<exists>b. hasChangeVersion e = Inr b"
  by (cases "ev_EventType e") (auto simp: hasChangeVersion_def attributes_present_def split: option.splits)

text \<open>The pair at the front of what is left of the history.\<close>

definition versionPair :: "HistoryEvent list \<Rightarrow> bool" where
  "versionPair es = (case es of e # e' # _ \<Rightarrow> isVersionMarker e \<and> hasChangeVersion e' = Inr True | _ \<Rightarrow> False)"

lemma comparedEvents_Cons:
  "comparedEvents (e # es) = (if versionPair (e # es) then comparedEvents (tl es)
     else if skipDeterministicCheckForEvent e then comparedEvents es else e # comparedEvents es)"
  by (cases es) (auto simp: versionPair_def)

lemma skip_versionPair:
  assumes "\<forall>e \<in> set hs. attributes_present e" and "hi < length hs"
  shows "skipDeterministicCheckForUpsertChangeVersion hs hi = Inr (versionPair (drop hi hs))"
proof (cases "Suc hi < length hs")
  case True
  then have "drop hi hs = hs ! hi # hs ! Suc hi # drop (Suc (Suc hi)) hs"
    by (simp add: Cons_nth_drop_Suc)
  moreover have "attributes_present (hs ! Suc hi)" using assms(1) True by simp
  ultimately show ?thesis
    using True attributes_present_change [of "hs ! Suc hi"]
    by (auto simp: skipDeterministicCheckForUpsertChangeVersion_def versionPair_def)
next
  case False
  with assms(2) have "drop hi hs = [hs ! hi]" by (simp add: Cons_nth_drop_Suc [symmetric])
  with False show ?thesis by (simp add: skipDeterministicCheckForUpsertChangeVersion_def versionPair_def)
qed

lemma matchLoop_reference:
  assumes "\<forall>e \<in> set hs. attributes_present e"
  shows "matchLoop p ds hs di hi =
    Inr (firstDifference p (comparedDecisions (drop di ds)) (comparedEvents (drop hi hs)))"
  using assms
proof (induction p ds hs di hi rule: matchLoop.induct)
  case (1 p ds hs di hi)
  let ?E = "comparedEvents (drop hi hs)" and ?D = "comparedDecisions (drop di ds)"
  have E: "drop hi hs = hs ! hi # drop (hi + 1) hs" if "hi < length hs"
    using that by (simp add: Cons_nth_drop_Suc)
  have D: "drop di ds = ds ! di # drop (di + 1) ds" if "di < length ds"
    using that by (simp add: Cons_nth_drop_Suc)
  note skip = skip_versionPair [OF "1.prems"]
  have m: "isDecisionMatchEvent (ds ! di) (hs ! hi) False = Inr (corresponds (ds ! di) (hs ! hi))"
    if "hi < length hs"
    using that "1.prems" by (simp add: attributes_present_match)
  consider (finished) "\<not> (hi < length hs \<or> di < length ds)"
    | (pair) "hi < length hs" "versionPair (drop hi hs)"
    | (event) "hi < length hs" "\<not> versionPair (drop hi hs)" "skipDeterministicCheckForEvent (hs ! hi)"
    | (decision) "hi < length hs \<longrightarrow> \<not> versionPair (drop hi hs) \<and> \<not> skipDeterministicCheckForEvent (hs ! hi)"
        "di < length ds" "skipDeterministicCheckForDecision (ds ! di)"
    | (missing) "hi < length hs" "\<not> versionPair (drop hi hs)" "\<not> skipDeterministicCheckForEvent (hs ! hi)"
        "\<not> di < length ds"
    | (extra) "\<not> hi < length hs" "di < length ds" "\<not> skipDeterministicCheckForDecision (ds ! di)"
    | (both) "hi < length hs" "\<not> versionPair (drop hi hs)" "\<not> skipDeterministicCheckForEvent (hs ! hi)"
        "di < length ds" "\<not> skipDeterministicCheckForDecision (ds ! di)"
    by blast
  then show ?case
  proof cases
    case finished
    then show ?thesis by (simp add: matchLoop.simps [of p ds hs di hi] comparedDecisions_def)
  next
    case pair
    then have "matchLoop p ds hs di hi = matchLoop p ds hs di (hi + 2)"
      using skip by (simp add: matchLoop.simps [of p ds hs di hi])
    also have "\<dots> = Inr (firstDifference p ?D (comparedEvents (drop (hi + 2) hs)))"
      using "1.IH"(1) "1.prems" pair skip by simp
    also have "comparedEvents (drop (hi + 2) hs) = ?E"
      using pair E by (simp add: comparedEvents_Cons drop_Suc tl_drop)
    finally show ?thesis .
  next
    case event
    then show ?thesis using "1.IH"(2) "1.prems" skip E
      by (simp add: matchLoop.simps [of p ds hs di hi] comparedEvents_Cons)
  next
    case decision
    then show ?thesis using "1.IH"(3) [of False] "1.prems" skip D
      by (cases "hi < length hs") (simp_all add: matchLoop.simps [of p ds hs di hi] comparedDecisions_def)
  next
    case missing
    then show ?thesis using skip E
      by (simp add: matchLoop.simps [of p ds hs di hi] comparedEvents_Cons comparedDecisions_def)
  next
    case extra
    then show ?thesis using skip D
      by (simp add: matchLoop.simps [of p ds hs di hi] comparedDecisions_def)
  next
    case both
    then show ?thesis using "1.IH"(4) "1.prems" skip E D m
      by (simp add: matchLoop.simps [of p ds hs di hi] comparedEvents_Cons comparedDecisions_def)
  qed
qed

section \<open>Properties\<close>

text \<open>
  (C24) The check finds the first difference.  For histories whose events carry their
  attributes the loop over two indices never panics and returns the first difference
  between the compared decisions and the compared events; it accepts exactly when the two
  correspond one to one.
\<close>

theorem matchReplayWithHistory_reference:
  assumes "\<forall>e \<in> set historyEvents. attributes_present e"
  shows "matchReplayWithHistory p replayDecisions historyEvents =
      Inr (firstDifference p (comparedDecisions replayDecisions) (comparedEvents historyEvents))
    \<and> (matchReplayWithHistory p replayDecisions historyEvents = Inr None \<longleftrightarrow>
      list_all2 corresponds (comparedDecisions replayDecisions) (comparedEvents historyEvents))"
  using matchLoop_reference [OF assms, of p replayDecisions 0 0]
  by (simp add: matchReplayWithHistory_def firstDifference_None)

definition ex_printers :: stringer where
  "ex_printers = \<lparr>HistoryEventToString = (\<lambda>e. ''event''), DecisionToString = (\<lambda>d. ''decision'')\<rparr>"

definition ex_event :: "EventType \<Rightarrow> HistoryEvent" where
  "ex_event t = \<lparr>ev_EventId = None, ev_Timestamp = None, ev_EventType = t\<rparr>"

definition ex_history :: "HistoryEvent list" where
  "ex_history =
    [ex_event (EventTypeMarkerRecorded (Some \<lparr>mr_MarkerName = Some versionMarkerName, mr_Details = None\<rparr>)),
     ex_event (EventTypeUpsertWorkflowSearchAttributes (Some (Some [(CadenceChangeVersion, [])]))),
     ex_event (EventTypeTimerStarted (Some ''1'') (Some 5))]"

theorem matchReplayWithHistory_reference_witness:
  "matchReplayWithHistory ex_printers [CancelTimer (Some ''1'')] ex_history =
     Inr (Some (NonDeterministicError ''mismatch'' ''event'' ''decision''))"
proof -
  have "\<forall>e \<in> set ex_history. attributes_present e"
    by (simp add: ex_history_def ex_event_def attributes_present_def)
  moreover have "firstDifference ex_printers (comparedDecisions [CancelTimer (Some ''1'')]) (comparedEvents ex_history) =
      Some (NonDeterministicError ''mismatch'' ''event'' ''decision'')"
    by code_simp
  ultimately show ?thesis
    using matchReplayWithHistory_reference [of ex_history ex_printers "[CancelTimer (Some ''1'')]"] by simp
qed

text \<open>
  The event the service records for a decision: same identifiers, the workflow's own domain
  where the decision names none.
\<close>

definition recordedAs :: "Decision \<Rightarrow> EventType \<Rightarrow> bool" where
  "recordedAs d t = (case (d, t) of
      (ScheduleActivityTask da, EventTypeActivityTaskScheduled (Some a)) \<Rightarrow>
        ats_ActivityId a = sat_ActivityId da \<and> ats_ActivityType a = sat_ActivityType da
    | (RequestCancelActivityTask i, EventTypeActivityTaskCancelRequested j) \<Rightarrow> i = j
    | (StartTimer da, EventTypeTimerStarted i n) \<Rightarrow>
        i = st_TimerId da \<and> n = st_StartToFireTimeoutSeconds da
    | (CancelTimer i, EventTypeTimerCanceled j) \<Rightarrow> i = j
    | (CancelTimer i, EventTypeCancelTimerFailed j) \<Rightarrow> i = j
    | (CompleteWorkflowExecution _, EventTypeWorkflowExecutionCompleted (Some _)) \<Rightarrow> True
    | (FailWorkflowExecution _ _, EventTypeWorkflowExecutionFailed (Some _)) \<Rightarrow> True
    | (CancelWorkflowExecution _, EventTypeWorkflowExecutionCanceled (Some _)) \<Rightarrow> True
    | (ContinueAsNewWorkflowExecution _, EventTypeWorkflowExecutionContinuedAsNew (Some _)) \<Rightarrow> True
    | (StartChildWorkflowExecution da, EventTypeStartChildWorkflowExecutionInitiated (Some a)) \<Rightarrow>
        sci_WorkflowType a = scw_WorkflowType da \<and> sci_WorkflowId a = scw_WorkflowId da
    | (RequestCancelExternalWorkflowExecution da,
       EventTypeRequestCancelExternalWorkflowExecutionInitiated (Some a)) \<Rightarrow>
        (get_str (rce_Domain da) \<noteq> [] \<longrightarrow> rci_Domain a = rce_Domain da)
        \<and> workflowIdOf (rci_WorkflowExecution a) = get_str (rce_WorkflowId da)
    | (SignalExternalWorkflowExecution da, EventTypeSignalExternalWorkflowExecutionInitiated (Some a)) \<Rightarrow>
        (get_str (sew_Domain da) \<noteq> [] \<longrightarrow> sei_Domain a = sew_Domain da)
        \<and> sei_SignalName a = sew_SignalName da \<and> sei_WorkflowExecution a = sew_Execution da
    | (RecordMarker da, EventTypeMarkerRecorded (Some a)) \<Rightarrow> mr_MarkerName a = rm_MarkerName da
    | (UpsertWorkflowSearchAttributes fs, EventTypeUpsertWorkflowSearchAttributes (Some gs)) \<Rightarrow> fs = gs
    | _ \<Rightarrow> False)"

lemma recordedAs_corresponds: "recordedAs d (ev_EventType e) \<Longrightarrow> corresponds d e"
  by (cases d; cases "ev_EventType e")
    (auto simp: recordedAs_def corresponds_def isDecisionMatchEvent_def attr_def field_def
      checkDomainsInDecisionAndEvent_def split: option.splits)

text \<open>
  (C25) A deterministic workflow is accepted.  If the compared decisions are, one by one,
  those whose events the service recorded, the replay passes the check, whatever version
  markers, their search-attribute updates and mutable side effects lie between.
\<close>

theorem recorded_history_accepted:
  assumes "\<forall>e \<in> set historyEvents. attributes_present e"
    and "list_all2 (\<lambda>d e. recordedAs d (ev_EventType e))
      (comparedDecisions replayDecisions) (comparedEvents historyEvents)"
  shows "matchReplayWithHistory p replayDecisions historyEvents = Inr None"
proof -
  have "list_all2 corresponds (comparedDecisions replayDecisions) (comparedEvents historyEvents)"
    using assms(2) by (rule list_all2_mono) (rule recordedAs_corresponds)
  then show ?thesis
    using matchLoop_reference [OF assms(1), of p replayDecisions 0 0]
    by (simp add: matchReplayWithHistory_def firstDifference_None)
qed

theorem recorded_history_accepted_witness:
  "matchReplayWithHistory ex_printers
     [StartTimer \<lparr>st_TimerId = Some ''1'', st_StartToFireTimeoutSeconds = Some 5\<rparr>] ex_history = Inr None"
proof (rule recorded_history_accepted)
  show "\<forall>e \<in> set ex_history. attributes_present e"
    by (simp add: ex_history_def ex_event_def attributes_present_def)
  show "list_all2 (\<lambda>d e. recordedAs d (ev_EventType e))
      (comparedDecisions [StartTimer \<lparr>st_TimerId = Some ''1'', st_StartToFireTimeoutSeconds = Some 5\<rparr>])
      (comparedEvents ex_history)"
    by code_simp
qed

end
