(* ===== verification/Lru_Cache.thy ===== *)
theory Lru_Cache
  imports Go_Prelude "HOL-Library.AList"
begin

text \<open>
  The cache of workflow contexts (\<open>internal/common/cache/lru.go\<close>).  The model has the
  doubly linked list \<open>byAccess\<close> (front first) and the map \<open>byKey\<close> of its elements on an
  explicit heap of entries; calls of the removal function are collected in \<open>removed\<close>.  The
  clock is an argument of the operations that read it; the zero time is \<open>None\<close>.
\<close>

section \<open>State and operations\<close>

record 'v cacheEntry =
  ce_key :: string
  ce_expiration :: "int option"
  ce_value :: 'v
  ce_refCount :: int

record 'v lru =
  c_byAccess :: "nat list"
  c_byKey :: "(string \<times> nat) list"
  c_elements :: "nat \<rightharpoonup> 'v cacheEntry"
  c_nextElement :: nat
  c_maxSize :: int
  c_ttl :: int
  c_pin :: bool
  c_rmFunc :: bool
  c_removed :: "'v list"

record Options =
  o_TTL :: int
  o_Pin :: bool
  o_RemovedFunc :: bool

definition New :: "int \<Rightarrow> Options option \<Rightarrow> 'v lru" where
  "New maxSize opts = (let opts = (case opts of
       None \<Rightarrow> \<lparr>o_TTL = 0, o_Pin = False, o_RemovedFunc = False\<rparr> | Some o' \<Rightarrow> o') in
     \<lparr>c_byAccess = [], c_byKey = [], c_elements = Map.empty, c_nextElement = 0,
      c_maxSize = maxSize, c_ttl = o_TTL opts, c_pin = o_Pin opts, c_rmFunc = o_RemovedFunc opts,
      c_removed = []\<rparr>)"

definition NewLRU :: "int \<Rightarrow> 'v lru" where
  "NewLRU maxSize = New maxSize None"

definition Exist :: "string \<Rightarrow> 'v lru \<Rightarrow> bool" where
  "Exist key c = (map_of (c_byKey c) key \<noteq> None)"

definition Size :: "'v lru \<Rightarrow> int" where
  "Size c = int (length (c_byKey c))"

text \<open>\<open>go c.rmFunc(value)\<close>\<close>

definition notifyRemoved :: "'v \<Rightarrow> 'v lru \<Rightarrow> 'v lru" where
  "notifyRemoved v c = (if c_rmFunc c then c\<lparr>c_removed := c_removed c @ [v]\<rparr> else c)"

definition removeElement :: "nat \<Rightarrow> string \<Rightarrow> 'v lru \<Rightarrow> 'v lru" where
  "removeElement elt key c =
     c\<lparr>c_byAccess := remove1 elt (c_byAccess c), c_byKey := AList.delete key (c_byKey c)\<rparr>"

definition moveToFront :: "nat \<Rightarrow> 'v lru \<Rightarrow> 'v lru" where
  "moveToFront elt c = (if elt \<in> set (c_byAccess c)
     then c\<lparr>c_byAccess := elt # remove1 elt (c_byAccess c)\<rparr> else c)"

definition expired :: "int \<Rightarrow> 'v cacheEntry \<Rightarrow> bool" where
  "expired now e = (case ce_expiration e of None \<Rightarrow> False | Some t \<Rightarrow> t < now)"

definition pinned :: "'v lru \<Rightarrow> 'v cacheEntry \<Rightarrow> 'v cacheEntry" where
  "pinned c e = (if c_pin c then e\<lparr>ce_refCount := ce_refCount e + 1\<rparr> else e)"

definition renewed :: "int \<Rightarrow> 'v lru \<Rightarrow> 'v cacheEntry \<Rightarrow> 'v cacheEntry" where
  "renewed now c e = (if c_ttl c \<noteq> 0 then e\<lparr>ce_expiration := Some (now + c_ttl c)\<rparr> else e)"

definition Get :: "int \<Rightarrow> string \<Rightarrow> 'v lru \<Rightarrow> 'v option \<times> 'v lru" where
  "Get now key c = (case map_of (c_byKey c) key of
      None \<Rightarrow> (None, c)
    | Some elt \<Rightarrow> (case c_elements c elt of
        None \<Rightarrow> (None, c)
      | Some e \<Rightarrow>
          let e' = pinned c e; c' = c\<lparr>c_elements := (c_elements c)(elt \<mapsto> e')\<rparr> in
          if ce_refCount e' = 0 \<and> expired now e'
          then (None, removeElement elt (ce_key e') (notifyRemoved (ce_value e') c'))
          else (Some (ce_value e'), moveToFront elt c')))"

definition ErrCacheFull :: string where
  "ErrCacheFull = ''Cache capacity is fully occupied with pinned elements''"

definition evictOldest :: "string \<Rightarrow> nat \<Rightarrow> 'v lru \<Rightarrow> (string + 'v option) \<times> 'v lru" where
  "evictOldest key front c = (let back = last (c_byAccess c) in case c_elements c back of
      None \<Rightarrow> (Inr None, c)
    | Some oldest \<Rightarrow>
        if ce_refCount oldest > 0 then (Inl ErrCacheFull, removeElement front key c)
        else (Inr None, removeElement back (ce_key oldest) (notifyRemoved (ce_value oldest) c)))"

definition putInternal ::
  "int \<Rightarrow> string \<Rightarrow> 'v \<Rightarrow> bool \<Rightarrow> 'v lru \<Rightarrow> (string + 'v option) \<times> 'v lru" where
  "putInternal now key v allowUpdate c = (case map_of (c_byKey c) key of
      Some elt \<Rightarrow> (case c_elements c elt of
        None \<Rightarrow> (Inr None, c)
      | Some e \<Rightarrow>
          let e' = pinned c (renewed now c (if allowUpdate then e\<lparr>ce_value := v\<rparr> else e)) in
          (Inr (Some (ce_value e)),
           moveToFront elt (c\<lparr>c_elements := (c_elements c)(elt \<mapsto> e')\<rparr>)))
    | None \<Rightarrow>
        let entry = renewed now c (pinned c \<lparr>ce_key = key, ce_expiration = None, ce_value = v, ce_refCount = 0\<rparr>);
            elt = c_nextElement c;
            c' = c\<lparr>c_elements := (c_elements c)(elt \<mapsto> entry), c_nextElement := elt + 1,
                   c_byAccess := elt # c_byAccess c, c_byKey := AList.update key elt (c_byKey c)\<rparr> in
        if Size c' = c_maxSize c' then evictOldest key elt c' else (Inr None, c'))"

definition Put :: "int \<Rightarrow> string \<Rightarrow> 'v \<Rightarrow> 'v lru \<Rightarrow> (string + 'v option) \<times> 'v lru" where
  "Put now key v c =
     (if c_pin c then (Inl ''Cannot use Put API in Pin mode. Use Delete and PutIfNotExist if necessary'', c)
      else (case putInternal now key v True c of
          (Inl _, c') \<Rightarrow> (Inr None, c')
        | (Inr val, c') \<Rightarrow> (Inr val, c')))"

definition PutIfNotExist :: "int \<Rightarrow> string \<Rightarrow> 'v \<Rightarrow> 'v lru \<Rightarrow> (string + 'v) \<times> 'v lru" where
  "PutIfNotExist now key v c = (case putInternal now key v False c of
      (Inl err, c') \<Rightarrow> (Inl err, c')
    | (Inr None, c') \<Rightarrow> (Inr v, c')
    | (Inr (Some existing), c') \<Rightarrow> (Inr existing, c'))"

definition Delete :: "string \<Rightarrow> 'v lru \<Rightarrow> 'v lru" where
  "Delete key c = (case map_of (c_byKey c) key of
      None \<Rightarrow> c
    | Some elt \<Rightarrow> (case c_elements c elt of
        None \<Rightarrow> c
      | Some e \<Rightarrow> removeElement elt key (notifyRemoved (ce_value e) c)))"

text \<open>A missing key makes the code dereference a nil element.\<close>

definition Release :: "string \<Rightarrow> 'v lru \<Rightarrow> (string + unit) \<times> 'v lru" where
  "Release key c = (case map_of (c_byKey c) key of
      None \<Rightarrow> (Inl ''invalid memory address or nil pointer dereference'', c)
    | Some elt \<Rightarrow> (case c_elements c elt of
        None \<Rightarrow> (Inl ''invalid memory address or nil pointer dereference'', c)
      | Some e \<Rightarrow> (Inr (), c\<lparr>c_elements := (c_elements c)(elt \<mapsto> e\<lparr>ce_refCount := ce_refCount e - 1\<rparr>)\<rparr>)))"

section \<open>Invariant and abstraction\<close>

definition entryAt :: "'v lru \<Rightarrow> nat \<Rightarrow> 'v cacheEntry" where
  "entryAt c = (\<lambda>r. the (c_elements c r))"

text \<open>The entries, most recently used first: what the two structures stand for.\<close>

definition entries :: "'v lru \<Rightarrow> 'v cacheEntry list" where
  "entries c = map (entryAt c) (c_byAccess c)"

definition keys :: "'v lru \<Rightarrow> string list" where
  "keys c = map ce_key (entries c)"

definition lru_inv :: "'v lru \<Rightarrow> bool" where
  "lru_inv c \<longleftrightarrow> distinct (c_byAccess c) \<and> distinct (keys c) \<and> distinct (map fst (c_byKey c))
     \<and> set (c_byKey c) = (\<lambda>r. (ce_key (entryAt c r), r)) ` set (c_byAccess c)
     \<and> (\<forall>r \<in> set (c_byAccess c). c_elements c r \<noteq> None \<and> r < c_nextElement c)"

definition removeKey :: "string \<Rightarrow> 'v cacheEntry list \<Rightarrow> 'v cacheEntry list" where
  "removeKey k es = filter (\<lambda>e. ce_key e \<noteq> k) es"

definition findKey :: "string \<Rightarrow> 'v cacheEntry list \<Rightarrow> 'v cacheEntry option" where
  "findKey k es = find (\<lambda>e. ce_key e = k) es"

lemma findKey_Some_iff:
  "distinct (map ce_key es) \<Longrightarrow> findKey k es = Some e \<longleftrightarrow> e \<in> set es \<and> ce_key e = k"
  unfolding findKey_def by (induction es) (auto simp: image_iff)

lemma findKey_None_iff: "findKey k es = None \<longleftrightarrow> k \<notin> ce_key ` set es"
  unfolding findKey_def by (auto simp: find_None_iff)

lemma keys_conv: "keys c = map (\<lambda>r. ce_key (entryAt c r)) (c_byAccess c)"
  by (simp add: keys_def entries_def)

lemma lru_inv_new: "lru_inv (New n opts)"
  by (simp add: lru_inv_def New_def Let_def keys_def entries_def)

lemma byKey_lookup:
  assumes "lru_inv c"
  shows "map_of (c_byKey c) k = Some r \<longleftrightarrow> r \<in> set (c_byAccess c) \<and> ce_key (entryAt c r) = k"
proof -
  have "map_of (c_byKey c) k = Some r \<longleftrightarrow> (k, r) \<in> set (c_byKey c)"
    using assms by (simp add: lru_inv_def)
  then show ?thesis using assms by (auto simp: lru_inv_def)
qed

lemma byKey_missing:
  assumes "lru_inv c"
  shows "map_of (c_byKey c) k = None \<longleftrightarrow> k \<notin> set (keys c)"
proof -
  have "k \<in> set (keys c) \<longleftrightarrow> (\<exists>r. map_of (c_byKey c) k = Some r)"
    by (auto simp: keys_conv byKey_lookup [OF assms])
  then show ?thesis by auto
qed

lemma byKey_found:
  assumes "lru_inv c" and "map_of (c_byKey c) k = Some r"
  shows "r \<in> set (c_byAccess c)" and "c_elements c r = Some (entryAt c r)" and "ce_key (entryAt c r) = k"
    and "findKey k (entries c) = Some (entryAt c r)"
proof -
  show r: "r \<in> set (c_byAccess c)" and k: "ce_key (entryAt c r) = k"
    using assms byKey_lookup by auto
  then show "c_elements c r = Some (entryAt c r)"
    using assms(1) by (auto simp: lru_inv_def entryAt_def)
  show "findKey k (entries c) = Some (entryAt c r)"
    using assms(1) r k by (subst findKey_Some_iff) (auto simp: lru_inv_def keys_def entries_def)
qed

lemma size_entries:
  assumes "lru_inv c"
  shows "Size c = int (length (entries c))"
proof -
  have "length (c_byKey c) = card (set (c_byKey c))"
    using assms distinct_card [of "c_byKey c"] by (simp add: lru_inv_def distinct_map)
  also have "\<dots> = card (set (c_byAccess c))"
    using assms by (simp add: lru_inv_def card_image inj_on_def)
  also have "\<dots> = length (entries c)"
    using assms by (simp add: lru_inv_def distinct_card entries_def)
  finally show ?thesis by (simp add: Size_def)
qed

lemma notifyRemoved_simps [simp]:
  "c_byAccess (notifyRemoved v c) = c_byAccess c" "c_byKey (notifyRemoved v c) = c_byKey c"
  "c_elements (notifyRemoved v c) = c_elements c" "c_nextElement (notifyRemoved v c) = c_nextElement c"
  "entries (notifyRemoved v c) = entries c" "c_maxSize (notifyRemoved v c) = c_maxSize c"
  "entryAt (notifyRemoved v c) = entryAt c" "lru_inv (notifyRemoved v c) = lru_inv c"
  by (simp_all add: notifyRemoved_def entries_def entryAt_def lru_inv_def keys_def fun_eq_iff)

lemma filter_key:
  assumes "distinct xs" and "inj_on f (set xs)" and "r \<in> set xs"
  shows "filter (\<lambda>x. f x \<noteq> f r) xs = remove1 r xs"
  using assms by (auto simp: map_remove1_filter inj_on_def intro!: filter_cong)

lemma entries_remove1:
  assumes "lru_inv c" and "r \<in> set (c_byAccess c)"
  shows "map (entryAt c) (remove1 r (c_byAccess c)) = removeKey (ce_key (entryAt c r)) (entries c)"
proof -
  have "filter (\<lambda>x. ce_key (entryAt c x) \<noteq> ce_key (entryAt c r)) (c_byAccess c) = remove1 r (c_byAccess c)"
    using assms by (intro filter_key) (auto simp: lru_inv_def keys_conv distinct_map)
  then show ?thesis by (simp add: removeKey_def entries_def filter_map o_def)
qed

lemma removeElement_correct:
  assumes inv: "lru_inv c" and r: "r \<in> set (c_byAccess c)" and k: "ce_key (entryAt c r) = k"
  shows "lru_inv (removeElement r k c)" and "entries (removeElement r k c) = removeKey k (entries c)"
proof -
  show view: "entries (removeElement r k c) = removeKey k (entries c)"
    using entries_remove1 [OF inv r] k
    by (simp add: removeElement_def entries_def entryAt_def)
  have inj: "inj_on (\<lambda>r. ce_key (entryAt c r)) (set (c_byAccess c))"
    using inv by (auto simp: lru_inv_def keys_conv distinct_map)
  have "set (AList.delete k (c_byKey c)) = (\<lambda>r. (ce_key (entryAt c r), r)) ` (set (c_byAccess c) - {r})"
    using inv r k inj by (auto simp: lru_inv_def AList.delete_eq inj_on_def)
  moreover have "distinct (keys (removeElement r k c))"
    using inv by (simp add: keys_def view removeKey_def lru_inv_def distinct_map filter_map distinct_filter inj_on_def)
  ultimately show "lru_inv (removeElement r k c)"
    using inv by (auto simp: lru_inv_def removeElement_def entryAt_def distinct_delete keys_def entries_def)
qed

lemma moveToFront_correct:
  assumes inv: "lru_inv c" and r: "r \<in> set (c_byAccess c)" and k: "ce_key e = ce_key (entryAt c r)"
  shows "lru_inv (moveToFront r (c\<lparr>c_elements := (c_elements c)(r \<mapsto> e)\<rparr>))"
    and "entries (moveToFront r (c\<lparr>c_elements := (c_elements c)(r \<mapsto> e)\<rparr>)) = e # removeKey (ce_key e) (entries c)"
proof -
  let ?c = "moveToFront r (c\<lparr>c_elements := (c_elements c)(r \<mapsto> e)\<rparr>)"
  have at: "entryAt ?c = (entryAt c)(r := e)"
    by (simp add: moveToFront_def entryAt_def fun_eq_iff)
  have acc: "c_byAccess ?c = r # remove1 r (c_byAccess c)" using r by (simp add: moveToFront_def)
  have "r \<notin> set (remove1 r (c_byAccess c))" using inv by (simp add: lru_inv_def)
  then have "map ((entryAt c)(r := e)) (remove1 r (c_byAccess c)) = map (entryAt c) (remove1 r (c_byAccess c))"
    by auto
  then show view: "entries ?c = e # removeKey (ce_key e) (entries c)"
    using entries_remove1 [OF inv r] k by (simp add: entries_def [of ?c] at acc)
  have "distinct (keys ?c)"
    using inv by (auto simp: keys_def view removeKey_def lru_inv_def distinct_map inj_on_def)
  moreover have "set (c_byKey ?c) = (\<lambda>x. (ce_key (entryAt ?c x), x)) ` set (c_byAccess ?c)"
    using inv r k by (auto simp: lru_inv_def acc at) (auto simp: moveToFront_def)
  ultimately show "lru_inv ?c"
    using inv r by (auto simp: lru_inv_def acc) (auto simp: moveToFront_def)
qed

lemma update_fresh: "k \<notin> fst ` set xs \<Longrightarrow> AList.update k v xs = xs @ [(k, v)]"
  by (induction xs) auto

lemma insert_correct:
  assumes inv: "lru_inv c" and k: "ce_key e = k" "k \<notin> set (keys c)"
  defines "c' \<equiv> c\<lparr>c_elements := (c_elements c)(c_nextElement c \<mapsto> e), c_nextElement := c_nextElement c + 1,
    c_byAccess := c_nextElement c # c_byAccess c, c_byKey := AList.update k (c_nextElement c) (c_byKey c)\<rparr>"
  shows "lru_inv c'" and "entries c' = e # entries c"
proof -
  have fresh: "c_nextElement c \<notin> set (c_byAccess c)" using inv by (auto simp: lru_inv_def)
  then have same: "entryAt c' r = entryAt c r" if "r \<in> set (c_byAccess c)" for r
    using that by (auto simp: c'_def entryAt_def)
  show view: "entries c' = e # entries c"
    using same by (simp add: entries_def) (simp add: c'_def entries_def entryAt_def)
  have new: "k \<notin> fst ` set (c_byKey c)"
    using byKey_missing [OF inv, of k] k(2) by (simp add: map_of_eq_None_iff)
  then have "AList.update k (c_nextElement c) (c_byKey c) = c_byKey c @ [(k, c_nextElement c)]"
    by (rule update_fresh)
  then have "set (c_byKey c') = (\<lambda>r. (ce_key (entryAt c' r), r)) ` set (c_byAccess c')"
    using inv same k(1) by (auto simp: c'_def lru_inv_def entryAt_def)
  moreover have "distinct (keys c')" using inv k by (auto simp: keys_def view lru_inv_def)
  ultimately show "lru_inv c'"
    using inv fresh by (auto simp: lru_inv_def c'_def distinct_update)
qed

section \<open>Refinement of the recency list\<close>

text \<open>The operations on the list of entries alone; \<open>c\<close> gives the settings.\<close>

definition specGet ::
  "int \<Rightarrow> 'v lru \<Rightarrow> string \<Rightarrow> 'v cacheEntry list \<Rightarrow> 'v option \<times> 'v cacheEntry list" where
  "specGet now c k es = (case findKey k es of
      None \<Rightarrow> (None, es)
    | Some e \<Rightarrow> if ce_refCount (pinned c e) = 0 \<and> expired now e then (None, removeKey k es)
        else (Some (ce_value e), pinned c e # removeKey k es))"

definition specPut ::
  "int \<Rightarrow> 'v lru \<Rightarrow> string \<Rightarrow> 'v \<Rightarrow> bool \<Rightarrow> 'v cacheEntry list \<Rightarrow>
   (string + 'v option) \<times> 'v cacheEntry list" where
  "specPut now c k v allowUpdate es = (case findKey k es of
      Some e \<Rightarrow> (Inr (Some (ce_value e)),
        pinned c (renewed now c (if allowUpdate then e\<lparr>ce_value := v\<rparr> else e)) # removeKey k es)
    | None \<Rightarrow>
        let es' = renewed now c (pinned c \<lparr>ce_key = k, ce_expiration = None, ce_value = v, ce_refCount = 0\<rparr>) # es in
        if int (length es') \<noteq> c_maxSize c then (Inr None, es')
        else if ce_refCount (last es') > 0 then (Inl ErrCacheFull, es)
        else (Inr None, butlast es'))"

lemma entry_update_simps [simp]:
  "ce_key (pinned c e) = ce_key e" "ce_value (pinned c e) = ce_value e"
  "ce_expiration (pinned c e) = ce_expiration e" "expired now (pinned c e) = expired now e"
  "ce_key (renewed now c e) = ce_key e" "ce_value (renewed now c e) = ce_value e"
  "ce_refCount (renewed now c e) = ce_refCount e"
  by (simp_all add: pinned_def renewed_def expired_def)

lemma removeKey_updated:
  "lru_inv c \<Longrightarrow> r \<in> set (c_byAccess c) \<Longrightarrow> ce_key e = ce_key (entryAt c r) \<Longrightarrow>
   lru_inv (c\<lparr>c_elements := (c_elements c)(r \<mapsto> e)\<rparr>)
   \<and> removeKey (ce_key e) (entries (c\<lparr>c_elements := (c_elements c)(r \<mapsto> e)\<rparr>)) = removeKey (ce_key e) (entries c)"
proof -
  assume inv: "lru_inv c" and r: "r \<in> set (c_byAccess c)" and k: "ce_key e = ce_key (entryAt c r)"
  let ?c = "c\<lparr>c_elements := (c_elements c)(r \<mapsto> e)\<rparr>"
  have at: "entryAt ?c = (entryAt c)(r := e)" by (simp add: entryAt_def fun_eq_iff)
  have keys: "(\<lambda>x. ce_key (entryAt ?c x)) = (\<lambda>x. ce_key (entryAt c x))" using k by (auto simp: at)
  have "lru_inv ?c" using inv by (simp add: lru_inv_def keys_conv fun_cong [OF keys])
  moreover have "filter (\<lambda>x. ce_key x \<noteq> ce_key e) (map (entryAt ?c) xs) = filter (\<lambda>x. ce_key x \<noteq> ce_key e) (map (entryAt c) xs)"
    for xs using k by (induction xs) (auto simp: at)
  ultimately show "lru_inv ?c \<and> removeKey (ce_key e) (entries ?c) = removeKey (ce_key e) (entries c)"
    by (simp add: removeKey_def entries_def)
qed

lemma Get_refines:
  assumes inv: "lru_inv c"
  shows "lru_inv (snd (Get now k c))"
    and "(fst (Get now k c), entries (snd (Get now k c))) = specGet now c k (entries c)"
proof -
  have "lru_inv (snd (Get now k c)) \<and> (fst (Get now k c), entries (snd (Get now k c))) = specGet now c k (entries c)"
  proof (cases "map_of (c_byKey c) k")
    case None
    then have "findKey k (entries c) = None"
      using byKey_missing [OF inv, of k] by (simp add: findKey_None_iff keys_def)
    with None inv show ?thesis by (simp add: Get_def specGet_def)
  next
    case (Some r)
    note found = byKey_found [OF inv Some]
    let ?e = "pinned c (entryAt c r)" and ?c = "c\<lparr>c_elements := (c_elements c)(r \<mapsto> pinned c (entryAt c r))\<rparr>"
    note upd = removeKey_updated [OF inv found(1), of ?e]
    have at: "entryAt ?c r = ?e" by (simp add: entryAt_def)
    show ?thesis
      using Some found upd moveToFront_correct [OF inv found(1), of ?e] at
        removeElement_correct [of "notifyRemoved (ce_value ?e) ?c" r k]
      by (auto simp: Get_def specGet_def Let_def)
  qed
  then show "lru_inv (snd (Get now k c))"
    and "(fst (Get now k c), entries (snd (Get now k c))) = specGet now c k (entries c)" by auto
qed

lemma Delete_refines:
  assumes inv: "lru_inv c"
  shows "lru_inv (Delete k c) \<and> entries (Delete k c) = removeKey k (entries c)"
proof (cases "map_of (c_byKey c) k")
  case None
  then have "removeKey k (entries c) = entries c"
    using byKey_missing [OF inv, of k] by (auto simp: removeKey_def keys_def filter_id_conv)
  with None inv show ?thesis by (simp add: Delete_def)
next
  case (Some r)
  note found = byKey_found [OF inv Some]
  with Some inv removeElement_correct [of "notifyRemoved (ce_value (entryAt c r)) c" r k] show ?thesis
    by (simp add: Delete_def)
qed

lemma filter_last_key:
  "distinct (map f (xs @ [x])) \<Longrightarrow> filter (\<lambda>y. f y \<noteq> f x) (xs @ [x]) = xs"
  by (auto simp: filter_id_conv image_iff)

lemma evictOldest_correct:
  assumes inv: "lru_inv c" and acc: "c_byAccess c = r # rs" and k: "ce_key (entryAt c r) = k"
  shows "lru_inv (snd (evictOldest k r c))"
    and "(fst (evictOldest k r c), entries (snd (evictOldest k r c))) =
      (if ce_refCount (last (entries c)) > 0 then (Inl ErrCacheFull, tl (entries c)) else (Inr None, butlast (entries c)))"
proof -
  let ?b = "last (c_byAccess c)"
  have b: "?b \<in> set (c_byAccess c)" using acc by (simp add: acc)
  then have e: "c_elements c ?b = Some (entryAt c ?b)" using inv by (auto simp: lru_inv_def entryAt_def)
  have last: "last (entries c) = entryAt c ?b" using acc by (simp add: entries_def last_map)
  have d: "distinct (map ce_key (entries c))" using inv by (simp add: lru_inv_def keys_def)
  have front: "removeKey k (entries c) = tl (entries c)"
    using d acc k by (auto simp: removeKey_def entries_def filter_id_conv image_iff)
  have "entries c = butlast (entries c) @ [entryAt c ?b]"
    using acc last append_butlast_last_id [of "entries c"] by (simp add: entries_def)
  with d have backward: "removeKey (ce_key (entryAt c ?b)) (entries c) = butlast (entries c)"
    unfolding removeKey_def using filter_last_key [of ce_key "butlast (entries c)" "entryAt c ?b"] by simp
  show "lru_inv (snd (evictOldest k r c))"
    and "(fst (evictOldest k r c), entries (snd (evictOldest k r c))) =
      (if ce_refCount (last (entries c)) > 0 then (Inl ErrCacheFull, tl (entries c)) else (Inr None, butlast (entries c)))"
    using removeElement_correct [OF inv _ k] acc front backward e last b
      removeElement_correct [of "notifyRemoved (ce_value (entryAt c ?b)) c" ?b "ce_key (entryAt c ?b)"] inv
    by (simp_all add: evictOldest_def Let_def)
qed

lemma putInternal_refines:
  assumes inv: "lru_inv c"
  shows "lru_inv (snd (putInternal now k v u c))"
    and "(fst (putInternal now k v u c), entries (snd (putInternal now k v u c))) = specPut now c k v u (entries c)"
proof -
  have "lru_inv (snd (putInternal now k v u c)) \<and>
    (fst (putInternal now k v u c), entries (snd (putInternal now k v u c))) = specPut now c k v u (entries c)"
  proof (cases "map_of (c_byKey c) k")
    case (Some r)
    note found = byKey_found [OF inv Some]
    let ?e = "pinned c (renewed now c (if u then entryAt c r\<lparr>ce_value := v\<rparr> else entryAt c r))"
    show ?thesis
      using Some found moveToFront_correct [OF inv found(1), of ?e]
      by (auto simp: putInternal_def specPut_def Let_def)
  next
    case None
    then have k: "k \<notin> set (keys c)" using byKey_missing [OF inv] by simp
    then have find: "findKey k (entries c) = None" by (simp add: findKey_None_iff keys_def)
    let ?e = "renewed now c (pinned c \<lparr>ce_key = k, ce_expiration = None, ce_value = v, ce_refCount = 0\<rparr>)"
    let ?r = "c_nextElement c"
    let ?c = "c\<lparr>c_elements := (c_elements c)(?r \<mapsto> ?e), c_nextElement := ?r + 1,
      c_byAccess := ?r # c_byAccess c, c_byKey := AList.update k ?r (c_byKey c)\<rparr>"
    have ins: "lru_inv ?c" "entries ?c = ?e # entries c" using insert_correct [OF inv _ k, of ?e] by simp_all
    have size: "Size ?c = int (length (?e # entries c))" using size_entries [OF ins(1)] ins(2) by simp
    have evict: "lru_inv (snd (evictOldest k ?r ?c))"
      "(fst (evictOldest k ?r ?c), entries (snd (evictOldest k ?r ?c))) =
        (if ce_refCount (last (?e # entries c)) > 0 then (Inl ErrCacheFull, entries c)
         else (Inr None, butlast (?e # entries c)))"
      using evictOldest_correct [OF ins(1), of ?r "c_byAccess c" k] ins(2) by (simp_all add: entryAt_def)
    have run: "putInternal now k v u c = (if Size ?c = c_maxSize c then evictOldest k ?r ?c else (Inr None, ?c))"
      by (simp add: putInternal_def None Let_def)
    show ?thesis
    proof (cases "Size ?c = c_maxSize c")
      case True
      with size evict run find show ?thesis by (simp add: specPut_def Let_def del: last.simps butlast.simps)
    next
      case False
      with size ins run find show ?thesis by (simp add: specPut_def Let_def)
    qed
  qed
  then show "lru_inv (snd (putInternal now k v u c))"
    and "(fst (putInternal now k v u c), entries (snd (putInternal now k v u c))) = specPut now c k v u (entries c)"
    by auto
qed

section \<open>Runs of a cache\<close>

inductive lru_reachable :: "int \<Rightarrow> Options option \<Rightarrow> 'v lru \<Rightarrow> bool" for n opts where
  created: "lru_reachable n opts (New n opts)"
| got: "lru_reachable n opts c \<Longrightarrow> lru_reachable n opts (snd (Get now k c))"
| put: "lru_reachable n opts c \<Longrightarrow> lru_reachable n opts (snd (Put now k v c))"
| putNew: "lru_reachable n opts c \<Longrightarrow> lru_reachable n opts (snd (PutIfNotExist now k v c))"
| deleted: "lru_reachable n opts c \<Longrightarrow> lru_reachable n opts (Delete k c)"
| released: "lru_reachable n opts c \<Longrightarrow> lru_reachable n opts (snd (Release k c))"

definition settings :: "'v lru \<Rightarrow> int \<times> int \<times> bool \<times> bool" where
  "settings c = (c_maxSize c, c_ttl c, c_pin c, c_rmFunc c)"

lemma settings_kept:
  "settings (snd (Get now k c)) = settings c" "settings (snd (putInternal now k v u c)) = settings c"
  "settings (Delete k c) = settings c" "settings (snd (Release k c)) = settings c"
  by (auto simp: settings_def Get_def putInternal_def Delete_def Release_def evictOldest_def Let_def
      removeElement_def moveToFront_def notifyRemoved_def split: option.split)

lemma Put_putInternal:
  "snd (Put now k v c) = (if c_pin c then c else snd (putInternal now k v True c))"
  "snd (PutIfNotExist now k v c) = snd (putInternal now k v False c)"
  by (auto simp: Put_def PutIfNotExist_def split: prod.split sum.split option.split)

lemma length_removeKey: "length (removeKey k es) \<le> length es"
  by (simp add: removeKey_def)

lemma length_removeKey_found: "findKey k es = Some e \<Longrightarrow> length (removeKey k es) < length es"
  unfolding findKey_def removeKey_def by (induction es) (auto simp: less_Suc_eq_le split: if_splits)

lemma length_specGet: "length (snd (specGet now c k es)) \<le> length es"
  using length_removeKey_found [of k es] length_removeKey [of k es]
  by (auto simp: specGet_def split: option.split)

lemma length_specPut:
  "int (length es) < c_maxSize c \<Longrightarrow> int (length (snd (specPut now c k v u es))) < c_maxSize c"
  using length_removeKey_found [of k es]
  by (cases "findKey k es") (auto simp: specPut_def Let_def)

lemma Release_refines:
  assumes inv: "lru_inv c"
  shows "lru_inv (snd (Release k c)) \<and> keys (snd (Release k c)) = keys c"
proof (cases "map_of (c_byKey c) k")
  case None
  with inv show ?thesis by (simp add: Release_def)
next
  case (Some r)
  note found = byKey_found [OF inv Some]
  let ?e = "entryAt c r\<lparr>ce_refCount := ce_refCount (entryAt c r) - 1\<rparr>"
  let ?c = "c\<lparr>c_elements := (c_elements c)(r \<mapsto> ?e)\<rparr>"
  have "keys ?c = keys c" by (simp add: keys_conv entryAt_def)
  moreover have "lru_inv ?c" using removeKey_updated [OF inv found(1), of ?e] by simp
  moreover have "snd (Release k c) = ?c" by (simp add: Release_def Some found(2))
  ultimately show ?thesis by simp
qed

definition lru_bounded :: "int \<Rightarrow> 'v lru \<Rightarrow> bool" where
  "lru_bounded n c \<longleftrightarrow> lru_inv c \<and> c_maxSize c = n \<and> int (length (entries c)) < n"

lemma lru_bounded_ops:
  assumes "lru_bounded n c"
  shows "lru_bounded n (snd (Get now k c))" and "lru_bounded n (snd (putInternal now k v u c))"
    and "lru_bounded n (Delete k c)" and "lru_bounded n (snd (Release k c))"
proof -
  have inv: "lru_inv c" and n: "c_maxSize c = n" and b: "int (length (entries c)) < n"
    using assms by (simp_all add: lru_bounded_def)
  show "lru_bounded n (snd (Get now k c))"
    using Get_refines [OF inv, of now k] length_specGet [of now c k "entries c"] settings_kept(1) [of now k c] n b
    by (auto simp: lru_bounded_def settings_def prod_eq_iff)
  show "lru_bounded n (snd (putInternal now k v u c))"
    using putInternal_refines [OF inv, of now k v u] length_specPut [of "entries c" c now k v u]
      settings_kept(2) [of now k v u c] n b
    by (auto simp: lru_bounded_def settings_def prod_eq_iff)
  show "lru_bounded n (Delete k c)"
    using Delete_refines [OF inv, of k] length_removeKey [of k "entries c"] settings_kept(3) [of k c] n b
    by (auto simp: lru_bounded_def settings_def)
  have "length (entries (snd (Release k c))) = length (entries c)"
    using Release_refines [OF inv, of k] by (metis keys_def length_map)
  then show "lru_bounded n (snd (Release k c))"
    using Release_refines [OF inv, of k] settings_kept(4) [of k c] n b by (auto simp: lru_bounded_def settings_def)
qed

lemma lru_reachable_bounded: "lru_reachable n opts c \<Longrightarrow> 1 \<le> n \<Longrightarrow> lru_bounded n c"
proof (induction rule: lru_reachable.induct)
  case created
  then show ?case using lru_inv_new [of n opts] by (auto simp: lru_bounded_def New_def Let_def entries_def)
qed (simp_all add: lru_bounded_ops Put_putInternal)

section \<open>What is kept\<close>

lemma take_removeAll:
  assumes "distinct xs"
  shows "take n (k # removeAll k (take n xs)) = take n (k # removeAll k xs)"
proof -
  have "take m (removeAll k (take (Suc m) xs)) = take m (removeAll k xs)" for m
    using assms
  proof (induction xs arbitrary: m)
    case (Cons x xs)
    have "k \<notin> set xs \<Longrightarrow> removeAll k (take m xs) = take m xs"
      by (auto intro!: removeAll_id dest: in_set_takeD)
    with Cons show ?case
      by (cases "x = k"; cases m) auto
  qed simp
  then show ?thesis by (cases n) simp_all
qed

text \<open>
  A store that keeps its most recently inserted keys: insertion moves the key to the front
  and drops what exceeds the room.
\<close>

locale recency_store =
  fixes inv :: "'c \<Rightarrow> bool"
    and recent :: "'c \<Rightarrow> string list"
    and room :: "'c \<Rightarrow> nat"
    and insert_key :: "string \<Rightarrow> 'c \<Rightarrow> 'c"
  assumes inv_insert: "inv c \<Longrightarrow> inv (insert_key k c)"
    and room_insert: "inv c \<Longrightarrow> room (insert_key k c) = room c"
    and recent_insert: "inv c \<Longrightarrow> recent (insert_key k c) = take (room c) (k # removeAll k (recent c))"
    and recent_room: "inv c \<Longrightarrow> length (recent c) \<le> room c"
    and recent_distinct: "inv c \<Longrightarrow> distinct (recent c)"
begin

lemma inv_inserts: "inv c \<Longrightarrow> inv (fold insert_key ks c) \<and> room (fold insert_key ks c) = room c"
  by (induction ks arbitrary: c) (simp_all add: inv_insert room_insert)

lemma recent_inserts:
  assumes "inv c" and "distinct ks"
  shows "recent (fold insert_key ks c) = take (room c) (rev ks @ filter (\<lambda>k. k \<notin> set ks) (recent c))"
  using assms
proof (induction ks arbitrary: c rule: rev_induct)
  case Nil
  then show ?case using recent_room by simp
next
  case (snoc k ks)
  let ?c = "fold insert_key ks c" and ?n = "room c"
  let ?xs = "rev ks @ filter (\<lambda>x. x \<notin> set ks) (recent c)"
  have c: "inv ?c" "room ?c = ?n" using inv_inserts snoc.prems(1) by simp_all
  have "recent (fold insert_key (ks @ [k]) c) = take ?n (k # removeAll k (take ?n ?xs))"
    using recent_insert [OF c(1)] snoc c(2) by simp
  also have "\<dots> = take ?n (k # removeAll k ?xs)"
    using snoc.prems recent_distinct by (intro take_removeAll) auto
  also have "removeAll k ?xs = rev ks @ filter (\<lambda>x. x \<notin> set (ks @ [k])) (recent c)"
  proof -
    have "removeAll k (filter P xs) = filter (\<lambda>x. x \<noteq> k \<and> P x) xs" for P and xs :: "string list"
      by (induction xs) auto
    moreover have "removeAll k (rev ks) = rev ks" using snoc.prems(2) by (intro removeAll_id) simp
    ultimately show ?thesis by simp
  qed
  finally show ?case by simp
qed

end

text \<open>A cache without pinning: no entry is held, and the clock plays no part in insertions.\<close>

definition unpinned_inv :: "'v lru \<Rightarrow> bool" where
  "unpinned_inv c \<longleftrightarrow> lru_inv c \<and> \<not> c_pin c \<and> int (length (entries c)) < c_maxSize c
     \<and> (\<forall>e \<in> set (entries c). ce_refCount e = 0)"

lemma keys_removeKey: "map ce_key (removeKey k es) = removeAll k (map ce_key es)"
  by (induction es) (auto simp: removeKey_def)

lemma unpinned_Put:
  assumes "unpinned_inv c"
  shows "unpinned_inv (snd (Put now k v c))"
    and "keys (snd (Put now k v c)) = take (nat (c_maxSize c - 1)) (k # removeAll k (keys c))"
    and "c_maxSize (snd (Put now k v c)) = c_maxSize c"
proof -
  have inv: "lru_inv c" and pin: "\<not> c_pin c" and b: "int (length (entries c)) < c_maxSize c"
    and free: "\<forall>e \<in> set (entries c). ce_refCount e = 0"
    using assms by (simp_all add: unpinned_inv_def)
  let ?c = "snd (Put now k v c)" and ?es = "entries c"
  have c: "?c = snd (putInternal now k v True c)" by (simp add: Put_putInternal pin)
  have s: "settings ?c = settings c" by (simp add: c settings_kept)
  show max: "c_maxSize ?c = c_maxSize c" using s by (simp add: settings_def)
  have view: "entries ?c = snd (specPut now c k v True ?es)"
    using putInternal_refines(2) [OF inv, of now k v True] by (simp add: c prod_eq_iff)
  have free': "\<forall>e \<in> set (entries ?c). ce_refCount e = 0"
    using free pin findKey_Some_iff [of ?es k] inv
    by (auto simp: view specPut_def Let_def pinned_def removeKey_def lru_inv_def keys_def
        split: option.splits dest: in_set_butlastD)
  then show "unpinned_inv ?c"
    using putInternal_refines(1) [OF inv] length_specPut [OF b] s pin
    by (simp add: unpinned_inv_def view c [symmetric] settings_def) (simp add: c)
  show "keys ?c = take (nat (c_maxSize c - 1)) (k # removeAll k (keys c))"
  proof (cases "findKey k ?es")
    case None
    then have gone: "removeAll k (keys c) = keys c"
      by (simp add: findKey_None_iff keys_def removeAll_id)
    let ?e = "renewed now c (pinned c \<lparr>ce_key = k, ce_expiration = None, ce_value = v, ce_refCount = 0\<rparr>)"
    have last: "ce_refCount (last (?e # ?es)) = 0"
      using free pin last_in_set [of "?e # ?es"] by (auto simp: pinned_def)
    show ?thesis
    proof (cases "1 + int (length ?es) = c_maxSize c")
      case True
      then have n: "nat (c_maxSize c - 1) = length ?es" by simp
      have "butlast (?e # ?es) = take (length ?es) (?e # ?es)" by (simp add: butlast_conv_take)
      then show ?thesis
        using None True gone last
        by (simp add: keys_def view specPut_def Let_def n del: last.simps butlast.simps) (simp flip: take_map)
    next
      case False
      with None b gone show ?thesis by (simp add: keys_def view specPut_def Let_def)
    qed
  next
    case (Some e)
    moreover from Some have "ce_key e = k" by (auto simp: findKey_def find_Some_iff)
    ultimately show ?thesis
      using length_removeKey_found [OF Some] b
      by (simp add: keys_def view specPut_def keys_removeKey [symmetric])
  qed
qed

interpretation context_cache: recency_store unpinned_inv keys "\<lambda>c. nat (c_maxSize c - 1)"
  "\<lambda>k c. snd (Put now k (v k) c)" for now v
  by unfold_locales (auto simp: unpinned_Put, auto simp: unpinned_inv_def keys_def lru_inv_def)

section \<open>Properties\<close>

text \<open>
  (C26) The linked list and the map of the cache stand for one list of entries in order of
  use: lookup, insertion and deletion do to the list exactly what their specification says,
  result included, and keep the two structures coherent.
\<close>

theorem lru_refines_recency_list:
  assumes "lru_inv c"
  shows "lru_inv (snd (Get now k c)) \<and> lru_inv (snd (putInternal now k v allowUpdate c)) \<and> lru_inv (Delete k c)
    \<and> (fst (Get now k c), entries (snd (Get now k c))) = specGet now c k (entries c)
    \<and> (fst (putInternal now k v allowUpdate c), entries (snd (putInternal now k v allowUpdate c))) =
        specPut now c k v allowUpdate (entries c)
    \<and> entries (Delete k c) = removeKey k (entries c)"
  using assms Get_refines putInternal_refines Delete_refines by metis

definition ex_cache :: "nat lru" where
  "ex_cache = snd (Put 0 ''b'' 2 (snd (Put 0 ''a'' 1 (NewLRU 3))))"

lemma ex_cache_reachable: "lru_reachable 3 None ex_cache"
  unfolding ex_cache_def NewLRU_def by (intro lru_reachable.intros)

lemma ex_cache_inv: "lru_inv ex_cache" "unpinned_inv ex_cache"
proof -
  show inv: "lru_inv ex_cache"
    using lru_reachable_bounded [OF ex_cache_reachable] by (simp add: lru_bounded_def)
  have "\<not> c_pin ex_cache \<and> int (length (entries ex_cache)) < c_maxSize ex_cache
      \<and> list_all (\<lambda>e. ce_refCount e = 0) (entries ex_cache)"
    by code_simp
  with inv show "unpinned_inv ex_cache" by (simp add: unpinned_inv_def list_all_iff)
qed

theorem lru_refines_recency_list_witness:
  "fst (Get 0 ''a'' ex_cache) = Some 1 \<and> keys (snd (Get 0 ''a'' ex_cache)) = [''a'', ''b'']"
proof -
  have "specGet 0 ex_cache ''a'' (entries ex_cache) = (Some 1,
      [\<lparr>ce_key = ''a'', ce_expiration = None, ce_value = 1, ce_refCount = 0\<rparr>,
       \<lparr>ce_key = ''b'', ce_expiration = None, ce_value = 2, ce_refCount = 0\<rparr>])"
    by code_simp
  with lru_refines_recency_list [OF ex_cache_inv(1), of 0 "''a''" 0 False] show ?thesis
    by (simp add: keys_def)
qed

text \<open>
  (C28) A cache created with size \<open>n \<ge> 1\<close> never holds \<open>n\<close> entries: insertion evicts as soon
  as the size is reached, so there is room for \<open>n - 1\<close>, pinned or not, and its structures
  are coherent in every state it can get into.
\<close>

theorem lru_holds_fewer_than_size:
  assumes "lru_reachable n opts c" and "1 \<le> n"
  shows "lru_inv c \<and> Size c \<le> n - 1"
  using lru_reachable_bounded [OF assms] size_entries [of c] by (simp add: lru_bounded_def)

theorem lru_holds_fewer_than_size_witness: "lru_inv ex_cache \<and> Size ex_cache \<le> 2"
  using lru_holds_fewer_than_size [OF ex_cache_reachable] by simp

text \<open>
  (C27) Eviction is by recency: after a sequence of insertions of distinct keys into a cache
  without pinning, the keys present are the most recently inserted ones followed by the
  old keys in their order, cut to the room of the cache.
\<close>

theorem lru_keeps_most_recent:
  assumes "unpinned_inv c" and "distinct ks"
  shows "keys (fold (\<lambda>k c. snd (Put now k (v k) c)) ks c) =
    take (nat (c_maxSize c - 1)) (rev ks @ filter (\<lambda>k. k \<notin> set ks) (keys c))"
  by (rule context_cache.recent_inserts [OF assms])

theorem lru_keeps_most_recent_witness:
  "keys (fold (\<lambda>k c. snd (Put 5 k (length k) c)) [''c'', ''a''] ex_cache) = [''a'', ''c'']"
proof -
  have "c_maxSize ex_cache = 3 \<and> keys ex_cache = [''b'', ''a'']" by code_simp
  with lru_keeps_most_recent [OF ex_cache_inv(2), of "[''c'', ''a'']" 5 length] show ?thesis by simp
qed

end
