(* ===== verification/Retry_Backoff.thy ===== *)
theory Retry_Backoff
  imports Go_Prelude Go_Time
begin

text \<open>
  Retries of calls to the service, package \<open>src/internal/common/backoff\<close> and
  \<open>src/internal/internal_retry.go\<close>: the exponential policy, the retrier that counts
  attempts, the throttle shared by concurrent callers, the loop \<open>Retry\<close> and the policy
  the client derives from a deadline.

  A duration is an \<open>int\<close> of nanoseconds and a \<open>float64\<close> the rational it denotes, each
  operation rounded.  \<open>math.Pow\<close> is the argument \<open>pow\<close>, where any number beyond the range
  of \<open>int64\<close> stands for an overflow; what Go leaves open, the conversion of such a number to
  an integer, is the argument \<open>ovf\<close>.  \<open>rand.Intn\<close>, the clock, the outcomes of the operation
  and the state of the context are functions of the iteration.
\<close>

section \<open>Retry policies\<close>

definition NoInterval :: int where "NoInterval = 0"
definition doneInterval :: int where "doneInterval = -1" \<comment> \<open>\<open>done\<close>\<close>
definition noMaximumAttempts :: int where "noMaximumAttempts = 0"
definition DefaultBackoffCoefficient :: rat where "DefaultBackoffCoefficient = 2"
definition defaultMaximumInterval :: int where "defaultMaximumInterval = 10 * Second"
definition defaultExpirationInterval :: int where "defaultExpirationInterval = 60 * Second"
definition defaultMaximumAttempts :: int where "defaultMaximumAttempts = noMaximumAttempts"

lemmas backoff_consts = NoInterval_def doneInterval_def noMaximumAttempts_def
  DefaultBackoffCoefficient_def defaultMaximumInterval_def defaultExpirationInterval_def
  defaultMaximumAttempts_def

record ExponentialRetryPolicy =
  initialInterval :: int
  backoffCoefficient :: rat
  maximumInterval :: int
  expirationInterval :: int
  maximumAttempts :: int

definition NewExponentialRetryPolicy :: "int \<Rightarrow> ExponentialRetryPolicy" where
  "NewExponentialRetryPolicy initial = \<lparr>initialInterval = initial,
     backoffCoefficient = DefaultBackoffCoefficient, maximumInterval = defaultMaximumInterval,
     expirationInterval = defaultExpirationInterval, maximumAttempts = defaultMaximumAttempts\<rparr>"

definition SetInitialInterval :: "int \<Rightarrow> ExponentialRetryPolicy \<Rightarrow> ExponentialRetryPolicy" where
  "SetInitialInterval d p = p\<lparr>initialInterval := d\<rparr>"

definition SetBackoffCoefficient :: "rat \<Rightarrow> ExponentialRetryPolicy \<Rightarrow> ExponentialRetryPolicy" where
  "SetBackoffCoefficient c p = p\<lparr>backoffCoefficient := c\<rparr>"

definition SetMaximumInterval :: "int \<Rightarrow> ExponentialRetryPolicy \<Rightarrow> ExponentialRetryPolicy" where
  "SetMaximumInterval d p = p\<lparr>maximumInterval := d\<rparr>"

definition SetExpirationInterval :: "int \<Rightarrow> ExponentialRetryPolicy \<Rightarrow> ExponentialRetryPolicy" where
  "SetExpirationInterval d p = p\<lparr>expirationInterval := d\<rparr>"

definition SetMaximumAttempts :: "int \<Rightarrow> ExponentialRetryPolicy \<Rightarrow> ExponentialRetryPolicy" where
  "SetMaximumAttempts n p = p\<lparr>maximumAttempts := n\<rparr>"

definition toInt64 :: "int \<Rightarrow> rat \<Rightarrow> int" where
  "toInt64 ovf x =
     (if - (2 ^ 63) \<le> x \<and> x < 2 ^ 63 then (if 0 \<le> x then \<lfloor>x\<rfloor> else \<lceil>x\<rceil>) else ovf)"

definition addJitter :: "int \<Rightarrow> (int \<Rightarrow> int) \<Rightarrow> rat \<Rightarrow> int" where
  "addJitter ovf intn nextInterval =
     (let portion = toInt64 ovf (float64 (float64 (2 / 10) * nextInterval));
          jitterPortion = (if portion < 1 then 1 else portion)
      in toInt64 ovf (float64 (float64 (nextInterval * float64 (8 / 10)) + float64 (of_int (intn jitterPortion)))))"

definition cappedInterval :: "(rat \<Rightarrow> nat \<Rightarrow> rat) \<Rightarrow> ExponentialRetryPolicy \<Rightarrow> int \<Rightarrow> nat \<Rightarrow> rat" where
  "cappedInterval pow p elapsedTime numAttempts =
     (let next = float64 (float64 (of_int (initialInterval p)) * pow (backoffCoefficient p) numAttempts);
          next = (if maximumInterval p \<noteq> NoInterval then min next (float64 (of_int (maximumInterval p))) else next)
      in if expirationInterval p \<noteq> NoInterval
         then min (max 0 (float64 (of_int (expirationInterval p - elapsedTime)))) next
         else next)"

definition ComputeNextDelay ::
  "(rat \<Rightarrow> nat \<Rightarrow> rat) \<Rightarrow> int \<Rightarrow> (int \<Rightarrow> int) \<Rightarrow> ExponentialRetryPolicy \<Rightarrow> int \<Rightarrow> nat \<Rightarrow> int" where
  "ComputeNextDelay pow ovf intn p elapsedTime numAttempts =
     (if maximumAttempts p \<noteq> noMaximumAttempts \<and> int numAttempts \<ge> maximumAttempts p then doneInterval
      else if expirationInterval p \<noteq> NoInterval \<and> elapsedTime > expirationInterval p then doneInterval
      else if float64 (float64 (of_int (initialInterval p)) * pow (backoffCoefficient p) numAttempts) \<le> 0
      then doneInterval
      else let nextInterval = cappedInterval pow p elapsedTime numAttempts
        in if toInt64 ovf nextInterval < initialInterval p then doneInterval
           else addJitter ovf intn nextInterval)"

section \<open>Retriers\<close>

record retrierImpl =
  currentAttempt :: nat
  startTime :: int

definition NewRetrier :: "int \<Rightarrow> retrierImpl" where
  "NewRetrier now = \<lparr>currentAttempt = 0, startTime = now\<rparr>"

definition Reset :: "int \<Rightarrow> retrierImpl \<Rightarrow> retrierImpl" where
  "Reset now r = r\<lparr>startTime := now, currentAttempt := 0\<rparr>"

definition getElapsedTime :: "int \<Rightarrow> retrierImpl \<Rightarrow> int" where
  "getElapsedTime now r = now - startTime r"

definition NextBackOff :: "(int \<Rightarrow> nat \<Rightarrow> int) \<Rightarrow> int \<Rightarrow> retrierImpl \<Rightarrow> int \<times> retrierImpl" where
  "NextBackOff policy now r =
     (policy (getElapsedTime now r) (currentAttempt r), r\<lparr>currentAttempt := currentAttempt r + 1\<rparr>)"

record ConcurrentRetrier =
  cr_retrier :: retrierImpl
  cr_failureCount :: int

definition NewConcurrentRetrier :: "int \<Rightarrow> ConcurrentRetrier" where
  "NewConcurrentRetrier now = \<lparr>cr_retrier = NewRetrier now, cr_failureCount = 0\<rparr>"

definition throttleInternal ::
  "(int \<Rightarrow> nat \<Rightarrow> int) \<Rightarrow> int \<Rightarrow> ConcurrentRetrier \<Rightarrow> int \<times> ConcurrentRetrier" where
  "throttleInternal policy now c =
     (if cr_failureCount c > 0
      then (case NextBackOff policy now (cr_retrier c) of (next', r) \<Rightarrow> (next', c\<lparr>cr_retrier := r\<rparr>))
      else (doneInterval, c))"

definition Succeeded :: "int \<Rightarrow> ConcurrentRetrier \<Rightarrow> ConcurrentRetrier" where
  "Succeeded now c = c\<lparr>cr_failureCount := 0, cr_retrier := Reset now (cr_retrier c)\<rparr>"

definition Failed :: "ConcurrentRetrier \<Rightarrow> ConcurrentRetrier" where
  "Failed c = c\<lparr>cr_failureCount := cr_failureCount c + 1\<rparr>"

section \<open>Errors of the service\<close>

text \<open>An error with the errors it wraps, as \<open>errors.As\<close> and \<open>errors.Is\<close> walk them.\<close>

datatype errorKind =
    AccessDeniedError | BadRequestError | CancellationAlreadyRequestedError
  | ClientVersionNotSupportedError | DomainAlreadyExistsError | DomainNotActiveError
  | EntityNotExistsError | FeatureNotEnabledError | LimitExceededError | QueryFailedError
  | WorkflowExecutionAlreadyCompletedError | ExecutionAlreadyStartedError
  | ServiceBusyError | InternalServiceError | errShutdown | OtherError string

datatype serviceError = Single errorKind | Wraps errorKind "serviceError list"

fun errorChain :: "serviceError \<Rightarrow> errorKind list" where
  "errorChain (Single k) = [k]"
| "errorChain (Wraps k es) = k # concat (map errorChain es)"

definition errorsAs :: "serviceError \<Rightarrow> errorKind \<Rightarrow> bool" where
  "errorsAs err k = (k \<in> set (errorChain err))"

definition ErrRetryableAfter :: "serviceError \<Rightarrow> int" where
  "ErrRetryableAfter err = (if errorsAs err ServiceBusyError then Second else 0)"

definition isServiceTransientError :: "serviceError \<Rightarrow> bool" where
  "isServiceTransientError err =
     (if errorsAs err AccessDeniedError then False
      else if errorsAs err BadRequestError then False
      else if errorsAs err CancellationAlreadyRequestedError then False
      else if errorsAs err ClientVersionNotSupportedError then False
      else if errorsAs err DomainAlreadyExistsError then False
      else if errorsAs err DomainNotActiveError then False
      else if errorsAs err EntityNotExistsError then False
      else if errorsAs err FeatureNotEnabledError then False
      else if errorsAs err LimitExceededError then False
      else if errorsAs err QueryFailedError then False
      else if errorsAs err WorkflowExecutionAlreadyCompletedError then False
      else if errorsAs err ExecutionAlreadyStartedError then False
      else if errorsAs err errShutdown then False
      else if errorsAs err ServiceBusyError then True
      else True)"

section \<open>The retry loop\<close>

text \<open>
  What a run of the loop meets: the outcome of each call, the clock at the start and after
  each failed call, whether the context is already done after the call, and whether it ends
  before the timer (a context that cannot be cancelled has no such channel).
\<close>

record retryRun =
  operation :: "nat \<Rightarrow> serviceError option"
  clockNow :: "nat \<Rightarrow> int"
  ctxErr :: "nat \<Rightarrow> bool"
  ctxCancellable :: bool
  ctxDoneFirst :: "nat \<Rightarrow> bool"

text \<open>The result is the error returned, with the waits between the calls; \<open>None\<close> is a run
  that needs more iterations than the fuel.\<close>

fun retryLoop ::
  "nat \<Rightarrow> (nat \<Rightarrow> int \<Rightarrow> nat \<Rightarrow> int) \<Rightarrow> (serviceError \<Rightarrow> bool) \<Rightarrow> retryRun \<Rightarrow> retrierImpl \<Rightarrow> int list
   \<Rightarrow> (serviceError option \<times> int list) option" where
  "retryLoop 0 policy isRetriable run r waits = None"
| "retryLoop (Suc fuel) policy isRetriable run r waits =
     (let i = length waits in
      case operation run i of
        None \<Rightarrow> Some (None, waits)
      | Some err \<Rightarrow> (case NextBackOff (policy i) (clockNow run (i + 1)) r of (next', r') \<Rightarrow>
          if next' = doneInterval then Some (Some err, waits)
          else if \<not> isRetriable err then Some (Some err, waits)
          else let wait = next' + ErrRetryableAfter err in
            if ctxErr run i then Some (Some err, waits)
            else if ctxCancellable run \<and> ctxDoneFirst run i then Some (Some err, waits)
            else retryLoop fuel policy isRetriable run r' (waits @ [wait])))"

definition Retry ::
  "nat \<Rightarrow> (nat \<Rightarrow> int \<Rightarrow> nat \<Rightarrow> int) \<Rightarrow> (serviceError \<Rightarrow> bool) \<Rightarrow> retryRun
   \<Rightarrow> (serviceError option \<times> int list) option" where
  "Retry fuel policy isRetriable run =
     retryLoop fuel policy isRetriable run (NewRetrier (clockNow run 0)) []"

definition Millisecond :: int where "Millisecond = 10 ^ 6"
definition retryServiceOperationInitialInterval :: int where
  "retryServiceOperationInitialInterval = 20 * Millisecond"
definition retryServiceOperationExpirationInterval :: int where
  "retryServiceOperationExpirationInterval = 60 * Second"
definition retryServiceOperationBackoff :: rat where
  "retryServiceOperationBackoff = float64 (12 / 10)"

definition createDynamicServiceRetryPolicy :: "int \<Rightarrow> int option \<Rightarrow> ExponentialRetryPolicy" where
  "createDynamicServiceRetryPolicy now deadline =
     (let timeout = (case deadline of
            Some expiration \<Rightarrow> if expiration > now then expiration - now
              else retryServiceOperationExpirationInterval
          | None \<Rightarrow> retryServiceOperationExpirationInterval);
          maximum = timeout div 10;
          maximum = (if maximum < retryServiceOperationInitialInterval
            then retryServiceOperationInitialInterval else maximum)
      in SetExpirationInterval timeout (SetMaximumInterval maximum
           (SetBackoffCoefficient retryServiceOperationBackoff
             (NewExponentialRetryPolicy retryServiceOperationInitialInterval))))"

definition retryWhileTransientError ::
  "nat \<Rightarrow> (rat \<Rightarrow> nat \<Rightarrow> rat) \<Rightarrow> int \<Rightarrow> (nat \<Rightarrow> int \<Rightarrow> int) \<Rightarrow> int option \<Rightarrow> int \<Rightarrow> retryRun
   \<Rightarrow> (serviceError option \<times> int list) option" where
  "retryWhileTransientError fuel pow ovf intn deadline now run =
     Retry fuel (\<lambda>i. ComputeNextDelay pow ovf (intn i) (createDynamicServiceRetryPolicy now deadline))
       isServiceTransientError run"

section \<open>Bounds on the delay\<close>

text \<open>The policies the client uses: all intervals set, and of at most three days.\<close>

definition bounded_policy :: "ExponentialRetryPolicy \<Rightarrow> bool" where
  "bounded_policy p = (0 < initialInterval p \<and> 0 < maximumInterval p \<and> maximumInterval p \<le> 2 ^ 48
     \<and> 0 < expirationInterval p \<and> expirationInterval p \<le> 2 ^ 48)"

definition intn_ok :: "(int \<Rightarrow> int) \<Rightarrow> bool" where
  "intn_ok intn = (\<forall>n > 0. 0 \<le> intn n \<and> intn n < n)"

lemma toInt64_floor: "0 \<le> x \<Longrightarrow> x < 2 ^ 63 \<Longrightarrow> toInt64 ovf x = \<lfloor>x\<rfloor>"
  by (simp add: toInt64_def)

lemma cappedInterval_le:
  assumes "bounded_policy p" "0 \<le> e" "e \<le> expirationInterval p"
  shows "cappedInterval pow p e n \<le> of_int (maximumInterval p)"
    and "cappedInterval pow p e n \<le> of_int (expirationInterval p - e)"
proof -
  have m: "float64 (of_int (maximumInterval p)) = of_int (maximumInterval p)"
    using assms(1) by (intro float64_of_int) (auto simp: bounded_policy_def)
  have r: "float64 (of_int (expirationInterval p - e)) = of_int (expirationInterval p - e)"
    using assms by (intro float64_of_int) (auto simp: bounded_policy_def)
  show "cappedInterval pow p e n \<le> of_int (maximumInterval p)"
    using assms(1) by (simp add: cappedInterval_def Let_def bounded_policy_def m min_le_iff_disj NoInterval_def)
  have "0 \<le> rat_of_int (expirationInterval p - e)" using assms(3) by simp
  then show "cappedInterval pow p e n \<le> of_int (expirationInterval p - e)"
    using assms(1) by (simp only: cappedInterval_def Let_def r) (simp add: bounded_policy_def NoInterval_def)
qed

text \<open>The jitter replaces a fifth of the interval: the result lies between four fifths and
  the whole, rounding included.\<close>

lemma jitter_within:
  fixes x :: rat
  assumes x: "1 \<le> x" "x \<le> 2 ^ 48" and r: "r = 0 \<or> of_int r \<le> float64 (float64 (2 / 10) * x) - 1"
    and r0: "(0 :: int) \<le> r"
  shows "4 * x - 1 / 2 \<le> 5 * float64 (float64 (x * float64 (8 / 10)) + of_int r)"
    and "float64 (float64 (x * float64 (8 / 10)) + of_int r) \<le> x"
proof -
  define c8 where "c8 = float64 (8 / 10)"
  define c2 where "c2 = float64 (2 / 10)"
  have c8: "8 / 10 * (1 - 1 / 2 ^ 53) \<le> c8" "c8 \<le> 8 / 10 * (1 + 1 / 2 ^ 53)"
    unfolding c8_def by (rule float64_between; simp)+
  have c2: "0 \<le> c2" "c2 \<le> 2 / 10 * (1 + 1 / 2 ^ 53)"
    unfolding c2_def by (rule float64_nonneg, simp) (rule float64_between, simp)
  define z where "z = x * c8"
  define a where "a = float64 z"
  have z: "x * (8 / 10 * (1 - 1 / 2 ^ 53)) \<le> z" "z \<le> x * (8 / 10 * (1 + 1 / 2 ^ 53))"
    unfolding z_def using x c8 by (intro mult_left_mono; simp)+
  have z0: "0 \<le> z" using x float64_nonneg [of "8 / 10"] by (simp add: z_def c8_def)
  have a: "z * (1 - 1 / 2 ^ 53) \<le> a" "a \<le> z * (1 + 1 / 2 ^ 53)"
    unfolding a_def using float64_between [OF z0] by simp_all
  have a0: "0 \<le> a" unfolding a_def by (rule float64_nonneg [OF z0])
  have s: "(a + of_int r) * (1 - 1 / 2 ^ 53) \<le> float64 (a + of_int r)"
    "float64 (a + of_int r) \<le> (a + of_int r) * (1 + 1 / 2 ^ 53)"
    using a0 r0 by (intro float64_between; simp)+
  define q where "q = rat_of_int r"
  have r1: "0 \<le> q" using r0 by (simp add: q_def)
  show "4 * x - 1 / 2 \<le> 5 * float64 (float64 (x * float64 (8 / 10)) + of_int r)"
    using s(1) a(1) z(1) r1 x
    unfolding c8_def [symmetric] z_def [symmetric] a_def [symmetric] q_def [symmetric] by simp
  define u where "u = c2 * x"
  have u: "u \<le> 2 / 10 * (1 + 1 / 2 ^ 53) * x" "0 \<le> u"
    unfolding u_def using c2 x by (intro mult_right_mono mult_nonneg_nonneg; simp)+
  have "float64 u \<le> u * (1 + 1 / 2 ^ 53)" using u by (intro float64_upper)
  then have r2: "q = 0 \<or> q \<le> x * (2 / 10) + x / 2 ^ 53 - 1"
    using r x u unfolding c2_def [symmetric] u_def [symmetric] q_def [symmetric] by (auto simp: q_def)
  show "float64 (float64 (x * float64 (8 / 10)) + of_int r) \<le> x"
    using s(2) a(2) z(2) r2 x
    unfolding c8_def [symmetric] z_def [symmetric] a_def [symmetric] q_def [symmetric] by auto
qed

lemma addJitter_between:
  assumes x: "1 \<le> x" "x \<le> 2 ^ 48" and intn: "intn_ok intn" and d: "d = addJitter ovf intn x"
  shows "4 * x - 11 / 2 \<le> 5 * of_int d" and "of_int d \<le> x"
proof -
  define y where "y = float64 (float64 (2 / 10) * x)"
  define portion where "portion = toInt64 ovf y"
  define r where "r = intn (if portion < 1 then 1 else portion)"
  have c2: "0 \<le> float64 (2 / 10)" "float64 (2 / 10) \<le> 2 / 10 * (1 + 1 / 2 ^ 53)"
    by (rule float64_nonneg, simp) (rule float64_between, simp)
  have cx: "float64 (2 / 10) * x \<le> 2 / 10 * (1 + 1 / 2 ^ 53) * 2 ^ 48"
    using c2 x by (intro mult_mono) simp_all
  have cx0: "0 \<le> float64 (2 / 10) * x" using c2 x by simp
  have y: "0 \<le> y" "y \<le> 2 ^ 48"
    using float64_nonneg [OF cx0] float64_upper [OF cx0] cx by (simp_all add: y_def)
  have portion: "portion = \<lfloor>y\<rfloor>" unfolding portion_def using y by (intro toInt64_floor) simp_all
  have r: "0 \<le> r" "r = 0 \<or> of_int r \<le> y - 1" "r < 2 ^ 53"
  proof -
    have "0 \<le> r \<and> r < (if portion < 1 then 1 else portion)"
      using intn by (simp add: r_def intn_ok_def)
    moreover have "of_int portion \<le> y" by (simp add: portion)
    ultimately show "0 \<le> r" "r = 0 \<or> of_int r \<le> y - 1" "r < 2 ^ 53"
      using y by (auto split: if_splits)
  qed
  define F where "F = float64 (float64 (x * float64 (8 / 10)) + of_int r)"
  have F: "4 * x - 1 / 2 \<le> 5 * F" "F \<le> x"
    using jitter_within [OF x r(2) [unfolded y_def] r(1)] by (simp_all add: F_def)
  have "d = toInt64 ovf F"
    unfolding d addJitter_def Let_def F_def y_def [symmetric] portion_def [symmetric] r_def [symmetric]
    using float64_of_int [OF r(1,3)] by simp
  also have "\<dots> = \<lfloor>F\<rfloor>" using F x by (intro toInt64_floor) simp_all
  finally have "of_int d \<le> F" "F < of_int d + 1" by linarith+
  with F show "4 * x - 11 / 2 \<le> 5 * of_int d" "of_int d \<le> x" by simp_all
qed

lemma ComputeNextDelay_between:
  assumes p: "bounded_policy p" and e: "0 \<le> e" and intn: "intn_ok intn"
    and d: "d = ComputeNextDelay pow ovf intn p e n" "d \<noteq> doneInterval"
  shows "4 * initialInterval p \<le> 5 * d + 5" "d \<le> maximumInterval p" "e + d \<le> expirationInterval p"
proof -
  define x where "x = cappedInterval pow p e n"
  have e': "e \<le> expirationInterval p"
    and pos: "\<not> float64 (float64 (of_int (initialInterval p)) * pow (backoffCoefficient p) n) \<le> 0"
    and big: "initialInterval p \<le> toInt64 ovf x" and dx: "d = addJitter ovf intn x"
    using d p by (auto simp: ComputeNextDelay_def Let_def x_def bounded_policy_def NoInterval_def split: if_splits)
  note le = cappedInterval_le [OF p e e', of pow n, folded x_def]
  have "0 \<le> x" using pos p float64_nonneg [of "of_int (maximumInterval p)"]
    by (auto simp: x_def cappedInterval_def Let_def bounded_policy_def min_def)
  moreover have x48: "x \<le> 2 ^ 48"
  proof -
    have "rat_of_int (maximumInterval p) \<le> of_int (2 ^ 48)"
      using p by (simp only: of_int_le_iff bounded_policy_def)
    with le(1) show ?thesis by simp
  qed
  ultimately have "of_int (initialInterval p) \<le> x"
    using big by (simp add: toInt64_floor le_floor_iff)
  moreover from this have "1 \<le> x"
    using p by (simp add: bounded_policy_def order_trans [of _ "rat_of_int (initialInterval p)"])
  note j = addJitter_between [OF this x48 intn dx]
  ultimately have "of_int (4 * initialInterval p) - 11 / 2 \<le> rat_of_int (5 * d)" using j(1) by simp
  then show "4 * initialInterval p \<le> 5 * d + 5" by linarith
  show "d \<le> maximumInterval p" using j(2) le(1) by linarith
  have "rat_of_int d \<le> rat_of_int (expirationInterval p - e)" using j(2) le(2) by linarith
  then show "e + d \<le> expirationInterval p" by (simp only: of_int_le_iff)
qed

section \<open>Termination of the loop\<close>

text \<open>
  \<open>time.Sleep\<close> and timers wait at least the requested time: between two readings the clock
  advances by no less than the delay the policy gave.
\<close>

definition clock_waits :: "(nat \<Rightarrow> int \<Rightarrow> nat \<Rightarrow> int) \<Rightarrow> retryRun \<Rightarrow> bool" where
  "clock_waits policy run = (clockNow run 0 \<le> clockNow run 1 \<and>
     (\<forall>i. clockNow run (i + 1) + max 0 (policy i (clockNow run (i + 1) - clockNow run 0) i) \<le> clockNow run (i + 2)))"

text \<open>The shortest wait of a policy, and the number of calls that fit before it expires.\<close>

definition shortestWait :: "ExponentialRetryPolicy \<Rightarrow> int" where
  "shortestWait p = (4 * initialInterval p - 1) div 5"

definition callBudget :: "ExponentialRetryPolicy \<Rightarrow> nat" where
  "callBudget p = nat (expirationInterval p div shortestWait p) + 2"

text \<open>What a returned result says of the run.\<close>

definition retry_outcome ::
  "(nat \<Rightarrow> int \<Rightarrow> nat \<Rightarrow> int) \<Rightarrow> (serviceError \<Rightarrow> bool) \<Rightarrow> retryRun \<Rightarrow> serviceError option \<times> int list \<Rightarrow> bool" where
  "retry_outcome policy isRetriable run result =
     (case result of (err, waits) \<Rightarrow> err = operation run (length waits)
        \<and> (\<forall>i < length waits. \<exists>e. operation run i = Some e \<and> isRetriable e \<and> \<not> ctxErr run i
             \<and> waits ! i = policy i (clockNow run (i + 1) - clockNow run 0) i + ErrRetryableAfter e))"

definition gives_up ::
  "(nat \<Rightarrow> int \<Rightarrow> nat \<Rightarrow> int) \<Rightarrow> (serviceError \<Rightarrow> bool) \<Rightarrow> retryRun \<Rightarrow> nat \<Rightarrow> serviceError \<Rightarrow> bool" where
  "gives_up policy isRetriable run i err =
     (policy i (clockNow run (Suc i) - clockNow run 0) i = doneInterval \<or> \<not> isRetriable err
      \<or> ctxErr run i \<or> ctxCancellable run \<and> ctxDoneFirst run i)"

definition waitAfter :: "(nat \<Rightarrow> int \<Rightarrow> nat \<Rightarrow> int) \<Rightarrow> retryRun \<Rightarrow> nat \<Rightarrow> serviceError \<Rightarrow> int" where
  "waitAfter policy run i err =
     policy i (clockNow run (Suc i) - clockNow run 0) i + ErrRetryableAfter err"

definition retrierAt :: "retryRun \<Rightarrow> nat \<Rightarrow> retrierImpl" where
  "retrierAt run i = \<lparr>currentAttempt = i, startTime = clockNow run 0\<rparr>"

lemma retryLoop_step:
  "retryLoop (Suc fuel) policy isRetriable run (retrierAt run (length waits)) waits =
     (case operation run (length waits) of
        None \<Rightarrow> Some (None, waits)
      | Some err \<Rightarrow>
          if gives_up policy isRetriable run (length waits) err then Some (Some err, waits)
          else let waits' = waits @ [waitAfter policy run (length waits) err]
            in retryLoop fuel policy isRetriable run (retrierAt run (length waits')) waits')"
  by (simp add: retryLoop.simps(2) Let_def NextBackOff_def getElapsedTime_def gives_up_def waitAfter_def
      retrierAt_def split: option.split)

declare retryLoop.simps(2) [simp del]

lemma retryLoop_outcome:
  assumes "retryLoop fuel policy isRetriable run (retrierAt run (length waits)) waits = Some result"
    and "retry_outcome policy isRetriable run (operation run (length waits), waits)"
  shows "retry_outcome policy isRetriable run result"
  using assms
proof (induction fuel arbitrary: waits)
  case (Suc fuel)
  show ?case
  proof (cases "operation run (length waits)")
    case None
    with Suc.prems show ?thesis by (simp only: retryLoop_step) auto
  next
    case (Some err)
    let ?w = "waits @ [waitAfter policy run (length waits) err]"
    show ?thesis
    proof (cases "gives_up policy isRetriable run (length waits) err")
      case True
      with Suc.prems Some show ?thesis by (simp only: retryLoop_step) auto
    next
      case False
      then have "retry_outcome policy isRetriable run (operation run (length ?w), ?w)"
        using Suc.prems(2) Some
        by (simp add: retry_outcome_def nth_append less_Suc_eq gives_up_def waitAfter_def)
      moreover have "retryLoop fuel policy isRetriable run (retrierAt run (length ?w)) ?w = Some result"
        using Suc.prems(1) Some False by (simp only: retryLoop_step) (simp add: Let_def)
      ultimately show ?thesis by (rule Suc.IH [rotated])
    qed
  qed
qed simp

text \<open>Whatever the policy, if it gives up once \<open>limit\<close> has passed and otherwise waits at
  least \<open>step\<close>, the loop ends.\<close>

lemma retryLoop_ends:
  assumes expires: "\<And>i e n. limit < e \<Longrightarrow> policy i e n = doneInterval"
    and progress: "\<And>i e n. 0 \<le> e \<Longrightarrow> policy i e n \<noteq> doneInterval \<Longrightarrow> step \<le> policy i e n"
    and step: "0 < step" and clock: "clock_waits policy run"
    and "int (length waits) * step \<le> clockNow run (Suc (length waits)) - clockNow run 0"
    and "limit div step + 2 \<le> int (fuel + length waits)" and "int (length waits) \<le> limit div step + 1"
  shows "\<exists>result. retryLoop fuel policy isRetriable run (retrierAt run (length waits)) waits = Some result
    \<and> int (length (snd result)) \<le> limit div step + 1"
  using assms(5-)
proof (induction fuel arbitrary: waits)
  case (Suc fuel)
  let ?i = "length waits"
  let ?e = "clockNow run (Suc ?i) - clockNow run 0"
  show ?case
  proof (cases "operation run ?i")
    case None
    with Suc.prems(3) show ?thesis by (simp add: retryLoop_step)
  next
    case (Some err)
    show ?thesis
    proof (cases "gives_up policy isRetriable run ?i err")
      case True
      with Some Suc.prems(3) show ?thesis by (simp add: retryLoop_step)
    next
      case False
      let ?w = "waits @ [waitAfter policy run ?i err]"
      have e0: "0 \<le> ?e" using Suc.prems(1) step by (rule_tac order_trans) auto
      have d: "policy ?i ?e ?i \<noteq> doneInterval" using False by (simp add: gives_up_def)
      have "?e \<le> limit" using expires [of ?e] d by (meson not_le)
      with Suc.prems(1) have "int ?i * step \<le> limit" by simp
      then have "int ?i \<le> limit div step" using step
        by (metis nonzero_mult_div_cancel_right zdiv_mono1 less_irrefl)
      then have 3: "int (length ?w) \<le> limit div step + 1" by simp
      have "clockNow run (Suc ?i) + max 0 (policy ?i ?e ?i) \<le> clockNow run (Suc (Suc ?i))"
        using clock by (auto simp: clock_waits_def dest: spec [of _ ?i])
      with progress [OF e0 d] Suc.prems(1)
      have 1: "int (length ?w) * step \<le> clockNow run (Suc (length ?w)) - clockNow run 0"
        by (simp add: algebra_simps)
      have 2: "limit div step + 2 \<le> int (fuel + length ?w)" using Suc.prems(2) by simp
      from Suc.IH [OF 1 2 3] Some False show ?thesis by (simp only: retryLoop_step) (simp add: Let_def)
    qed
  qed
qed simp

lemma Retry_retrierAt:
  "Retry fuel policy isRetriable run = retryLoop fuel policy isRetriable run (retrierAt run (length ([] :: int list))) []"
  by (simp add: Retry_def NewRetrier_def retrierAt_def)

lemma shortestWait_le: "4 * initialInterval p \<le> 5 * d + 5 \<Longrightarrow> shortestWait p \<le> d"
  by (simp add: shortestWait_def)

text \<open>With a policy that expires, \<open>Retry\<close> returns after at most \<open>callBudget\<close> calls.\<close>

lemma Retry_ends:
  assumes "bounded_policy p" and "2 \<le> initialInterval p" and "\<forall>i. intn_ok (intn i)"
    and "clock_waits (\<lambda>i. ComputeNextDelay pow ovf (intn i) p) run"
  shows "\<exists>err waits. Retry (callBudget p) (\<lambda>i. ComputeNextDelay pow ovf (intn i) p) isRetriable run = Some (err, waits)
    \<and> length waits < callBudget p
    \<and> retry_outcome (\<lambda>i. ComputeNextDelay pow ovf (intn i) p) isRetriable run (err, waits)"
proof -
  let ?policy = "\<lambda>i. ComputeNextDelay pow ovf (intn i) p"
  have step: "0 < shortestWait p" using assms(2) by (simp add: shortestWait_def)
  have budget: "expirationInterval p div shortestWait p + 2 \<le> int (callBudget p)"
    by (simp add: callBudget_def)
  have "0 \<le> expirationInterval p div shortestWait p"
    using step assms(1) by (simp add: bounded_policy_def pos_imp_zdiv_nonneg_iff)
  moreover have "expirationInterval p < e \<Longrightarrow> ?policy i e n = doneInterval" for i e n
    using assms(1) by (simp add: ComputeNextDelay_def bounded_policy_def NoInterval_def)
  moreover have "0 \<le> e \<Longrightarrow> ?policy i e n \<noteq> doneInterval \<Longrightarrow> shortestWait p \<le> ?policy i e n" for i e n
    using ComputeNextDelay_between(1) [OF assms(1) _ _ refl] assms(3) by (blast intro: shortestWait_le)
  ultimately obtain result where result: "Retry (callBudget p) ?policy isRetriable run = Some result"
    "int (length (snd result)) \<le> expirationInterval p div shortestWait p + 1"
    using retryLoop_ends [of "expirationInterval p" ?policy "shortestWait p" run "[]" "callBudget p" isRetriable]
      step assms(4) budget by (auto simp: Retry_retrierAt clock_waits_def)
  moreover have "retry_outcome ?policy isRetriable run result"
    using result(1) unfolding Retry_retrierAt by (rule retryLoop_outcome) (simp add: retry_outcome_def)
  ultimately show ?thesis using budget by (cases result) auto
qed

lemma service_policy_bounded:
  assumes "case deadline of Some d \<Rightarrow> d \<le> now + 2 ^ 48 | None \<Rightarrow> True"
  shows "bounded_policy (createDynamicServiceRetryPolicy now deadline)"
    and "initialInterval (createDynamicServiceRetryPolicy now deadline) = 20000000"
  using assms
  by (auto simp: bounded_policy_def createDynamicServiceRetryPolicy_def Let_def backoff_consts
      SetExpirationInterval_def SetMaximumInterval_def SetBackoffCoefficient_def NewExponentialRetryPolicy_def
      retryServiceOperationInitialInterval_def retryServiceOperationExpirationInterval_def
      Millisecond_def Second_def split: option.splits)

section \<open>Properties\<close>

text \<open>
  (C30) Every delay of the exponential policy is within bounds, float rounding included: once
  the expiration interval has passed there is none, and otherwise a delay is at least about
  four fifths of the initial interval, at most the maximum interval, and never carries the
  caller past the expiration.
\<close>

theorem ComputeNextDelay_bounds:
  assumes "bounded_policy p" and "0 \<le> elapsed" and "intn_ok intn"
  shows "let d = ComputeNextDelay pow ovf intn p elapsed n in
    if expirationInterval p < elapsed then d = doneInterval
    else d = doneInterval
      \<or> 4 * initialInterval p \<le> 5 * (d + 1) \<and> d \<le> maximumInterval p \<and> elapsed + d \<le> expirationInterval p"
proof -
  have "ComputeNextDelay pow ovf intn p elapsed n = doneInterval" if "expirationInterval p < elapsed"
    using that assms by (simp add: ComputeNextDelay_def bounded_policy_def NoInterval_def)
  with ComputeNextDelay_between [OF assms refl, of pow ovf n] show ?thesis
    by (cases "ComputeNextDelay pow ovf intn p elapsed n = doneInterval") (auto simp: Let_def)
qed

definition ex_policy :: ExponentialRetryPolicy where
  "ex_policy = SetMaximumAttempts 5 (NewExponentialRetryPolicy Second)"

lemma ex_policy_fields:
  "initialInterval ex_policy = 1000000000" "backoffCoefficient ex_policy = 2"
  "maximumInterval ex_policy = 10000000000" "expirationInterval ex_policy = 60000000000"
  "maximumAttempts ex_policy = 5" "bounded_policy ex_policy"
  by (simp_all add: ex_policy_def SetMaximumAttempts_def NewExponentialRetryPolicy_def backoff_consts
      Second_def bounded_policy_def)

lemma intn_ok_half: "intn_ok (\<lambda>n. n div 2)"
  by (auto simp: intn_ok_def)

lemma ex_delay:
  "ComputeNextDelay (\<lambda>c n. c ^ n) 0 (\<lambda>n. n div 2) ex_policy 3000000000 2 =
     addJitter 0 (\<lambda>n. n div 2) 4000000000"
  using float64_of_int [of 1000000000] float64_of_int [of 4000000000] float64_of_int [of 10000000000]
    float64_of_int [of 57000000000]
  by (simp add: ComputeNextDelay_def cappedInterval_def Let_def ex_policy_fields backoff_consts toInt64_def)

theorem ComputeNextDelay_bounds_witness:
  "let d = ComputeNextDelay (\<lambda>c n. c ^ n) 0 (\<lambda>n. n div 2) ex_policy 3000000000 2 in
   d \<noteq> doneInterval \<and> 799999999 \<le> d \<and> d \<le> 10000000000 \<and> 3000000000 + d \<le> 60000000000"
proof -
  have "doneInterval \<noteq> addJitter 0 (\<lambda>n. n div 2) 4000000000"
    using addJitter_between(1) [of 4000000000, OF _ _ intn_ok_half refl, of 0] by (auto simp: doneInterval_def)
  then show ?thesis
    using ComputeNextDelay_bounds [OF ex_policy_fields(6) _ intn_ok_half, of 3000000000 "\<lambda>c n. c ^ n" 0 2]
    by (auto simp: ex_delay ex_policy_fields Let_def)
qed

text \<open>
  (C29) Calls to the service end.  With the policy derived from the caller's deadline (at most
  three days away) or the default one, and a clock that runs while the loop waits,
  \<open>retryWhileTransientError\<close> returns after at most \<open>callBudget\<close> calls of the operation,
  whatever the operation, the context and the jitter do.  It returns the outcome of the last
  call; every call before it failed with a transient error while the context was live, and
  was followed by the policy's delay, a second longer when the service was busy.
\<close>

theorem retryWhileTransientError_terminates:
  assumes "case deadline of Some d \<Rightarrow> d \<le> now + 2 ^ 48 | None \<Rightarrow> True" and "\<forall>i. intn_ok (intn i)"
    and "clock_waits (\<lambda>i. ComputeNextDelay pow ovf (intn i) (createDynamicServiceRetryPolicy now deadline)) run"
  shows "let budget = callBudget (createDynamicServiceRetryPolicy now deadline) in
    \<exists>err waits. retryWhileTransientError budget pow ovf intn deadline now run = Some (err, waits)
    \<and> length waits < budget
    \<and> retry_outcome (\<lambda>i. ComputeNextDelay pow ovf (intn i) (createDynamicServiceRetryPolicy now deadline))
        isServiceTransientError run (err, waits)"
  unfolding retryWhileTransientError_def Let_def
  by (rule Retry_ends) (use assms service_policy_bounded [OF assms(1)] in simp_all)

definition ex_run :: retryRun where
  "ex_run = \<lparr>operation = (\<lambda>i. if i = 0 then Some (Single ServiceBusyError) else None),
     clockNow = (\<lambda>i. if i \<le> 1 then 0 else 100000000000 * int i),
     ctxErr = (\<lambda>i. False), ctxCancellable = True, ctxDoneFirst = (\<lambda>i. False)\<rparr>"

lemma ex_run_clock:
  "clock_waits (\<lambda>i. ComputeNextDelay (\<lambda>c n. c ^ n) 0 (\<lambda>n. n div 2) (createDynamicServiceRetryPolicy 0 None)) ex_run"
  (is "clock_waits (\<lambda>i. ?policy) ex_run")
proof -
  have p: "bounded_policy (createDynamicServiceRetryPolicy 0 None)"
    "expirationInterval (createDynamicServiceRetryPolicy 0 None) = 60000000000"
    using service_policy_bounded(1) [of 0 None]
    by (simp_all add: createDynamicServiceRetryPolicy_def SetExpirationInterval_def Let_def
        retryServiceOperationExpirationInterval_def Second_def)
  have "?policy 0 0 \<le> 60000000000"
    using ComputeNextDelay_between(3) [OF p(1) _ intn_ok_half refl, of 0 "\<lambda>c n. c ^ n" 0 0]
    by (cases "?policy 0 0 = doneInterval") (simp_all add: doneInterval_def p)
  moreover have "?policy e n = doneInterval" if "60000000000 < e" for e n
    using that by (simp add: ComputeNextDelay_def p NoInterval_def)
  ultimately show ?thesis by (auto simp: clock_waits_def ex_run_def doneInterval_def max_def)
qed

theorem retryWhileTransientError_terminates_witness:
  "\<exists>err waits. retryWhileTransientError 3752 (\<lambda>c n. c ^ n) 0 (\<lambda>i n. n div 2) None 0 ex_run =
     Some (err, waits) \<and> length waits < 3752"
proof -
  have "callBudget (createDynamicServiceRetryPolicy 0 None) = 3752"
    using service_policy_bounded(2) [of 0 None]
    by (simp add: callBudget_def shortestWait_def) (simp add: createDynamicServiceRetryPolicy_def
      SetExpirationInterval_def Let_def retryServiceOperationExpirationInterval_def Second_def)
  then show ?thesis
    using retryWhileTransientError_terminates [OF _ _ ex_run_clock] intn_ok_half by (auto simp: Let_def)
qed

end
