(* ===== verification/Activity_Options.thy ===== *)
theory Activity_Options
  imports Retry_Backoff Event_Handler
begin

text \<open>
  Activity options and retry policies: how options travel through the workflow context
  (\<open>src/internal/workflow.go\<close>), how a retry policy is converted to and from its thrift form
  (\<open>src/internal/convert.go\<close>), how options are validated and completed with defaults
  (\<open>src/internal/internal_activity.go\<close>), and how a failed local activity is retried
  (\<open>src/internal/internal_task_handlers.go\<close>).

  A context is represented by the options found in it.  Timeouts are 32-bit seconds:
  arithmetic on them wraps, and converting a float outside their range gives \<open>ovf\<close>, which Go
  leaves to the implementation.
\<close>

section \<open>Retry policies\<close>

definition wrap32 :: "int \<Rightarrow> int" where
  "wrap32 x = (x + 2 ^ 31) mod 2 ^ 32 - 2 ^ 31"

definition Int32Ceil :: "int \<Rightarrow> rat \<Rightarrow> int" where
  "Int32Ceil ovf v = (if - (2 ^ 31) \<le> \<lceil>v\<rceil> \<and> \<lceil>v\<rceil> < 2 ^ 31 then \<lceil>v\<rceil> else ovf)"

definition ceilSeconds :: "int \<Rightarrow> int \<Rightarrow> int" where
  "ceilSeconds ovf d = Int32Ceil ovf (Duration_Seconds d)"

definition convertRetryPolicy :: "int \<Rightarrow> RetryPolicy option \<Rightarrow> ThriftRetryPolicy option" where
  "convertRetryPolicy ovf policy = (case policy of
      None \<Rightarrow> None
    | Some p \<Rightarrow> Some \<lparr>
        trp_InitialIntervalInSeconds = Some (ceilSeconds ovf (rp_InitialInterval p)),
        trp_BackoffCoefficient = Some (if rp_BackoffCoefficient p = 0 then DefaultBackoffCoefficient
          else rp_BackoffCoefficient p),
        trp_MaximumIntervalInSeconds = Some (ceilSeconds ovf (rp_MaximumInterval p)),
        trp_MaximumAttempts = Some (rp_MaximumAttempts p),
        trp_NonRetriableErrorReasons = rp_NonRetriableErrorReasons p,
        trp_ExpirationIntervalInSeconds = Some (ceilSeconds ovf (rp_ExpirationInterval p))\<rparr>)"

definition get_rat :: "rat option \<Rightarrow> rat" where
  "get_rat v = (case v of None \<Rightarrow> 0 | Some r \<Rightarrow> r)"

definition convertFromThriftRetryPolicy :: "ThriftRetryPolicy option \<Rightarrow> RetryPolicy option" where
  "convertFromThriftRetryPolicy policy = (case policy of
      None \<Rightarrow> None
    | Some p \<Rightarrow> Some \<lparr>
        rp_InitialInterval = Second * get_int (trp_InitialIntervalInSeconds p),
        rp_BackoffCoefficient = get_rat (trp_BackoffCoefficient p),
        rp_MaximumInterval = Second * get_int (trp_MaximumIntervalInSeconds p),
        rp_ExpirationInterval = Second * get_int (trp_ExpirationIntervalInSeconds p),
        rp_MaximumAttempts = get_int (trp_MaximumAttempts p),
        rp_NonRetriableErrorReasons = trp_NonRetriableErrorReasons p\<rparr>)"

text \<open>The error, if any, and the policy as validation leaves it: the default maximum
  interval is stored in the policy that was passed.\<close>

definition validateRetryPolicy :: "ThriftRetryPolicy option \<Rightarrow> string option \<times> ThriftRetryPolicy option" where
  "validateRetryPolicy policy = (case policy of
      None \<Rightarrow> (None, None)
    | Some p \<Rightarrow>
      if get_int (trp_InitialIntervalInSeconds p) \<le> 0
      then (Some ''missing or negative InitialIntervalInSeconds on retry policy'', Some p)
      else if get_int (trp_MaximumIntervalInSeconds p) < 0
      then (Some ''negative MaximumIntervalInSeconds on retry policy is invalid'', Some p)
      else let p = (if get_int (trp_MaximumIntervalInSeconds p) = 0
             then p\<lparr>trp_MaximumIntervalInSeconds := Some (wrap32 (100 * get_int (trp_InitialIntervalInSeconds p)))\<rparr>
             else p) in
        if get_int (trp_MaximumAttempts p) < 0
        then (Some ''negative MaximumAttempts on retry policy is invalid'', Some p)
        else if get_int (trp_ExpirationIntervalInSeconds p) < 0
        then (Some ''ExpirationIntervalInSeconds cannot be less than 0 on retry policy'', Some p)
        else if get_rat (trp_BackoffCoefficient p) < 1
        then (Some ''BackoffCoefficient on retry policy cannot be less than 1.0'', Some p)
        else if get_int (trp_MaximumAttempts p) = 0 \<and> get_int (trp_ExpirationIntervalInSeconds p) = 0
        then (Some ''both MaximumAttempts and ExpirationIntervalInSeconds on retry policy are not set, at least one of them must be set'', Some p)
        else (None, Some p))"

section \<open>Activity options in the context\<close>

record activityOptions =
  ao_ActivityID :: "string option"
  ao_TaskListName :: string
  ao_TaskListKind :: TaskListKind
  ao_ScheduleToCloseTimeoutSeconds :: int
  ao_ScheduleToStartTimeoutSeconds :: int
  ao_StartToCloseTimeoutSeconds :: int
  ao_HeartbeatTimeoutSeconds :: int
  ao_WaitForCancellation :: bool
  ao_OriginalTaskListName :: string
  ao_RetryPolicy :: "ThriftRetryPolicy option"

record localActivityOptions =
  lo_ScheduleToCloseTimeoutSeconds :: int
  lo_RetryPolicy :: "RetryPolicy option"

text \<open>The options as users give them, durations in nanoseconds.\<close>

record ActivityOptions =
  TaskListOption :: string \<comment> \<open>\<open>TaskList\<close>\<close>
  ScheduleToCloseTimeout :: int
  ScheduleToStartTimeout :: int
  StartToCloseTimeout :: int
  HeartbeatTimeout :: int
  WaitForCancellation :: bool
  ActivityIDOption :: string \<comment> \<open>\<open>ActivityID\<close>\<close>
  RetryPolicyOption :: "RetryPolicy option" \<comment> \<open>\<open>RetryPolicy\<close>\<close>

record LocalActivityOptions =
  loc_ScheduleToCloseTimeout :: int
  loc_RetryPolicy :: "RetryPolicy option"

definition noActivityOptions :: activityOptions where
  "noActivityOptions = \<lparr>ao_ActivityID = None, ao_TaskListName = [], ao_TaskListKind = TaskListKindNormal,
     ao_ScheduleToCloseTimeoutSeconds = 0, ao_ScheduleToStartTimeoutSeconds = 0,
     ao_StartToCloseTimeoutSeconds = 0, ao_HeartbeatTimeoutSeconds = 0, ao_WaitForCancellation = False,
     ao_OriginalTaskListName = [], ao_RetryPolicy = None\<rparr>"

definition setActivityParametersIfNotExist :: "activityOptions option \<Rightarrow> activityOptions" where
  "setActivityParametersIfNotExist ctx = (case ctx of None \<Rightarrow> noActivityOptions | Some params \<Rightarrow> params)"

definition setLocalActivityParametersIfNotExist :: "localActivityOptions option \<Rightarrow> localActivityOptions" where
  "setLocalActivityParametersIfNotExist ctx = (case ctx of
      None \<Rightarrow> \<lparr>lo_ScheduleToCloseTimeoutSeconds = 0, lo_RetryPolicy = None\<rparr>
    | Some params \<Rightarrow> params)"

definition WithActivityOptions :: "int \<Rightarrow> ActivityOptions \<Rightarrow> activityOptions option \<Rightarrow> activityOptions option" where
  "WithActivityOptions ovf options ctx = Some ((setActivityParametersIfNotExist ctx)\<lparr>
     ao_TaskListName := TaskListOption options,
     ao_ScheduleToCloseTimeoutSeconds := ceilSeconds ovf (ScheduleToCloseTimeout options),
     ao_StartToCloseTimeoutSeconds := ceilSeconds ovf (StartToCloseTimeout options),
     ao_ScheduleToStartTimeoutSeconds := ceilSeconds ovf (ScheduleToStartTimeout options),
     ao_HeartbeatTimeoutSeconds := ceilSeconds ovf (HeartbeatTimeout options),
     ao_WaitForCancellation := WaitForCancellation options,
     ao_ActivityID := Some (ActivityIDOption options),
     ao_RetryPolicy := convertRetryPolicy ovf (RetryPolicyOption options)\<rparr>)"

definition WithLocalActivityOptions ::
  "int \<Rightarrow> LocalActivityOptions \<Rightarrow> localActivityOptions option \<Rightarrow> localActivityOptions option" where
  "WithLocalActivityOptions ovf options ctx = Some ((setLocalActivityParametersIfNotExist ctx)\<lparr>
     lo_ScheduleToCloseTimeoutSeconds := ceilSeconds ovf (loc_ScheduleToCloseTimeout options),
     lo_RetryPolicy := loc_RetryPolicy options\<rparr>)"

definition WithTaskList :: "string \<Rightarrow> activityOptions option \<Rightarrow> activityOptions option" where
  "WithTaskList name ctx = Some ((setActivityParametersIfNotExist ctx)\<lparr>ao_TaskListName := name\<rparr>)"

definition GetActivityTaskList :: "activityOptions option \<Rightarrow> string option" where
  "GetActivityTaskList ctx = map_option ao_TaskListName ctx"

definition GetActivityOptions :: "activityOptions option \<Rightarrow> ActivityOptions option" where
  "GetActivityOptions ctx = (case ctx of
      None \<Rightarrow> None
    | Some ao \<Rightarrow> Some \<lparr>TaskListOption = ao_TaskListName ao,
        ScheduleToCloseTimeout = ao_ScheduleToCloseTimeoutSeconds ao * Second,
        ScheduleToStartTimeout = ao_ScheduleToStartTimeoutSeconds ao * Second,
        StartToCloseTimeout = ao_StartToCloseTimeoutSeconds ao * Second,
        HeartbeatTimeout = ao_HeartbeatTimeoutSeconds ao * Second,
        WaitForCancellation = ao_WaitForCancellation ao,
        ActivityIDOption = (case ao_ActivityID ao of None \<Rightarrow> [] | Some i \<Rightarrow> i),
        RetryPolicyOption = (case ao_RetryPolicy ao of
            None \<Rightarrow> None | Some p \<Rightarrow> convertFromThriftRetryPolicy (Some p))\<rparr>)"

definition WithScheduleToCloseTimeout :: "int \<Rightarrow> int \<Rightarrow> activityOptions option \<Rightarrow> activityOptions option" where
  "WithScheduleToCloseTimeout ovf d ctx =
     Some ((setActivityParametersIfNotExist ctx)\<lparr>ao_ScheduleToCloseTimeoutSeconds := ceilSeconds ovf d\<rparr>)"

definition WithScheduleToStartTimeout :: "int \<Rightarrow> int \<Rightarrow> activityOptions option \<Rightarrow> activityOptions option" where
  "WithScheduleToStartTimeout ovf d ctx =
     Some ((setActivityParametersIfNotExist ctx)\<lparr>ao_ScheduleToStartTimeoutSeconds := ceilSeconds ovf d\<rparr>)"

definition WithStartToCloseTimeout :: "int \<Rightarrow> int \<Rightarrow> activityOptions option \<Rightarrow> activityOptions option" where
  "WithStartToCloseTimeout ovf d ctx =
     Some ((setActivityParametersIfNotExist ctx)\<lparr>ao_StartToCloseTimeoutSeconds := ceilSeconds ovf d\<rparr>)"

definition WithHeartbeatTimeout :: "int \<Rightarrow> int \<Rightarrow> activityOptions option \<Rightarrow> activityOptions option" where
  "WithHeartbeatTimeout ovf d ctx =
     Some ((setActivityParametersIfNotExist ctx)\<lparr>ao_HeartbeatTimeoutSeconds := ceilSeconds ovf d\<rparr>)"

definition WithWaitForCancellation :: "bool \<Rightarrow> activityOptions option \<Rightarrow> activityOptions option" where
  "WithWaitForCancellation wait ctx =
     Some ((setActivityParametersIfNotExist ctx)\<lparr>ao_WaitForCancellation := wait\<rparr>)"

definition WithRetryPolicy :: "int \<Rightarrow> RetryPolicy \<Rightarrow> activityOptions option \<Rightarrow> activityOptions option" where
  "WithRetryPolicy ovf policy ctx =
     Some ((setActivityParametersIfNotExist ctx)\<lparr>ao_RetryPolicy := convertRetryPolicy ovf (Some policy)\<rparr>)"

section \<open>Validation\<close>

definition errActivityParamsBadRequest :: string where
  "errActivityParamsBadRequest = ''missing activity parameters through context, check ActivityOptions''"
definition errLocalActivityParamsBadRequest :: string where
  "errLocalActivityParamsBadRequest =
     ''missing local activity parameters through context, check LocalActivityOptions''"

text \<open>The error, if any, and the options the context then holds: defaults are written into
  the options of the context, also when a later check fails.\<close>

definition getValidatedActivityOptions :: "activityOptions option \<Rightarrow> string option \<times> activityOptions option" where
  "getValidatedActivityOptions ctx = (case ctx of
      None \<Rightarrow> (Some errActivityParamsBadRequest, None)
    | Some p \<Rightarrow> let p = (if ao_TaskListName p = [] then p\<lparr>ao_TaskListName := ao_OriginalTaskListName p\<rparr> else p) in
      if ao_ScheduleToStartTimeoutSeconds p \<le> 0
      then (Some ''missing or negative ScheduleToStartTimeoutSeconds'', Some p)
      else if ao_StartToCloseTimeoutSeconds p \<le> 0
      then (Some ''missing or negative StartToCloseTimeoutSeconds'', Some p)
      else if ao_ScheduleToCloseTimeoutSeconds p < 0
      then (Some ''invalid negative ScheduleToCloseTimeoutSeconds'', Some p)
      else let p = (if ao_ScheduleToCloseTimeoutSeconds p = 0
             then p\<lparr>ao_ScheduleToCloseTimeoutSeconds :=
                    wrap32 (ao_ScheduleToStartTimeoutSeconds p + ao_StartToCloseTimeoutSeconds p)\<rparr>
             else p) in
        if ao_HeartbeatTimeoutSeconds p < 0
        then (Some ''invalid negative HeartbeatTimeoutSeconds'', Some p)
        else case validateRetryPolicy (ao_RetryPolicy p) of (err, policy) \<Rightarrow>
          (err, Some (p\<lparr>ao_RetryPolicy := policy\<rparr>)))"

definition getValidatedLocalActivityOptions :: "localActivityOptions option \<Rightarrow> string + localActivityOptions" where
  "getValidatedLocalActivityOptions ctx = (case ctx of
      None \<Rightarrow> Inl errLocalActivityParamsBadRequest
    | Some p \<Rightarrow> if lo_ScheduleToCloseTimeoutSeconds p \<le> 0
        then Inl ''missing or negative ScheduleToCloseTimeoutSeconds'' else Inr p)"

section \<open>Retrying local activities\<close>

definition noRetryBackoff :: int where "noRetryBackoff = -1"

definition getRetryBackoffWithNowTime ::
  "(rat \<Rightarrow> nat \<Rightarrow> rat) \<Rightarrow> int \<Rightarrow> RetryPolicy \<Rightarrow> int \<Rightarrow> string \<Rightarrow> int \<Rightarrow> int option \<Rightarrow> int" where
  "getRetryBackoffWithNowTime pow ovf p attempt errReason now expireTime =
     (if rp_MaximumAttempts p = 0 \<and> rp_ExpirationInterval p = 0 then noRetryBackoff
      else if rp_MaximumAttempts p > 0 \<and> attempt > rp_MaximumAttempts p - 1 then noRetryBackoff
      else let backoffInterval = toInt64 ovf (float64
                 (float64 (of_int (rp_InitialInterval p)) * pow (rp_BackoffCoefficient p) (nat attempt))) in
        if backoffInterval \<le> 0 \<and> \<not> rp_MaximumInterval p > 0 then noRetryBackoff
        else let backoffInterval = (if backoffInterval \<le> 0 then rp_MaximumInterval p else backoffInterval);
                 backoffInterval = (if rp_MaximumInterval p > 0 \<and> backoffInterval > rp_MaximumInterval p
                   then rp_MaximumInterval p else backoffInterval);
                 nextScheduleTime = now + backoffInterval in
          if (case expireTime of None \<Rightarrow> False | Some e \<Rightarrow> nextScheduleTime > e) then noRetryBackoff
          else if errReason \<in> set (rp_NonRetriableErrorReasons p) then noRetryBackoff
          else backoffInterval)"

text \<open>\<open>lar.err == ErrDeadlineExceeded\<close> compares pointers; whether the error is that very
  value is the argument \<open>isDeadline\<close>.  The details of the error are encoded with the default
  data converter \<open>dc\<close>, and only the reason is used.\<close>

definition getRetryBackoff ::
  "(rat \<Rightarrow> nat \<Rightarrow> rat) \<Rightarrow> int \<Rightarrow> DataConverter \<Rightarrow> bool \<Rightarrow> RetryPolicy \<Rightarrow> localActivityTask \<Rightarrow> goError \<Rightarrow> int
   \<Rightarrow> string + int" where
  "getRetryBackoff pow ovf dc isDeadline p task err now =
     (case (if rp_NonRetriableErrorReasons p = [] then Inr []
            else if isDeadline then Inr (''timeout:'' @ TimeoutType_String TimeoutTypeScheduleToClose)
            else map_sum id fst (getErrorDetails err dc)) of
        Inl panic \<Rightarrow> Inl panic
      | Inr errReason \<Rightarrow>
          Inr (getRetryBackoffWithNowTime pow ovf p (lat_attempt task) errReason now (lat_expireTime task)))"

text \<open>What is done with a failed local activity: a retry after a local timer, or the result
  reported to the workflow with the backoff in it.\<close>

datatype localRetry = RetryAfter int | ReportResult localActivityResult

definition retryLocalActivity ::
  "(rat \<Rightarrow> nat \<Rightarrow> rat) \<Rightarrow> int \<Rightarrow> DataConverter \<Rightarrow> bool \<Rightarrow> int \<Rightarrow> localActivityResult \<Rightarrow> int \<Rightarrow> string + localRetry" where
  "retryLocalActivity pow ovf dc isDeadline decisionTimeout lar now =
     (case (lat_retryPolicy (lr_task lar), lr_err lar) of
        (Some p, Some err) \<Rightarrow>
          if IsCanceledError err then Inr (ReportResult lar)
          else (case getRetryBackoff pow ovf dc isDeadline p (lr_task lar) err now of
              Inl panic \<Rightarrow> Inl panic
            | Inr backoff \<Rightarrow> if backoff > 0 \<and> backoff \<le> decisionTimeout then Inr (RetryAfter backoff)
                else Inr (ReportResult (lar\<lparr>lr_backoff := backoff\<rparr>)))
      | _ \<Rightarrow> Inr (ReportResult lar))"

text \<open>When the local timer fires: the task is sent again with the next attempt, if it is
  still pending and the tunnel to the local activity worker takes it.\<close>

definition localRetryFires :: "(string \<Rightarrow> bool) \<Rightarrow> (localActivityTask \<Rightarrow> bool) \<Rightarrow> localActivityTask
    \<Rightarrow> localActivityTask \<times> localActivityTask list" where
  "localRetryFires pendingLaTasks sendTask task =
     (if \<not> pendingLaTasks (lat_activityID task) then (task, [])
      else let task' = task\<lparr>lat_attempt := lat_attempt task + 1\<rparr> in
        if sendTask task' then (task', [task'])
        else (task'\<lparr>lat_attempt := lat_attempt task' - 1\<rparr>, []))"

section \<open>Conversion to seconds and back\<close>

definition whole_seconds :: "int \<Rightarrow> bool" where
  "whole_seconds d = (0 \<le> d \<and> d mod Second = 0 \<and> d div Second < 2 ^ 31)"

lemma whole_seconds_ceil:
  assumes "whole_seconds d"
  shows "ceilSeconds ovf d = d div Second" and "d div Second * Second = d"
proof -
  show d: "d div Second * Second = d" using assms by (auto simp: whole_seconds_def)
  have n: "0 \<le> d div Second" "d div Second < 2 ^ 31"
    using assms by (simp_all add: whole_seconds_def Second_def pos_imp_zdiv_nonneg_iff)
  have "Duration_Seconds d = of_int (d div Second)"
    using Duration_Seconds_whole [of "d div Second"] n by (simp add: d)
  then show "ceilSeconds ovf d = d div Second" using n by (simp add: ceilSeconds_def Int32Ceil_def)
qed

definition whole_policy :: "RetryPolicy \<Rightarrow> bool" where
  "whole_policy p = (whole_seconds (rp_InitialInterval p) \<and> whole_seconds (rp_MaximumInterval p)
     \<and> whole_seconds (rp_ExpirationInterval p))"

definition withDefaultCoefficient :: "RetryPolicy \<Rightarrow> RetryPolicy" where
  "withDefaultCoefficient p =
     (if rp_BackoffCoefficient p = 0 then p\<lparr>rp_BackoffCoefficient := DefaultBackoffCoefficient\<rparr> else p)"

lemma convertRetryPolicy_round_trip:
  assumes "whole_policy p"
  shows "convertFromThriftRetryPolicy (convertRetryPolicy ovf (Some p)) = Some (withDefaultCoefficient p)"
  using assms
  by (simp add: convertFromThriftRetryPolicy_def convertRetryPolicy_def whole_policy_def whole_seconds_ceil
      get_rat_def withDefaultCoefficient_def mult.commute [of Second])

lemma GetActivityOptions_RetryPolicy:
  "GetActivityOptions (Some ao) = Some \<lparr>TaskListOption = ao_TaskListName ao,
     ScheduleToCloseTimeout = ao_ScheduleToCloseTimeoutSeconds ao * Second,
     ScheduleToStartTimeout = ao_ScheduleToStartTimeoutSeconds ao * Second,
     StartToCloseTimeout = ao_StartToCloseTimeoutSeconds ao * Second,
     HeartbeatTimeout = ao_HeartbeatTimeoutSeconds ao * Second,
     WaitForCancellation = ao_WaitForCancellation ao,
     ActivityIDOption = (case ao_ActivityID ao of None \<Rightarrow> [] | Some i \<Rightarrow> i),
     RetryPolicyOption = convertFromThriftRetryPolicy (ao_RetryPolicy ao)\<rparr>"
  by (simp add: GetActivityOptions_def convertFromThriftRetryPolicy_def split: option.split)

definition whole_options :: "ActivityOptions \<Rightarrow> bool" where
  "whole_options options = (whole_seconds (ScheduleToCloseTimeout options)
     \<and> whole_seconds (ScheduleToStartTimeout options) \<and> whole_seconds (StartToCloseTimeout options)
     \<and> whole_seconds (HeartbeatTimeout options)
     \<and> (case RetryPolicyOption options of None \<Rightarrow> True | Some p \<Rightarrow> whole_policy p))"

section \<open>Validated options\<close>

definition wf_policy :: "ThriftRetryPolicy \<Rightarrow> bool" where
  "wf_policy p = (0 < get_int (trp_InitialIntervalInSeconds p) \<and> 0 < get_int (trp_MaximumIntervalInSeconds p)
     \<and> 1 \<le> get_rat (trp_BackoffCoefficient p)
     \<and> 0 \<le> get_int (trp_MaximumAttempts p) \<and> 0 \<le> get_int (trp_ExpirationIntervalInSeconds p)
     \<and> (0 < get_int (trp_MaximumAttempts p) \<or> 0 < get_int (trp_ExpirationIntervalInSeconds p)))"

definition wf_options :: "activityOptions \<Rightarrow> bool" where
  "wf_options p = (0 < ao_ScheduleToStartTimeoutSeconds p \<and> 0 < ao_StartToCloseTimeoutSeconds p
     \<and> 0 < ao_ScheduleToCloseTimeoutSeconds p \<and> 0 \<le> ao_HeartbeatTimeoutSeconds p
     \<and> (case ao_RetryPolicy p of None \<Rightarrow> True | Some r \<Rightarrow> wf_policy r)
     \<and> (ao_TaskListName p = [] \<longrightarrow> ao_OriginalTaskListName p = []))"

text \<open>The two sums that validation computes in 32 bits do not wrap.\<close>

definition no_wrap :: "activityOptions \<Rightarrow> bool" where
  "no_wrap p = (ao_ScheduleToStartTimeoutSeconds p + ao_StartToCloseTimeoutSeconds p < 2 ^ 31
     \<and> (case ao_RetryPolicy p of None \<Rightarrow> True
        | Some r \<Rightarrow> 100 * get_int (trp_InitialIntervalInSeconds r) < 2 ^ 31))"

lemma wrap32_id: "0 \<le> x \<Longrightarrow> x < 2 ^ 31 \<Longrightarrow> wrap32 x = x"
  by (simp add: wrap32_def)

lemma validateRetryPolicy_wf:
  assumes "validateRetryPolicy (Some p) = (None, q)" "100 * get_int (trp_InitialIntervalInSeconds p) < 2 ^ 31"
  shows "\<exists>r. q = Some r \<and> wf_policy r"
  using assms
  by (auto simp: validateRetryPolicy_def Let_def wf_policy_def wrap32_id split: if_splits)

lemma validateRetryPolicy_fixpoint: "wf_policy p \<Longrightarrow> validateRetryPolicy (Some p) = (None, Some p)"
  by (auto simp: validateRetryPolicy_def wf_policy_def Let_def)

lemma getValidatedActivityOptions_fixpoint:
  assumes "wf_options p"
  shows "getValidatedActivityOptions (Some p) = (None, Some p)"
proof -
  have "validateRetryPolicy (ao_RetryPolicy p) = (None, ao_RetryPolicy p)"
    using assms validateRetryPolicy_fixpoint
    by (cases "ao_RetryPolicy p") (auto simp: wf_options_def validateRetryPolicy_def)
  then show ?thesis using assms by (auto simp: getValidatedActivityOptions_def wf_options_def Let_def)
qed

lemma getValidatedActivityOptions_wf:
  assumes "getValidatedActivityOptions (Some p) = (None, q)" "no_wrap p"
  shows "\<exists>r. q = Some r \<and> wf_options r"
proof (cases "ao_RetryPolicy p")
  case None
  with assms show ?thesis
    by (auto simp: getValidatedActivityOptions_def Let_def wf_options_def no_wrap_def wrap32_id
        validateRetryPolicy_def split: if_splits)
next
  case (Some r)
  obtain err r' where v: "validateRetryPolicy (Some r) = (err, r')" by fastforce
  with assms Some have "err = None"
    by (auto simp: getValidatedActivityOptions_def Let_def split: if_splits)
  with v validateRetryPolicy_wf [of r] assms(2) Some obtain s where "r' = Some s" "wf_policy s"
    by (auto simp: no_wrap_def)
  with assms Some v show ?thesis
    by (auto simp: getValidatedActivityOptions_def Let_def wf_options_def no_wrap_def wrap32_id
        split: if_splits)
qed

section \<open>Allowed retries\<close>

lemma backoff_allowed:
  assumes "getRetryBackoffWithNowTime pow ovf p attempt reason now expire = b" "0 < b"
  shows "0 < rp_MaximumInterval p \<Longrightarrow> b \<le> rp_MaximumInterval p"
    and "case expire of None \<Rightarrow> True | Some e \<Rightarrow> now + b \<le> e"
    and "reason \<notin> set (rp_NonRetriableErrorReasons p)"
    and "0 < rp_MaximumAttempts p \<Longrightarrow> attempt + 1 \<le> rp_MaximumAttempts p"
proof -
  define i where "i = toInt64 ovf (float64
      (float64 (of_int (rp_InitialInterval p)) * pow (rp_BackoffCoefficient p) (nat attempt)))"
  note b = assms [unfolded getRetryBackoffWithNowTime_def i_def [symmetric] noRetryBackoff_def Let_def]
  show "0 < rp_MaximumInterval p \<Longrightarrow> b \<le> rp_MaximumInterval p"
    and "case expire of None \<Rightarrow> True | Some e \<Rightarrow> now + b \<le> e"
    and "reason \<notin> set (rp_NonRetriableErrorReasons p)"
    and "0 < rp_MaximumAttempts p \<Longrightarrow> attempt + 1 \<le> rp_MaximumAttempts p"
    using b by (auto split: if_splits option.splits)
qed

text \<open>
  A failed local activity is retried locally only if its policy allows it: the backoff is
  positive, at most the decision timeout and the maximum interval, and ends before the
  expiration; cancellation and the listed reasons are never retried.
\<close>

lemma local_retry_within_policy:
  assumes "retryLocalActivity pow ovf dc isDeadline decisionTimeout lar now = Inr (RetryAfter b)"
  obtains p err reason where "lat_retryPolicy (lr_task lar) = Some p" "lr_err lar = Some err"
    "\<not> IsCanceledError err" "0 < b" "b \<le> decisionTimeout"
    "getRetryBackoffWithNowTime pow ovf p (lat_attempt (lr_task lar)) reason now (lat_expireTime (lr_task lar)) = b"
  using assms
  by (auto simp: retryLocalActivity_def getRetryBackoff_def split: option.splits if_splits sum.splits)

section \<open>Properties\<close>

text \<open>
  (C31) Options survive the context: for timeouts and intervals of whole seconds in the
  32-bit range, what \<open>GetActivityOptions\<close> reads back is what \<open>WithActivityOptions\<close> was
  given, whatever options the context held before; an unset backoff coefficient comes back
  as its default.
\<close>

theorem activity_options_round_trip:
  assumes "whole_options options"
  shows "GetActivityOptions (WithActivityOptions ovf options ctx) =
    Some (options\<lparr>RetryPolicyOption := map_option withDefaultCoefficient (RetryPolicyOption options)\<rparr>)"
proof -
  have "convertFromThriftRetryPolicy (convertRetryPolicy ovf (RetryPolicyOption options)) =
      map_option withDefaultCoefficient (RetryPolicyOption options)"
    using assms convertRetryPolicy_round_trip
    by (cases "RetryPolicyOption options")
      (auto simp: whole_options_def convertRetryPolicy_def [of _ None] convertFromThriftRetryPolicy_def [of None])
  then show ?thesis
    using assms by (cases options) (simp add: GetActivityOptions_RetryPolicy WithActivityOptions_def
        whole_options_def whole_seconds_ceil)
qed

definition ex_retry :: RetryPolicy where
  "ex_retry = \<lparr>rp_InitialInterval = 2 * Second, rp_BackoffCoefficient = 0, rp_MaximumInterval = 0,
     rp_ExpirationInterval = 0, rp_MaximumAttempts = 3, rp_NonRetriableErrorReasons = [''bad'']\<rparr>"

definition ex_options :: ActivityOptions where
  "ex_options = \<lparr>TaskListOption = ''tl'', ScheduleToCloseTimeout = 0, ScheduleToStartTimeout = 10 * Second,
     StartToCloseTimeout = 20 * Second, HeartbeatTimeout = 0, WaitForCancellation = True,
     ActivityIDOption = [], RetryPolicyOption = Some ex_retry\<rparr>"

theorem activity_options_round_trip_witness:
  "GetActivityOptions (WithActivityOptions 0 ex_options None) =
     Some (ex_options\<lparr>RetryPolicyOption := Some (ex_retry\<lparr>rp_BackoffCoefficient := 2\<rparr>)\<rparr>)"
  using activity_options_round_trip [of ex_options 0 None]
  by (simp add: ex_options_def ex_retry_def whole_options_def whole_policy_def whole_seconds_def Second_def
      withDefaultCoefficient_def DefaultBackoffCoefficient_def)

text \<open>
  (C32) Accepted options are complete and sound: when validation reports no error and its two
  32-bit sums do not wrap, the options then in the context have positive timeouts, a task
  list unless the workflow itself has none, and a retry policy with positive intervals, a
  coefficient of at least one and some limit; validating them again changes nothing.
\<close>

theorem validated_options_wellformed:
  assumes "getValidatedActivityOptions (Some p) = (None, q)" and "no_wrap p"
  shows "\<exists>r. q = Some r \<and> wf_options r \<and> getValidatedActivityOptions q = (None, q)"
  using getValidatedActivityOptions_wf [OF assms] getValidatedActivityOptions_fixpoint by blast

definition ex_params :: activityOptions where
  "ex_params = \<lparr>ao_ActivityID = None, ao_TaskListName = [], ao_TaskListKind = TaskListKindNormal,
     ao_ScheduleToCloseTimeoutSeconds = 0, ao_ScheduleToStartTimeoutSeconds = 10,
     ao_StartToCloseTimeoutSeconds = 20, ao_HeartbeatTimeoutSeconds = 0, ao_WaitForCancellation = True,
     ao_OriginalTaskListName = ''tl'', ao_RetryPolicy = Some \<lparr>trp_InitialIntervalInSeconds = Some 2,
       trp_BackoffCoefficient = Some 2, trp_MaximumIntervalInSeconds = None, trp_MaximumAttempts = Some 3,
       trp_NonRetriableErrorReasons = [], trp_ExpirationIntervalInSeconds = None\<rparr>\<rparr>"

theorem validated_options_wellformed_witness:
  "wf_options (the (snd (getValidatedActivityOptions (Some ex_params))))
   \<and> ao_ScheduleToCloseTimeoutSeconds (the (snd (getValidatedActivityOptions (Some ex_params)))) = 30"
proof -
  have run: "fst (getValidatedActivityOptions (Some ex_params)) = None \<and> no_wrap ex_params
    \<and> ao_ScheduleToCloseTimeoutSeconds (the (snd (getValidatedActivityOptions (Some ex_params)))) = 30"
    by code_simp
  then obtain q where q: "getValidatedActivityOptions (Some ex_params) = (None, q)" by (metis prod.collapse)
  with validated_options_wellformed [OF q] run show ?thesis by auto
qed

text \<open>Without the range condition the default wraps: these options are accepted, and the
  default schedule-to-close timeout of the activity is negative.\<close>

lemma validated_options_may_wrap:
  "case getValidatedActivityOptions (Some (ex_params\<lparr>ao_ScheduleToStartTimeoutSeconds := 2147483647\<rparr>)) of
     (err, q) \<Rightarrow> err = None \<and> ao_ScheduleToCloseTimeoutSeconds (the q) < 0"
  by code_simp

text \<open>
  (C33) How often a local activity is retried under a policy that is limited by its number of
  attempts alone: with a positive maximum number of attempts \<open>n\<close>, a maximum interval that is set
  and within the decision timeout, no reasons that exclude a retry and no expiration, a failure
  of any kind but cancellation is retried, after a backoff of at most that interval, exactly
  if its attempt number is below \<open>n\<close>.  Attempts are numbered from 0, so under such a policy an
  activity that keeps failing runs \<open>n + 1\<close> times.  Without the maximum interval there may be
  fewer retries: see the lemma at the end.
\<close>

theorem local_activity_retry_count:
  assumes "lat_retryPolicy (lr_task lar) = Some p" and "lr_err lar = Some err" and "\<not> IsCanceledError err"
    and "0 < rp_MaximumAttempts p" and "rp_NonRetriableErrorReasons p = []"
    and "lat_expireTime (lr_task lar) = None"
    and "0 < rp_MaximumInterval p" and "rp_MaximumInterval p \<le> decisionTimeout"
  shows "if lat_attempt (lr_task lar) < rp_MaximumAttempts p
    then \<exists>b. retryLocalActivity pow ovf dc isDeadline decisionTimeout lar now = Inr (RetryAfter b)
      \<and> 0 < b \<and> b \<le> rp_MaximumInterval p
      \<and> lat_attempt (fst (localRetryFires (\<lambda>i. True) (\<lambda>t. True) (lr_task lar))) = lat_attempt (lr_task lar) + 1
    else retryLocalActivity pow ovf dc isDeadline decisionTimeout lar now =
      Inr (ReportResult (lar\<lparr>lr_backoff := noRetryBackoff\<rparr>))"
proof -
  define b where "b = getRetryBackoffWithNowTime pow ovf p (lat_attempt (lr_task lar)) [] now None"
  have run: "retryLocalActivity pow ovf dc isDeadline decisionTimeout lar now =
      (if b > 0 \<and> b \<le> decisionTimeout then Inr (RetryAfter b) else Inr (ReportResult (lar\<lparr>lr_backoff := b\<rparr>)))"
    using assms by (simp add: retryLocalActivity_def getRetryBackoff_def b_def)
  have "if lat_attempt (lr_task lar) < rp_MaximumAttempts p
      then 0 < b \<and> b \<le> rp_MaximumInterval p else b = noRetryBackoff"
    using assms(4,5,7) by (simp add: b_def getRetryBackoffWithNowTime_def Let_def)
  with run assms(8) show ?thesis by (auto simp: localRetryFires_def noRetryBackoff_def Let_def)
qed

definition ex_la_result :: localActivityResult where
  "ex_la_result = \<lparr>lr_result = None, lr_err = Some (GenericError ''boom''), lr_task =
     \<lparr>lat_activityID = ''1'', lat_params = \<lparr>lap_ActivityType = ''la'', lap_RetryPolicy = None, lap_Attempt = 0,
        lap_ScheduledTime = 0, lap_Header = None\<rparr>, lat_callback = 0, lat_canceled = False, lat_attempt = 0,
      lat_retryPolicy = Some (ex_retry\<lparr>rp_MaximumAttempts := 1, rp_MaximumInterval := Second,
        rp_NonRetriableErrorReasons := []\<rparr>),
      lat_expireTime = None, lat_header = None\<rparr>, lr_backoff = 0\<rparr>"

theorem local_activity_retry_count_witness:
  "\<exists>b. retryLocalActivity (\<lambda>c n. c ^ n) 0 pairConverter False (10 * Second) ex_la_result 0 = Inr (RetryAfter b)"
  using local_activity_retry_count [of ex_la_result "ex_retry\<lparr>rp_MaximumAttempts := 1, rp_MaximumInterval := Second,
      rp_NonRetriableErrorReasons := []\<rparr>" "GenericError ''boom''" "10 * Second" "\<lambda>c n. c ^ n" 0 pairConverter False 0]
  by (auto simp: ex_la_result_def ex_retry_def IsCanceledError_def Second_def)

text \<open>
  The default of the backoff coefficient is set by \<open>convertRetryPolicy\<close>, which local activities
  do not go through: with the coefficient and the maximum interval left unset there is one
  retry at most, however many attempts the policy allows.
\<close>

lemma local_activity_default_coefficient:
  assumes "\<And>n. 0 < n \<Longrightarrow> pow 0 n = 0" "rp_BackoffCoefficient p = 0" "rp_MaximumInterval p = 0" "0 < attempt"
  shows "getRetryBackoffWithNowTime pow ovf p attempt reason now expire = noRetryBackoff"
  using assms by (simp add: getRetryBackoffWithNowTime_def Let_def toInt64_def)

end
