(* ===== verification/Workflow_Context.thy ===== *)
theory Workflow_Context
  imports Cadence_Errors
begin

text \<open>
  Workflow contexts, \<open>src/internal/context.go\<close>: chains of values and of cancellable
  contexts, and the propagation of cancellation from a context to the contexts derived from
  it.

  A context is an immutable chain; the mutable part of a \<open>cancelCtx\<close> is a cell of a heap,
  named by its index, and a \<open>canceler\<close> is such an index.  The locks make \<open>WithCancel\<close> and
  \<open>cancel\<close> steps.  The error of a cancellation is an error value, never nil, in all calls of
  the package.  Contexts of types defined elsewhere, which \<open>propagateCancel\<close> watches with a
  goroutine, are not modelled.
\<close>

section \<open>Contexts\<close>

datatype ('k, 'v) Context =
    emptyCtx
  | cancelCtx nat "('k, 'v) Context"
  | valueCtx "('k, 'v) Context" 'k 'v

record ('k, 'v) cancelCell =
  cc_Context :: "('k, 'v) Context"
  cc_done :: bool \<comment> \<open>the channel \<open>done\<close> is closed\<close>
  cc_canceled :: bool
  cc_children :: "nat list"
  cc_err :: "goError option"

type_synonym ('k, 'v) ctxs = "('k, 'v) cancelCell list"

definition Background :: "('k, 'v) Context" where
  "Background = emptyCtx"

definition WithValue :: "('k, 'v) Context \<Rightarrow> 'k \<Rightarrow> 'v \<Rightarrow> ('k, 'v) Context" where
  "WithValue parent key val = valueCtx parent key val"

fun Value :: "('k, 'v) Context \<Rightarrow> 'k \<Rightarrow> 'v option" where
  "Value emptyCtx key = None"
| "Value (cancelCtx i c) key = Value c key"
| "Value (valueCtx c k v) key = (if k = key then Some v else Value c key)"

text \<open>The channel of the context, by the context that owns it; \<open>None\<close> is a nil channel.\<close>

fun DoneOf :: "('k, 'v) Context \<Rightarrow> nat option" where
  "DoneOf emptyCtx = None"
| "DoneOf (cancelCtx i c) = Some i"
| "DoneOf (valueCtx c k v) = DoneOf c"

fun ErrOf :: "('k, 'v) ctxs \<Rightarrow> ('k, 'v) Context \<Rightarrow> goError option" where
  "ErrOf h emptyCtx = None"
| "ErrOf h (cancelCtx i c) = cc_err (h ! i)"
| "ErrOf h (valueCtx c k v) = ErrOf h c"

fun parentCancelCtx :: "('k, 'v) Context \<Rightarrow> nat option" where
  "parentCancelCtx (cancelCtx i c) = Some i"
| "parentCancelCtx (valueCtx c k v) = parentCancelCtx c"
| "parentCancelCtx emptyCtx = None"

section \<open>Cancellation\<close>

text \<open>
  Removing an element writes the later elements one place down in the array the slice shares;
  the slice that is returned is one shorter.  The caller keeps its own slice, of the old
  length, over the same array: \<open>sharedSlice\<close> is what it then sees.
\<close>

fun indexOf :: "nat list \<Rightarrow> nat \<Rightarrow> nat option" where
  "indexOf [] x = None"
| "indexOf (y # ys) x = (if y = x then Some 0 else map_option Suc (indexOf ys x))"

definition removeChildFromSlice :: "nat list \<Rightarrow> nat \<Rightarrow> nat list" where
  "removeChildFromSlice children child = (case indexOf children child of
      Some found \<Rightarrow> take found children @ drop (found + 1) children
    | None \<Rightarrow> children)"

definition sharedSlice :: "nat list \<Rightarrow> nat list \<Rightarrow> nat list" where
  "sharedSlice old written = written @ drop (length written) old"

definition removeChild :: "('k, 'v) Context \<Rightarrow> nat \<Rightarrow> ('k, 'v) ctxs \<Rightarrow> ('k, 'v) ctxs" where
  "removeChild parent child h = (case parentCancelCtx parent of
      None \<Rightarrow> h
    | Some p \<Rightarrow> let children = cc_children (h ! p) in
        h[p := (h ! p)\<lparr>cc_children := sharedSlice children (removeChildFromSlice children child)\<rparr>])"

text \<open>\<open>cancel\<close> and its loop over the children; \<open>None\<close> when the fuel is used up.\<close>

fun cancel :: "nat \<Rightarrow> nat \<Rightarrow> bool \<Rightarrow> goError \<Rightarrow> ('k, 'v) ctxs \<Rightarrow> ('k, 'v) ctxs option"
  and cancelEach :: "nat \<Rightarrow> nat list \<Rightarrow> goError \<Rightarrow> ('k, 'v) ctxs \<Rightarrow> ('k, 'v) ctxs option" where
  "cancel 0 c removeFromParent err h = None"
| "cancel (Suc fuel) c removeFromParent err h =
     (if cc_canceled (h ! c) then Some h
      else if cc_err (h ! c) \<noteq> None then Some (h[c := (h ! c)\<lparr>cc_canceled := True\<rparr>])
      else let h1 = h[c := (h ! c)\<lparr>cc_canceled := True, cc_err := Some err, cc_done := True\<rparr>] in
        case cancelEach fuel (cc_children (h1 ! c)) err h1 of
          None \<Rightarrow> None
        | Some h2 \<Rightarrow> let h3 = h2[c := (h2 ! c)\<lparr>cc_children := []\<rparr>] in
            Some (if removeFromParent then removeChild (cc_Context (h3 ! c)) c h3 else h3))"
| "cancelEach fuel [] err h = Some h"
| "cancelEach fuel (child # children) err h = (case cancel fuel child False err h of
      None \<Rightarrow> None
    | Some h' \<Rightarrow> cancelEach fuel children err h')"

definition cancelFunc :: "nat \<Rightarrow> ('k, 'v) ctxs \<Rightarrow> ('k, 'v) ctxs option" where
  "cancelFunc c h = cancel (Suc (length h)) c True ErrCanceled h"

definition newCancelCtx :: "('k, 'v) Context \<Rightarrow> ('k, 'v) ctxs \<Rightarrow> ('k, 'v) Context \<times> ('k, 'v) ctxs" where
  "newCancelCtx parent h = (cancelCtx (length h) parent,
     h @ [\<lparr>cc_Context = parent, cc_done = False, cc_canceled = False, cc_children = [], cc_err = None\<rparr>])"

definition propagateCancel :: "('k, 'v) Context \<Rightarrow> nat \<Rightarrow> ('k, 'v) ctxs \<Rightarrow> ('k, 'v) ctxs option" where
  "propagateCancel parent child h =
     (if DoneOf parent = None then Some h
      else case parentCancelCtx parent of
        Some p \<Rightarrow> (case cc_err (h ! p) of
            Some err \<Rightarrow> cancel (Suc (length h)) child False err h
          | None \<Rightarrow> Some (h[p := (h ! p)\<lparr>cc_children := cc_children (h ! p) @ [child]\<rparr>]))
      | None \<Rightarrow> Some h)"

definition WithCancel :: "('k, 'v) Context \<Rightarrow> ('k, 'v) ctxs \<Rightarrow> (('k, 'v) Context \<times> ('k, 'v) ctxs) option" where
  "WithCancel parent h = (case newCancelCtx parent h of
      (c, h1) \<Rightarrow> map_option (Pair c) (propagateCancel parent (length h) h1))"

definition NewDisconnectedContext ::
  "('k, 'v) Context \<Rightarrow> ('k, 'v) ctxs \<Rightarrow> ('k, 'v) Context \<times> ('k, 'v) ctxs" where
  "NewDisconnectedContext parent h = newCancelCtx parent h"

lemma DoneOf_parentCancelCtx: "DoneOf c = parentCancelCtx c"
  by (induction c) simp_all

section \<open>Runs\<close>

fun owners :: "('k, 'v) Context \<Rightarrow> nat set" where
  "owners emptyCtx = {}"
| "owners (cancelCtx i c) = insert i (owners c)"
| "owners (valueCtx c k v) = owners c"

text \<open>
  The states a workflow can bring about: contexts derived from contexts it holds, and calls
  of cancel functions.  \<open>C\<close> collects the contexts made by \<open>WithCancel\<close>, \<open>K\<close> those whose cancel
  function was called.
\<close>

inductive ctx_reachable :: "('k, 'v) ctxs \<Rightarrow> nat set \<Rightarrow> nat set \<Rightarrow> bool" where
  start: "ctx_reachable [] {} {}"
| with_cancel: "ctx_reachable h C K \<Longrightarrow> owners parent \<subseteq> {..<length h}
    \<Longrightarrow> WithCancel parent h = Some (c, h') \<Longrightarrow> ctx_reachable h' (insert (length h) C) K"
| disconnected: "ctx_reachable h C K \<Longrightarrow> owners parent \<subseteq> {..<length h}
    \<Longrightarrow> NewDisconnectedContext parent h = (c, h') \<Longrightarrow> ctx_reachable h' C K"
| cancelled: "ctx_reachable h C K \<Longrightarrow> c < length h \<Longrightarrow> cancelFunc c h = Some h'
    \<Longrightarrow> ctx_reachable h' C (insert c K)"

definition derived :: "('k, 'v) ctxs \<Rightarrow> nat set \<Rightarrow> (nat \<times> nat) set" where
  "derived h C = {(c, p). c < length h \<and> c \<in> C \<and> parentCancelCtx (cc_Context (h ! c)) = Some p}"

section \<open>What cancellation marks\<close>

text \<open>
  \<open>live_below h c\<close>: the live contexts reached from \<open>c\<close> along the lists of children without
  meeting a cancelled one.
\<close>

inductive live_below :: "('k, 'v) ctxs \<Rightarrow> nat \<Rightarrow> nat \<Rightarrow> bool" for h c where
  here: "\<not> cc_canceled (h ! c) \<Longrightarrow> live_below h c c"
| below: "live_below h c d \<Longrightarrow> e \<in> set (cc_children (h ! d)) \<Longrightarrow> \<not> cc_canceled (h ! e) \<Longrightarrow> live_below h c e"

lemma live_below_live: "live_below h c d \<Longrightarrow> \<not> cc_canceled (h ! c) \<and> \<not> cc_canceled (h ! d)"
  by (induction rule: live_below.induct) auto

lemma live_below_trans: "live_below h d e \<Longrightarrow> live_below h c d \<Longrightarrow> live_below h c e"
  by (induction rule: live_below.induct) (auto intro: live_below.intros)

definition cell_ok :: "nat \<Rightarrow> nat \<Rightarrow> ('k, 'v) cancelCell \<Rightarrow> bool" where
  "cell_ok n i cell = ((cc_canceled cell \<longleftrightarrow> cc_err cell \<noteq> None) \<and> (cc_done cell \<longleftrightarrow> cc_err cell \<noteq> None)
     \<and> set (cc_children cell) \<subseteq> {i<..<n})"

definition heap_ok :: "('k, 'v) ctxs \<Rightarrow> bool" where
  "heap_ok h = (\<forall>i < length h. cell_ok (length h) i (h ! i))"

text \<open>\<open>marked err h h' M\<close>: exactly the contexts in \<open>M\<close> became cancelled; the lists of children
  of the other contexts are as before.\<close>

definition cell_marked :: "goError \<Rightarrow> bool \<Rightarrow> ('k, 'v) cancelCell \<Rightarrow> ('k, 'v) cancelCell \<Rightarrow> bool" where
  "cell_marked err m old new = (cc_Context new = cc_Context old
     \<and> cc_err new = (if m then Some err else cc_err old) \<and> (\<not> m \<longrightarrow> cc_children new = cc_children old))"

definition marked :: "goError \<Rightarrow> ('k, 'v) ctxs \<Rightarrow> ('k, 'v) ctxs \<Rightarrow> nat set \<Rightarrow> bool" where
  "marked err h h' M = (length h' = length h \<and> heap_ok h'
     \<and> (\<forall>i < length h. cell_marked err (i \<in> M) (h ! i) (h' ! i)))"

lemma markedD:
  assumes "marked err h h' M" "i < length h"
  shows "cc_Context (h' ! i) = cc_Context (h ! i)"
    and "cc_err (h' ! i) = (if i \<in> M then Some err else cc_err (h ! i))"
    and "i \<notin> M \<Longrightarrow> cc_children (h' ! i) = cc_children (h ! i)"
  using assms by (simp_all add: marked_def cell_marked_def)

lemma marked_heap: "marked err h h' M \<Longrightarrow> heap_ok h' \<and> length h' = length h"
  by (simp add: marked_def)

lemma heap_ok_cell: "heap_ok h \<Longrightarrow> i < length h \<Longrightarrow> cell_ok (length h) i (h ! i)"
  by (simp add: heap_ok_def)

lemma heap_okD:
  assumes "heap_ok h" "i < length h"
  shows "cc_canceled (h ! i) \<longleftrightarrow> cc_err (h ! i) \<noteq> None" "cc_done (h ! i) \<longleftrightarrow> cc_err (h ! i) \<noteq> None"
    "j \<in> set (cc_children (h ! i)) \<Longrightarrow> i < j \<and> j < length h"
proof -
  from assms have "cell_ok (length h) i (h ! i)" by (rule heap_ok_cell)
  then show "cc_canceled (h ! i) \<longleftrightarrow> cc_err (h ! i) \<noteq> None" "cc_done (h ! i) \<longleftrightarrow> cc_err (h ! i) \<noteq> None"
    "j \<in> set (cc_children (h ! i)) \<Longrightarrow> i < j \<and> j < length h" by (auto simp: cell_ok_def)
qed

lemma heap_ok_update: "heap_ok h \<Longrightarrow> cell_ok (length h) c x \<Longrightarrow> heap_ok (h[c := x])"
  by (cases "c < length h") (simp_all add: heap_ok_def nth_list_update list_update_beyond)

lemma marked_refl: "heap_ok h \<Longrightarrow> marked err h h {}"
  by (simp add: marked_def cell_marked_def)

lemma marked_update:
  assumes "marked err h h' M" "cell_ok (length h) c x" "c < length h \<Longrightarrow> cell_marked err (c \<in> M) (h ! c) x"
  shows "marked err h (h'[c := x]) M"
  using assms
  by (cases "c < length h") (simp_all add: marked_def heap_ok_update nth_list_update list_update_beyond)

lemma marked_canceled:
  assumes "heap_ok h" "marked err h h' M" "i < length h"
  shows "cc_canceled (h' ! i) \<longleftrightarrow> i \<in> M \<or> cc_canceled (h ! i)"
proof -
  have "cc_canceled (h' ! i) \<longleftrightarrow> cc_err (h' ! i) \<noteq> None"
    using heap_okD(1) [of h' i] marked_heap [OF assms(2)] assms(3) by simp
  with heap_okD(1) [OF assms(1,3)] markedD(2) [OF assms(2,3)] show ?thesis by simp
qed

lemma marked_trans:
  assumes "marked err h h1 M" "marked err h1 h2 N"
  shows "marked err h h2 (M \<union> N)"
proof -
  have "cell_marked err (i \<in> M \<union> N) (h ! i) (h2 ! i)" if "i < length h" for i
    using markedD [OF assms(1) that] markedD [OF assms(2), of i] marked_heap [OF assms(1)] that
    by (simp add: cell_marked_def)
  with marked_heap [OF assms(1)] marked_heap [OF assms(2)] show ?thesis by (simp add: marked_def)
qed

lemma live_below_range:
  "live_below h c d \<Longrightarrow> heap_ok h \<Longrightarrow> c < length h \<Longrightarrow> c \<le> d \<and> d < length h"
proof (induction rule: live_below.induct)
  case (below d e)
  then show ?case using heap_okD(3) [of h d e] by simp
qed simp

text \<open>Marking a set closed under live children does not change what else is reached.\<close>

lemma live_below_after:
  assumes ok: "heap_ok h" and m: "marked err h h' M" and c: "c < length h"
    and closed: "\<And>d e. d \<in> M \<Longrightarrow> d < length h \<Longrightarrow> e \<in> set (cc_children (h ! d)) \<Longrightarrow> \<not> cc_canceled (h ! e) \<Longrightarrow> e \<in> M"
  shows "live_below h c d \<Longrightarrow> d \<in> M \<or> live_below h' c d"
    and "live_below h' c d \<Longrightarrow> live_below h c d"
proof -
  have ok': "heap_ok h'" and len: "length h' = length h" using marked_heap [OF m] by auto
  show "live_below h c d \<Longrightarrow> d \<in> M \<or> live_below h' c d"
  proof (induction rule: live_below.induct)
    case here
    then show ?case using marked_canceled [OF ok m c] live_below.here [of h' c] by blast
  next
    case (below d e)
    have d: "d < length h" using live_below_range [OF below.hyps(1) ok c] by simp
    have e: "e < length h" using heap_okD(3) [OF ok d below.hyps(2)] by simp
    show ?case
    proof (cases "d \<in> M")
      case True
      from closed [OF this d below.hyps(2,3)] show ?thesis ..
    next
      case False
      then have "live_below h' c d" "e \<in> set (cc_children (h' ! d))"
        using below.IH below.hyps(2) markedD(3) [OF m d] by simp_all
      then show ?thesis
        using marked_canceled [OF ok m e] below.hyps(3) live_below.below [of h' c d e] by blast
    qed
  qed
  show "live_below h' c d \<Longrightarrow> live_below h c d"
  proof (induction rule: live_below.induct)
    case here
    then show ?case using marked_canceled [OF ok m c] live_below.here [of h c] by blast
  next
    case (below d e)
    have d: "d < length h" using live_below_range [OF below.hyps(1) ok'] c len by simp
    have e: "e < length h" using heap_okD(3) [OF ok' _ below.hyps(2)] d len by simp
    have "d \<notin> M" using live_below_live [OF below.hyps(1)] marked_canceled [OF ok m d] by simp
    then have "e \<in> set (cc_children (h ! d))" using below.hyps(2) markedD(3) [OF m d] by simp
    then show ?case using below.IH marked_canceled [OF ok m e] below.hyps(3) live_below.below [of h c d e] by blast
  qed
qed

lemma live_below_mark:
  assumes ok: "heap_ok h" and c: "c < length h" and live: "\<not> cc_canceled (h ! c)"
    and h1: "h1 = h[c := (h ! c)\<lparr>cc_canceled := True, cc_err := Some err, cc_done := True\<rparr>]"
  shows "live_below h c d \<longleftrightarrow> d = c \<or> (\<exists>k \<in> set (cc_children (h ! c)). live_below h1 k d)"
proof
  have same: "cc_children (h1 ! i) = cc_children (h ! i)" "cc_canceled (h1 ! i) \<longleftrightarrow> i = c \<or> cc_canceled (h ! i)" for i
    using c by (cases "i = c"; simp add: h1)+
  show "d = c \<or> (\<exists>k \<in> set (cc_children (h ! c)). live_below h1 k d)" if "live_below h c d"
    using that
  proof (induction rule: live_below.induct)
    case (below d e)
    have d: "c \<le> d" "d < length h" using live_below_range [OF below.hyps(1) ok c] by simp_all
    then have "e \<noteq> c" using heap_okD(3) [OF ok d(2) below.hyps(2)] by simp
    then have e: "\<not> cc_canceled (h1 ! e)" using below.hyps(3) same by simp
    from below.IH show ?case
    proof
      assume "d = c"
      with below.hyps(2) e show ?thesis by (auto intro: live_below.here)
    next
      assume "\<exists>k \<in> set (cc_children (h ! c)). live_below h1 k d"
      with below.hyps(2) e show ?thesis by (metis live_below.below same(1))
    qed
  qed simp
  have down: "live_below h k d" if "live_below h1 k d" for k d
    using that by (induction rule: live_below.induct) (auto simp: same intro: live_below.intros)
  show "live_below h c d" if "d = c \<or> (\<exists>k \<in> set (cc_children (h ! c)). live_below h1 k d)"
    using that
  proof
    assume "\<exists>k \<in> set (cc_children (h ! c)). live_below h1 k d"
    then obtain k where k: "k \<in> set (cc_children (h ! c))" "live_below h k d" using down by blast
    then have "live_below h c k" using live live_below_live [OF k(2)] by (metis live_below.intros)
    with k show ?thesis by (metis live_below_trans)
  qed (simp add: live live_below.here)
qed

lemma cancelEach_marks:
  fixes h :: "('k, 'v) ctxs"
  assumes "\<And>(h :: ('k, 'v) ctxs) c. heap_ok h \<Longrightarrow> c < length h \<Longrightarrow> length h - c < fuel \<Longrightarrow>
      \<exists>h'. cancel fuel c False err h = Some h' \<and> marked err h h' {d. live_below h c d}"
    and "heap_ok h" "\<forall>k \<in> set ks. k < length h \<and> length h - k < fuel"
  shows "\<exists>h'. cancelEach fuel ks err h = Some h' \<and> marked err h h' {d. \<exists>k \<in> set ks. live_below h k d}"
  using assms(2,3)
proof (induction ks arbitrary: h)
  case Nil
  then show ?case by (simp add: marked_refl)
next
  case (Cons k ks)
  obtain h1 where h1: "cancel fuel k False err h = Some h1" "marked err h h1 {d. live_below h k d}"
    using assms(1) [of h k] Cons.prems by auto
  obtain h2 where h2: "cancelEach fuel ks err h1 = Some h2"
    "marked err h1 h2 {d. \<exists>k \<in> set ks. live_below h1 k d}"
    using Cons.IH [of h1] marked_heap [OF h1(2)] Cons.prems by auto
  have after: "k' \<in> set ks \<Longrightarrow> live_below h k' d \<Longrightarrow> live_below h k d \<or> live_below h1 k' d"
    "k' \<in> set ks \<Longrightarrow> live_below h1 k' d \<Longrightarrow> live_below h k' d" for k' d
    using live_below_after [OF Cons.prems(1) h1(2), of k' d] Cons.prems(2) live_below.below [of h k]
    by auto
  have "{d. live_below h k d} \<union> {d. \<exists>k \<in> set ks. live_below h1 k d} = {d. \<exists>k \<in> set (k # ks). live_below h k d}"
    using after by auto blast+
  with marked_trans [OF h1(2) h2(2)] h1(1) h2(1) show ?case by simp
qed

lemma marked_live:
  assumes "heap_ok h" "c < length h"
    and "h1 = h[c := (h ! c)\<lparr>cc_canceled := True, cc_err := Some err, cc_done := True\<rparr>]"
  shows "heap_ok h1" and "marked err h h1 {c}"
proof -
  have "cell_ok (length h) c (h ! c)" using assms by (simp add: heap_ok_def)
  then show ok: "heap_ok h1" using assms by (simp add: heap_ok_update cell_ok_def)
  then show "marked err h h1 {c}" using assms by (simp add: marked_def cell_marked_def nth_list_update)
qed

lemma marked_forget_children:
  assumes "marked err h h2 M" "c \<in> M" "c < length h"
  shows "marked err h (h2[c := (h2 ! c)\<lparr>cc_children := []\<rparr>]) M"
proof (rule marked_update [OF assms(1)])
  have "cell_ok (length h) c (h2 ! c)"
    using heap_ok_cell [of h2 c] marked_heap [OF assms(1)] assms(3) by simp
  then show "cell_ok (length h) c ((h2 ! c)\<lparr>cc_children := []\<rparr>)" by (simp add: cell_ok_def)
qed (use markedD [OF assms(1,3)] assms(2) in \<open>simp add: cell_marked_def\<close>)

lemma cancel_marks:
  "heap_ok h \<Longrightarrow> c < length h \<Longrightarrow> length h - c < fuel \<Longrightarrow>
     \<exists>h'. cancel fuel c False err h = Some h' \<and> marked err h h' {d. live_below h c d}"
proof (induction fuel arbitrary: c h)
  case (Suc fuel)
  show ?case
  proof (cases "cc_canceled (h ! c)")
    case True
    then have "{d. live_below h c d} = {}" using live_below_live by auto
    with True Suc.prems show ?thesis by (simp add: marked_refl)
  next
    case False
    then have live: "cc_err (h ! c) = None" using heap_okD(1) [OF Suc.prems(1,2)] by simp
    define h1 where "h1 = h[c := (h ! c)\<lparr>cc_canceled := True, cc_err := Some err, cc_done := True\<rparr>]"
    note ok1 = marked_live [OF Suc.prems(1,2) h1_def]
    have kids: "cc_children (h1 ! c) = cc_children (h ! c)" "length h1 = length h"
      using Suc.prems(2) by (simp_all add: h1_def)
    have "\<forall>k \<in> set (cc_children (h ! c)). k < length h1 \<and> length h1 - k < fuel"
    proof
      fix k assume "k \<in> set (cc_children (h ! c))"
      from heap_okD(3) [OF Suc.prems(1,2) this] Suc.prems(3) kids(2)
      show "k < length h1 \<and> length h1 - k < fuel" by auto
    qed
    from cancelEach_marks [OF Suc.IH ok1(1) this] obtain h2 where
      h2: "cancelEach fuel (cc_children (h ! c)) err h1 = Some h2"
        "marked err h1 h2 {d. \<exists>k \<in> set (cc_children (h ! c)). live_below h1 k d}" by blast
    have "{c} \<union> {d. \<exists>k \<in> set (cc_children (h ! c)). live_below h1 k d} = {d. live_below h c d}"
      unfolding live_below_mark [OF Suc.prems(1,2) False h1_def] by auto
    with marked_trans [OF ok1(2) h2(2)] have "marked err h h2 {d. live_below h c d}" by simp
    then have "marked err h (h2[c := (h2 ! c)\<lparr>cc_children := []\<rparr>]) {d. live_below h c d}"
      by (rule marked_forget_children) (simp_all add: False live_below.here Suc.prems)
    then show ?thesis using False live h2(1) kids(1) by (simp add: Let_def flip: h1_def)
  qed
qed simp

section \<open>Forgetting a child\<close>

lemma indexOf_found: "indexOf xs x = Some n \<Longrightarrow> n < length xs \<and> xs ! n = x"
  by (induction xs arbitrary: n) (auto split: if_splits)

lemma sharedSlice_removed:
  "set xs - {x} \<subseteq> set (sharedSlice xs (removeChildFromSlice xs x))"
  "set (sharedSlice xs (removeChildFromSlice xs x)) \<subseteq> set xs"
  "length (sharedSlice xs (removeChildFromSlice xs x)) = length xs"
proof -
  consider "indexOf xs x = None" | n where "indexOf xs x = Some n" by fastforce
  then have "set xs - {x} \<subseteq> set (sharedSlice xs (removeChildFromSlice xs x))
    \<and> set (sharedSlice xs (removeChildFromSlice xs x)) \<subseteq> set xs
    \<and> length (sharedSlice xs (removeChildFromSlice xs x)) = length xs"
  proof cases
    case 1
    then show ?thesis by (simp add: sharedSlice_def removeChildFromSlice_def)
  next
    case 2
    have n: "n < length xs" "xs ! n = x" using indexOf_found [OF 2] by simp_all
    have "set xs = set (take n xs @ x # drop (Suc n) xs)" using arg_cong [OF id_take_nth_drop [OF n(1)], of set] n(2) by simp
    then show ?thesis using n
      by (auto simp: sharedSlice_def removeChildFromSlice_def 2 dest: in_set_takeD in_set_dropD)
  qed
  then show "set xs - {x} \<subseteq> set (sharedSlice xs (removeChildFromSlice xs x))"
    "set (sharedSlice xs (removeChildFromSlice xs x)) \<subseteq> set xs"
    "length (sharedSlice xs (removeChildFromSlice xs x)) = length xs" by simp_all
qed

text \<open>\<open>cancelled h h' M c\<close>: like \<open>marked\<close>, except that \<open>c\<close> may be gone from a list of children.\<close>

definition cell_cancelled :: "nat \<Rightarrow> bool \<Rightarrow> ('k, 'v) cancelCell \<Rightarrow> ('k, 'v) cancelCell \<Rightarrow> bool" where
  "cell_cancelled c m old new = (cc_Context new = cc_Context old
     \<and> cc_err new = (if m then Some ErrCanceled else cc_err old)
     \<and> (\<not> m \<longrightarrow> set (cc_children old) - {c} \<subseteq> set (cc_children new) \<and> set (cc_children new) \<subseteq> set (cc_children old)))"

lemma cancel_removes:
  "cancel fuel c True err h = (case cancel fuel c False err h of
      None \<Rightarrow> None
    | Some h' \<Rightarrow> Some (if cc_canceled (h ! c) \<or> cc_err (h ! c) \<noteq> None then h'
        else removeChild (cc_Context (h' ! c)) c h'))"
  by (cases fuel) (auto simp: Let_def split: option.split)

lemma removeChild_cell:
  assumes "i < length h"
  shows "cc_Context (removeChild parent c h ! i) = cc_Context (h ! i)"
    "cc_err (removeChild parent c h ! i) = cc_err (h ! i)"
    "cc_canceled (removeChild parent c h ! i) = cc_canceled (h ! i)"
    "cc_done (removeChild parent c h ! i) = cc_done (h ! i)"
    "set (cc_children (removeChild parent c h ! i)) \<subseteq> set (cc_children (h ! i))"
    "set (cc_children (h ! i)) - {c} \<subseteq> set (cc_children (removeChild parent c h ! i))"
    "length (cc_children (removeChild parent c h ! i)) = length (cc_children (h ! i))"
proof -
  have "removeChild parent c h ! i = (if parentCancelCtx parent = Some i
      then (h ! i)\<lparr>cc_children := sharedSlice (cc_children (h ! i)) (removeChildFromSlice (cc_children (h ! i)) c)\<rparr>
      else h ! i)"
    using assms by (auto simp: removeChild_def Let_def split: option.split)
  then show "cc_Context (removeChild parent c h ! i) = cc_Context (h ! i)"
    "cc_err (removeChild parent c h ! i) = cc_err (h ! i)"
    "cc_canceled (removeChild parent c h ! i) = cc_canceled (h ! i)"
    "cc_done (removeChild parent c h ! i) = cc_done (h ! i)"
    "set (cc_children (removeChild parent c h ! i)) \<subseteq> set (cc_children (h ! i))"
    "set (cc_children (h ! i)) - {c} \<subseteq> set (cc_children (removeChild parent c h ! i))"
    "length (cc_children (removeChild parent c h ! i)) = length (cc_children (h ! i))"
    using sharedSlice_removed [where x = c and xs = "cc_children (h ! i)"] by auto
qed

lemma length_removeChild [simp]: "length (removeChild parent c h) = length h"
  by (simp add: removeChild_def Let_def split: option.split)

lemma heap_ok_removeChild: "heap_ok h \<Longrightarrow> heap_ok (removeChild parent c h)"
proof -
  assume ok: "heap_ok h"
  have "cell_ok (length h) i (removeChild parent c h ! i)" if "i < length h" for i
    using heap_ok_cell [OF ok that] removeChild_cell(2-5) [OF that, of parent c] by (auto simp: cell_ok_def)
  then show "heap_ok (removeChild parent c h)" by (simp add: heap_ok_def)
qed

lemma cancelFunc_marks:
  assumes "heap_ok h" "c < length h"
  obtains h' where "cancelFunc c h = Some h'" "length h' = length h" "heap_ok h'"
    "\<And>i. i < length h \<Longrightarrow> cell_cancelled c (live_below h c i) (h ! i) (h' ! i)"
proof -
  have "length h - c < Suc (length h)" by simp
  from cancel_marks [OF assms this] obtain h1 where
    h1: "cancel (Suc (length h)) c False ErrCanceled h = Some h1"
      "marked ErrCanceled h h1 {d. live_below h c d}" by blast
  define h' where "h' = (if cc_canceled (h ! c) \<or> cc_err (h ! c) \<noteq> None then h1
      else removeChild (cc_Context (h1 ! c)) c h1)"
  have len: "length h1 = length h" "heap_ok h1" using marked_heap [OF h1(2)] by simp_all
  show thesis
  proof (rule that)
    show "cancelFunc c h = Some h'" unfolding cancelFunc_def cancel_removes h1(1) h'_def by simp
    show "length h' = length h" "heap_ok h'" using len heap_ok_removeChild [OF len(2)] by (simp_all add: h'_def)
    show "cell_cancelled c (live_below h c i) (h ! i) (h' ! i)" if "i < length h" for i
      using markedD [OF h1(2) that] removeChild_cell [where i = i and h = h1 and c = c and parent = "cc_Context (h1 ! c)"] that len
      by (auto simp: cell_cancelled_def h'_def)
  qed
qed

section \<open>The invariant of runs\<close>

text \<open>
  The lists of children hold every live context derived from a live one; a context is
  cancelled exactly if the cancel function of one it derives from was called.
\<close>

definition ctx_inv :: "('k, 'v) ctxs \<Rightarrow> nat set \<Rightarrow> nat set \<Rightarrow> bool" where
  "ctx_inv h C K = (heap_ok h \<and> K \<subseteq> {..<length h} \<and> C \<subseteq> {..<length h}
     \<and> (\<forall>i < length h. owners (cc_Context (h ! i)) \<subseteq> {..<i}
        \<and> (cc_err (h ! i) = None \<longrightarrow> set (cc_children (h ! i)) \<subseteq> {c. (c, i) \<in> derived h C})
        \<and> cc_err (h ! i) = (if \<exists>j \<in> K. (i, j) \<in> (derived h C)\<^sup>* then Some ErrCanceled else None))
     \<and> (\<forall>(c, p) \<in> derived h C. cc_err (h ! c) = None \<longrightarrow> c \<in> set (cc_children (h ! p))))"

lemma parentCancelCtx_owner: "parentCancelCtx c = Some p \<Longrightarrow> p \<in> owners c"
  by (induction c) auto

lemma ctx_invD:
  assumes "ctx_inv h C K"
  shows "heap_ok h" "K \<subseteq> {..<length h}" "C \<subseteq> {..<length h}"
    "i < length h \<Longrightarrow> owners (cc_Context (h ! i)) \<subseteq> {..<i}"
    "i < length h \<Longrightarrow> cc_err (h ! i) = None \<Longrightarrow> c \<in> set (cc_children (h ! i)) \<Longrightarrow> (c, i) \<in> derived h C"
    "i < length h \<Longrightarrow>
      cc_err (h ! i) = (if \<exists>j \<in> K. (i, j) \<in> (derived h C)\<^sup>* then Some ErrCanceled else None)"
    "(c, p) \<in> derived h C \<Longrightarrow> cc_err (h ! c) = None \<Longrightarrow> c \<in> set (cc_children (h ! p))"
  using assms by (auto simp: ctx_inv_def)

lemma derived_range: "ctx_inv h C K \<Longrightarrow> (c, p) \<in> derived h C \<Longrightarrow> p < c \<and> c < length h"
  using ctx_invD(4) [of h C K c] parentCancelCtx_owner [of "cc_Context (h ! c)" p]
  by (auto simp: derived_def)

lemma derived_star_live:
  assumes inv: "ctx_inv h C K" and path: "(i, j) \<in> (derived h C)\<^sup>*" and i: "i < length h" "cc_err (h ! i) = None"
  shows "cc_err (h ! j) = None"
proof -
  have "j < length h" using path i by (induction rule: rtrancl_induct) (use derived_range [OF inv] in force)+
  then show ?thesis
    using ctx_invD(6) [OF inv i(1)] ctx_invD(6) [OF inv, of j] i(2) rtrancl_trans [OF path]
    by (auto split: if_splits)
qed

lemma live_below_derived:
  assumes inv: "ctx_inv h C K" and c: "c < length h"
  shows "live_below h c i \<longleftrightarrow> i < length h \<and> cc_err (h ! i) = None \<and> (i, c) \<in> (derived h C)\<^sup>*"
proof
  note ok = ctx_invD(1) [OF inv]
  show "live_below h c i \<Longrightarrow> i < length h \<and> cc_err (h ! i) = None \<and> (i, c) \<in> (derived h C)\<^sup>*"
  proof (induction rule: live_below.induct)
    case here
    then show ?case using c heap_okD(1) [OF ok c] by simp
  next
    case (below d e)
    then have d: "d < length h" by simp
    have "e < length h" using heap_okD(3) [OF ok d below.hyps(2)] by simp
    then show ?case
      using heap_okD(1) [OF ok, of e] below.hyps(3) ctx_invD(5) [OF inv d _ below.hyps(2)] below.IH
      by (simp add: converse_rtrancl_into_rtrancl)
  qed
  assume "i < length h \<and> cc_err (h ! i) = None \<and> (i, c) \<in> (derived h C)\<^sup>*"
  then have path: "(i, c) \<in> (derived h C)\<^sup>*" and i: "i < length h" "cc_err (h ! i) = None" by auto
  from path i show "live_below h c i"
  proof (induction rule: converse_rtrancl_induct)
    case base
    then show ?case using heap_okD(1) [OF ok c] by (simp add: live_below.here)
  next
    case (step y z)
    have z: "z < length h" "cc_err (h ! z) = None"
      using derived_range [OF inv step.hyps(1)] derived_star_live [OF inv r_into_rtrancl [OF step.hyps(1)] step.prems]
      by simp_all
    show ?case
      using live_below.below [OF step.IH [OF z], of y] ctx_invD(7) [OF inv step.hyps(1) step.prems(2)]
        heap_okD(1) [OF ok step.prems(1)] step.prems(2) by simp
  qed
qed

lemma derived_cong:
  assumes "length h' = length h" "\<And>i. i < length h \<Longrightarrow> cc_Context (h' ! i) = cc_Context (h ! i)"
  shows "derived h' C = derived h C"
  using assms by (auto simp: derived_def)

lemma ctx_inv_cancel:
  assumes inv: "ctx_inv h C K" and c: "c < length h" and run: "cancelFunc c h = Some h'"
  shows "ctx_inv h' C (insert c K)"
proof -
  obtain h'' where h'': "cancelFunc c h = Some h''" "length h'' = length h" "heap_ok h''"
    "\<And>i. i < length h \<Longrightarrow> cell_cancelled c (live_below h c i) (h ! i) (h'' ! i)"
    using cancelFunc_marks [OF ctx_invD(1) [OF inv] c] by metis
  with run have len: "length h' = length h" and ok: "heap_ok h'"
    and cell: "\<And>i. i < length h \<Longrightarrow> cell_cancelled c (live_below h c i) (h ! i) (h' ! i)" by auto
  have D: "derived h' C = derived h C" using cell by (intro derived_cong len) (simp add: cell_cancelled_def)
  have err: "cc_err (h' ! i) = (if \<exists>j \<in> insert c K. (i, j) \<in> (derived h C)\<^sup>* then Some ErrCanceled else None)"
    if "i < length h" for i
    using cell [OF that] ctx_invD(6) [OF inv that] live_below_derived [OF inv c, of i] that
    by (auto simp: cell_cancelled_def)
  have kids: "set (cc_children (h' ! i)) \<subseteq> {d. (d, i) \<in> derived h C}"
    if "i < length h" "cc_err (h' ! i) = None" for i
    using cell [OF that(1)] that ctx_invD(5) [OF inv that(1)] by (auto simp: cell_cancelled_def split: if_splits)
  have live: "d \<in> set (cc_children (h' ! p))" if d: "(d, p) \<in> derived h C" "cc_err (h' ! d) = None" for d p
  proof -
    have r: "d < length h" "p < length h" using derived_range [OF inv d(1)] by simp_all
    have unmarked: "\<not> live_below h c d" "cc_err (h ! d) = None"
      using cell [OF r(1)] d(2) by (auto simp: cell_cancelled_def split: if_splits)
    have "\<not> live_below h c p"
      using unmarked live_below_derived [OF inv c] r converse_rtrancl_into_rtrancl [OF d(1)] by auto
    moreover have "d \<noteq> c" using unmarked live_below_derived [OF inv c, of c] c by auto
    ultimately show ?thesis
      using cell [OF r(2)] ctx_invD(7) [OF inv d(1) unmarked(2)] by (auto simp: cell_cancelled_def)
  qed
  have own: "owners (cc_Context (h' ! i)) \<subseteq> {..<i}" if "i < length h" for i
    using cell [OF that] ctx_invD(4) [OF inv that] by (simp add: cell_cancelled_def)
  show ?thesis
    unfolding ctx_inv_def D len using ok err kids live own ctx_invD(2,3) [OF inv] c by auto
qed

lemma rtrancl_insert_fresh:
  assumes "\<And>x y. (x, y) \<in> r \<Longrightarrow> x \<noteq> n \<and> y \<noteq> n" "p \<noteq> n"
  shows "(i, j) \<in> (insert (n, p) r)\<^sup>* \<longleftrightarrow> (if i = n then j = n \<or> (p, j) \<in> r\<^sup>* else (i, j) \<in> r\<^sup>*)"
proof -
  have "(i, n) \<in> r\<^sup>* \<longleftrightarrow> i = n" using assms(1) by (metis rtranclE rtrancl.rtrancl_refl)
  moreover have "(n, j) \<in> r\<^sup>* \<longleftrightarrow> j = n" using assms(1) by (metis converse_rtranclE rtrancl.rtrancl_refl)
  ultimately show ?thesis by (auto simp: rtrancl_insert)
qed

definition newCell :: "('k, 'v) Context \<Rightarrow> ('k, 'v) cancelCell" where
  "newCell parent = \<lparr>cc_Context = parent, cc_done = False, cc_canceled = False, cc_children = [], cc_err = None\<rparr>"

lemma newCell_simps [simp]:
  "cc_Context (newCell parent) = parent" "cc_err (newCell parent) = None" "cc_children (newCell parent) = []"
  "cc_canceled (newCell parent) = False" "cc_done (newCell parent) = False"
  by (simp_all add: newCell_def)

lemma cell_ok_mono: "cell_ok n i cell \<Longrightarrow> n \<le> m \<Longrightarrow> cell_ok m i cell"
  unfolding cell_ok_def by force

lemma heap_ok_new:
  assumes "heap_ok h"
  shows "heap_ok (h @ [newCell parent])"
proof -
  have "cell_ok (Suc (length h)) i ((h @ [newCell parent]) ! i)" if "i < Suc (length h)" for i
  proof (cases "i < length h")
    case True
    with cell_ok_mono [OF heap_ok_cell [OF assms True]] show ?thesis by (simp add: nth_append)
  next
    case False
    with that have "i = length h" by simp
    then show ?thesis by (simp add: cell_ok_def)
  qed
  then show ?thesis by (simp add: heap_ok_def)
qed

lemma derived_new:
  assumes "C \<subseteq> {..<length h}"
  shows "derived (h @ [newCell parent]) C = derived h C"
    and "derived (h @ [newCell parent]) (insert (length h) C) =
      (case parentCancelCtx parent of None \<Rightarrow> derived h C | Some p \<Rightarrow> insert (length h, p) (derived h C))"
proof -
  let ?h = "h @ [newCell parent]"
  have old: "(c, p) \<in> derived ?h D \<longleftrightarrow> (c, p) \<in> derived h D" if "c \<noteq> length h" for c p D
    using that by (simp add: derived_def nth_append less_Suc_eq)
  have new: "(length h, p) \<in> derived ?h D \<longleftrightarrow> length h \<in> D \<and> parentCancelCtx parent = Some p" for p D
    by (simp add: derived_def)
  have "length h \<notin> C" using assms by auto
  have "(c, p) \<in> derived ?h C \<longleftrightarrow> (c, p) \<in> derived h C" for c p
    using old new \<open>length h \<notin> C\<close> by (cases "c = length h") (simp_all, simp add: derived_def)
  then show "derived ?h C = derived h C" by (auto intro: equalityI)
  have none: "(length h, p) \<notin> derived h D" for p D by (simp add: derived_def)
  have "(c, p) \<in> derived ?h (insert (length h) C) \<longleftrightarrow>
      (c, p) \<in> (case parentCancelCtx parent of None \<Rightarrow> derived h C | Some p \<Rightarrow> insert (length h, p) (derived h C))"
    for c p
  proof (cases "c = length h")
    case True
    then show ?thesis using new none by (cases "parentCancelCtx parent") auto
  next
    case False
    then show ?thesis using old by (cases "parentCancelCtx parent") (simp_all add: derived_def)
  qed
  then show "derived ?h (insert (length h) C) =
      (case parentCancelCtx parent of None \<Rightarrow> derived h C | Some p \<Rightarrow> insert (length h, p) (derived h C))"
    by (auto intro: equalityI)
qed

lemma ctx_invI:
  assumes "heap_ok h" "K \<subseteq> {..<length h}" "C \<subseteq> {..<length h}"
    and "\<And>i. i < length h \<Longrightarrow> owners (cc_Context (h ! i)) \<subseteq> {..<i}"
    and "\<And>i c. i < length h \<Longrightarrow> cc_err (h ! i) = None \<Longrightarrow> c \<in> set (cc_children (h ! i)) \<Longrightarrow> (c, i) \<in> derived h C"
    and "\<And>i. i < length h \<Longrightarrow>
      cc_err (h ! i) = (if \<exists>j \<in> K. (i, j) \<in> (derived h C)\<^sup>* then Some ErrCanceled else None)"
    and "\<And>c p. (c, p) \<in> derived h C \<Longrightarrow> cc_err (h ! c) = None \<Longrightarrow> c \<in> set (cc_children (h ! p))"
  shows "ctx_inv h C K"
  unfolding ctx_inv_def using assms by blast

lemma derived_star_new:
  assumes "ctx_inv h C K"
  shows "(length h, j) \<in> (derived h C)\<^sup>* \<longleftrightarrow> j = length h"
  using derived_range [OF assms] by (metis converse_rtranclE less_irrefl rtrancl.rtrancl_refl)

lemma ctx_inv_new:
  assumes inv: "ctx_inv h C K" and own: "owners parent \<subseteq> {..<length h}"
  shows "ctx_inv (h @ [newCell parent]) C K" (is "ctx_inv ?h C K")
proof (rule ctx_invI)
  note D = derived_new(1) [OF ctx_invD(3) [OF inv], of parent]
  have cells: "i < length ?h \<Longrightarrow> i < length h \<and> ?h ! i = h ! i \<or> i = length h \<and> ?h ! i = newCell parent" for i
    by (auto simp: nth_append less_Suc_eq)
  show "heap_ok ?h" by (rule heap_ok_new [OF ctx_invD(1) [OF inv]])
  show "K \<subseteq> {..<length ?h}" "C \<subseteq> {..<length ?h}" using ctx_invD(2,3) [OF inv] by auto
  show "owners (cc_Context (?h ! i)) \<subseteq> {..<i}" if "i < length ?h" for i
    using cells [OF that] ctx_invD(4) [OF inv, of i] own by auto
  show "(c, i) \<in> derived ?h C"
    if "i < length ?h" "cc_err (?h ! i) = None" "c \<in> set (cc_children (?h ! i))" for i c
    using cells [OF that(1)] that ctx_invD(5) [OF inv, of i c] unfolding D by auto
  show "cc_err (?h ! i) = (if \<exists>j \<in> K. (i, j) \<in> (derived ?h C)\<^sup>* then Some ErrCanceled else None)"
    if "i < length ?h" for i
    using cells [OF that] ctx_invD(6) [OF inv, of i] derived_star_new [OF inv] ctx_invD(2) [OF inv]
    unfolding D by auto
  show "c \<in> set (cc_children (?h ! p))" if "(c, p) \<in> derived ?h C" "cc_err (?h ! c) = None" for c p
    using that ctx_invD(7) [OF inv, of c p] derived_range [OF inv, of c p] unfolding D
    by (simp add: nth_append)
qed

text \<open>A context with a cancellable parent: it is linked to the parent, and shares its fate.\<close>

lemma ctx_inv_link:
  assumes inv: "ctx_inv h C K" and own: "owners parent \<subseteq> {..<length h}" and p: "parentCancelCtx parent = Some p"
    and len: "length h' = Suc (length h)" and ok: "heap_ok h'"
    and ctx: "\<And>i. i < Suc (length h) \<Longrightarrow> cc_Context (h' ! i) = cc_Context ((h @ [newCell parent]) ! i)"
    and err: "\<And>i. i < length h \<Longrightarrow> cc_err (h' ! i) = cc_err (h ! i)" "cc_err (h' ! length h) = cc_err (h ! p)"
    and kids: "\<And>i. i < length h \<Longrightarrow> set (cc_children (h' ! i)) =
        set (cc_children (h ! i)) \<union> (if i = p \<and> cc_err (h ! p) = None then {length h} else {})"
      "cc_children (h' ! length h) = []"
  shows "ctx_inv h' (insert (length h) C) K"
proof (rule ctx_invI)
  let ?n = "length h"
  have pn: "p < ?n" using parentCancelCtx_owner [OF p] own by auto
  have D: "derived h' (insert ?n C) = insert (?n, p) (derived h C)"
    using derived_cong [of h' "h @ [newCell parent]" "insert ?n C"] derived_new(2) [OF ctx_invD(3) [OF inv]] ctx len p
    by simp
  have star: "(i, j) \<in> (derived h' (insert ?n C))\<^sup>* \<longleftrightarrow>
      (if i = ?n then j = ?n \<or> (p, j) \<in> (derived h C)\<^sup>* else (i, j) \<in> (derived h C)\<^sup>*)" for i j
    unfolding D using derived_range [OF inv] pn by (intro rtrancl_insert_fresh) force+
  show "heap_ok h'" by (rule ok)
  show "K \<subseteq> {..<length h'}" "insert ?n C \<subseteq> {..<length h'}" using ctx_invD(2,3) [OF inv] len by auto
  show "owners (cc_Context (h' ! i)) \<subseteq> {..<i}" if "i < length h'" for i
    using ctx [of i] that len own ctx_invD(4) [OF inv, of i] by (cases "i < ?n") (simp_all add: nth_append less_Suc_eq)
  show "(c, i) \<in> derived h' (insert ?n C)"
    if "i < length h'" "cc_err (h' ! i) = None" "c \<in> set (cc_children (h' ! i))" for i c
    using that len kids err(1) ctx_invD(5) [OF inv, of i c] unfolding D
    by (cases "i < ?n") (auto simp: less_Suc_eq split: if_splits)
  show "cc_err (h' ! i) = (if \<exists>j \<in> K. (i, j) \<in> (derived h' (insert ?n C))\<^sup>* then Some ErrCanceled else None)"
    if "i < length h'" for i
  proof (cases "i = ?n")
    case True
    have "?n \<notin> K" using ctx_invD(2) [OF inv] by auto
    then have "(\<exists>j \<in> K. j = ?n \<or> (p, j) \<in> (derived h C)\<^sup>*) \<longleftrightarrow> (\<exists>j \<in> K. (p, j) \<in> (derived h C)\<^sup>*)" by auto
    then show ?thesis using True err(2) ctx_invD(6) [OF inv pn] by (simp add: star)
  next
    case False
    then show ?thesis using that len err(1) ctx_invD(6) [OF inv, of i] by (simp add: star)
  qed
  show "c \<in> set (cc_children (h' ! q))" if "(c, q) \<in> derived h' (insert ?n C)" "cc_err (h' ! c) = None" for c q
  proof (cases "c = ?n")
    case True
    then have "q = p" using that(1) derived_range [OF inv, of c q] unfolding D by auto
    then show ?thesis using True kids(1) [OF pn] err(2) that(2) by simp
  next
    case False
    then have "(c, q) \<in> derived h C" using that(1) unfolding D by simp
    then show ?thesis
      using derived_range [OF inv, of c q] ctx_invD(7) [OF inv, of c q] kids(1) [of q] err(1) [of c] that(2) by simp
  qed
qed

lemma WithCancel_inv:
  assumes inv: "ctx_inv h C K" and own: "owners parent \<subseteq> {..<length h}"
  obtains h' where "WithCancel parent h = Some (cancelCtx (length h) parent, h')" "ctx_inv h' (insert (length h) C) K"
proof -
  let ?n = "length h" and ?h = "h @ [newCell parent]"
  have new: "newCancelCtx parent h = (cancelCtx ?n parent, ?h)" by (simp add: newCancelCtx_def newCell_def)
  note ok = heap_ok_new [OF ctx_invD(1) [OF inv], of parent]
  show thesis
  proof (cases "parentCancelCtx parent")
    case None
    have "derived ?h (insert ?n C) = derived ?h C" using derived_new [OF ctx_invD(3) [OF inv], of parent] None by simp
    with ctx_inv_new [OF inv own] have "ctx_inv ?h (insert ?n C) K"
      by (simp add: ctx_inv_def)
    with None that show thesis by (simp add: WithCancel_def new propagateCancel_def DoneOf_parentCancelCtx)
  next
    case (Some p)
    then have p: "p < ?n" using parentCancelCtx_owner [OF Some] own by auto
    show thesis
    proof (cases "cc_err (h ! p)")
      case None
      let ?h' = "?h[p := (?h ! p)\<lparr>cc_children := cc_children (?h ! p) @ [?n]\<rparr>]"
      have "cell_ok (length ?h) p ((?h ! p)\<lparr>cc_children := cc_children (?h ! p) @ [?n]\<rparr>)"
        using heap_ok_cell [OF ok, of p] p by (simp add: cell_ok_def nth_append)
      then have "heap_ok ?h'" by (rule heap_ok_update [OF ok])
      then have "ctx_inv ?h' (insert ?n C) K"
        using p None by (intro ctx_inv_link [OF inv own Some]) (auto simp: nth_list_update nth_append)
      with that Some None p show thesis
        by (simp add: WithCancel_def new propagateCancel_def DoneOf_parentCancelCtx nth_append)
    next
      case (Some e)
      then have e: "e = ErrCanceled" using ctx_invD(6) [OF inv p] by (simp split: if_splits)
      let ?cell = "(newCell parent)\<lparr>cc_canceled := True, cc_err := Some e, cc_done := True\<rparr>"
      let ?h' = "h @ [?cell]"
      have "?h' = ?h[?n := ?cell]" by simp
      moreover have "cell_ok (length ?h) ?n ?cell" by (simp add: cell_ok_def)
      ultimately have "heap_ok ?h'" using heap_ok_update [OF ok] by metis
      then have "ctx_inv ?h' (insert ?n C) K"
        using p Some by (intro ctx_inv_link [OF inv own \<open>parentCancelCtx parent = Some p\<close>])
          (auto simp: nth_append less_Suc_eq)
      with that Some \<open>parentCancelCtx parent = Some p\<close> p show thesis
        by (simp add: WithCancel_def new propagateCancel_def DoneOf_parentCancelCtx nth_append newCell_def Let_def)
    qed
  qed
qed

lemma ctx_reachable_inv: "ctx_reachable h C K \<Longrightarrow> ctx_inv h C K"
proof (induction rule: ctx_reachable.induct)
  case start
  show ?case by (simp add: ctx_inv_def heap_ok_def derived_def)
next
  case (with_cancel h C K parent c h')
  then show ?case using WithCancel_inv [OF with_cancel.IH with_cancel.hyps(2)] by (metis option.inject prod.inject)
next
  case (disconnected h C K parent c h')
  then show ?case using ctx_inv_new [OF disconnected.IH disconnected.hyps(2)]
    by (simp add: NewDisconnectedContext_def newCancelCtx_def newCell_def)
next
  case (cancelled h C K c h')
  then show ?case by (rule_tac ctx_inv_cancel)
qed

section \<open>Properties\<close>

text \<open>
  (C34) Cancellation reaches exactly the derived contexts.  In every state a workflow can bring
  about, a context is done, with the cancellation error, exactly if the cancel function of
  the context itself or of one it derives from through \<open>WithCancel\<close> was called; a disconnected
  context stays live when its parent is cancelled.  Cancelling and deriving always return.
\<close>

theorem cancellation_reaches_derived:
  assumes "ctx_reachable h C K" and "i < length h" and "owners parent \<subseteq> {..<length h}"
  shows "cc_err (h ! i) = (if \<exists>j \<in> K. (i, j) \<in> (derived h C)\<^sup>* then Some ErrCanceled else None)
    \<and> (cc_done (h ! i) \<longleftrightarrow> cc_err (h ! i) \<noteq> None)
    \<and> cancelFunc i h \<noteq> None \<and> WithCancel parent h \<noteq> None"
proof -
  note inv = ctx_reachable_inv [OF assms(1)]
  obtain h1 where "WithCancel parent h = Some (cancelCtx (length h) parent, h1)"
    using WithCancel_inv [OF inv assms(3)] by metis
  moreover obtain h2 where "cancelFunc i h = Some h2"
    using cancelFunc_marks [OF ctx_invD(1) [OF inv] assms(2)] by metis
  ultimately show ?thesis
    using ctx_invD(6) [OF inv assms(2)] heap_okD(2) [OF ctx_invD(1) [OF inv] assms(2)] by simp
qed

text \<open>A context, one derived from it with a value, a disconnected one, and one derived from that.\<close>

definition ex_ctx :: "nat \<Rightarrow> (string, nat) Context" where
  "ex_ctx n = (if n = 0 then cancelCtx 0 Background
     else if n = 1 then cancelCtx 1 (WithValue (cancelCtx 0 Background) ''k'' 5)
     else cancelCtx 2 (cancelCtx 1 (WithValue (cancelCtx 0 Background) ''k'' 5)))"

definition ex_tree :: "(string, nat) ctxs" where
  "ex_tree = (let h1 = snd (the (WithCancel Background []));
       h2 = snd (the (WithCancel (WithValue (ex_ctx 0) ''k'' 5) h1));
       h3 = snd (NewDisconnectedContext (ex_ctx 1) h2)
     in snd (the (WithCancel (ex_ctx 2) h3)))"

lemma ctx_reachable_with_cancel:
  assumes "ctx_reachable h C K" "owners parent \<subseteq> {..<length h}"
  shows "ctx_reachable (snd (the (WithCancel parent h))) (insert (length h) C) K"
proof -
  obtain h' where "WithCancel parent h = Some (cancelCtx (length h) parent, h')"
    using WithCancel_inv [OF ctx_reachable_inv [OF assms(1)] assms(2)] by metis
  with ctx_reachable.with_cancel [OF assms this] show ?thesis by simp
qed

lemma ctx_reachable_disconnected:
  "ctx_reachable h C K \<Longrightarrow> owners parent \<subseteq> {..<length h} \<Longrightarrow>
    ctx_reachable (snd (NewDisconnectedContext parent h)) C K"
  by (erule ctx_reachable.disconnected) (simp_all add: NewDisconnectedContext_def newCancelCtx_def)

lemma ex_tree_reachable: "ctx_reachable ex_tree {3, 1, 0} {}"
proof -
  have len: "length (snd (the (WithCancel Background [] :: ((string, nat) Context \<times> (string, nat) ctxs) option))) = 1"
    "length (snd (the (WithCancel (WithValue (ex_ctx 0) ''k'' 5) (snd (the (WithCancel Background [])))))) = 2"
    "length (snd (NewDisconnectedContext (ex_ctx 1)
       (snd (the (WithCancel (WithValue (ex_ctx 0) ''k'' 5) (snd (the (WithCancel Background [])))))))) = 3"
    by code_simp+
  have own: "owners (Background :: (string, nat) Context) = {}" "owners (WithValue (ex_ctx 0) ''k'' 5) = {0}"
    "owners (ex_ctx 1) = {1, 0}" "owners (ex_ctx 2) = {2, 1, 0}"
    by (simp_all add: Background_def WithValue_def ex_ctx_def)
  let ?h1 = "snd (the (WithCancel Background [])) :: (string, nat) ctxs"
  have 1: "ctx_reachable ?h1 {0} {}"
    using ctx_reachable_with_cancel [OF ctx_reachable.start, where parent = "Background :: (string, nat) Context"] by (simp add: own)
  have 2: "ctx_reachable (snd (the (WithCancel (WithValue (ex_ctx 0) ''k'' 5) ?h1))) {1, 0} {}"
    using ctx_reachable_with_cancel [OF 1, of "WithValue (ex_ctx 0) ''k'' 5"] by (simp add: own len del: One_nat_def)
  have 3: "ctx_reachable (snd (NewDisconnectedContext (ex_ctx 1)
      (snd (the (WithCancel (WithValue (ex_ctx 0) ''k'' 5) ?h1))))) {1, 0} {}"
    by (rule ctx_reachable_disconnected [OF 2]) (simp add: own len del: One_nat_def)
  show ?thesis
    using ctx_reachable_with_cancel [OF 3, of "ex_ctx 2"] by (simp add: own len ex_tree_def Let_def del: One_nat_def)
qed

theorem cancellation_reaches_derived_witness:
  "(1, 0) \<in> (derived (the (cancelFunc 0 ex_tree)) {3, 1, 0})\<^sup>*
   \<and> (3, 0) \<notin> (derived (the (cancelFunc 0 ex_tree)) {3, 1, 0})\<^sup>*
   \<and> WithCancel (ex_ctx 1) (the (cancelFunc 0 ex_tree)) \<noteq> None"
proof -
  have run: "cancelFunc 0 ex_tree \<noteq> None \<and> length ex_tree = 4
      \<and> map cc_err (the (cancelFunc 0 ex_tree)) = [Some ErrCanceled, Some ErrCanceled, None, None]"
    by code_simp
  then obtain h where h: "cancelFunc 0 ex_tree = Some h" by auto
  have reach: "ctx_reachable h {3, 1, 0} {0}"
    using ctx_reachable.cancelled [OF ex_tree_reachable _ h] run by simp
  have errs: "length h = 4" "cc_err (h ! 1) = Some ErrCanceled" "cc_err (h ! 3) = None"
  proof -
    have m: "map cc_err h = [Some ErrCanceled, Some ErrCanceled, None, None]" using run h by simp
    show len: "length h = 4" using arg_cong [OF m, of length] by simp
    show "cc_err (h ! 1) = Some ErrCanceled" "cc_err (h ! 3) = None"
      using arg_cong [OF m, of "\<lambda>xs. xs ! 1"] arg_cong [OF m, of "\<lambda>xs. xs ! 3"] len by simp_all
  qed
  have own: "owners (ex_ctx 1) \<subseteq> {..<length h}"
    using errs(1) by (auto simp: ex_ctx_def WithValue_def Background_def)
  show ?thesis
    using cancellation_reaches_derived [OF reach, of 1 "ex_ctx 1"] cancellation_reaches_derived [OF reach, of 3 "ex_ctx 1"]
      errs own h by (simp split: if_splits)
qed

text \<open>
  \<open>removeChild\<close> drops the slice that \<open>removeChildFromSlice\<close> returns, so the parent keeps a slice of
  the old length: a cancelled context that was the last child stays referenced by its live
  parent.
\<close>

lemma cancelled_child_retained:
  "let h = the (cancelFunc 1 ex_tree) in cc_err (h ! 1) = Some ErrCanceled \<and> cc_err (h ! 0) = None
     \<and> cc_children (h ! 0) = [1]"
  by code_simp

end
