(* ===== verification/History_Batches.thy ===== *)
theory History_Batches
  imports Event_Handler
begin

text \<open>
  The history of a decision task, types \<open>history\<close> of \<open>src/internal/internal_task_handlers.go\<close>
  and \<open>historyIteratorImpl\<close> of \<open>src/internal/internal_task_pollers.go\<close>: events come in pages,
  are checked for gaps, and are handed out in batches that end with the start of a decision
  task; the starts of decision tasks that failed or timed out, and the events about them, are
  left out.

  The service is what it answers: the pages of the workflow's history, of which some may fail.
  A page token is the number of the page it asks for; a request without token asks for the
  first one.  Event numbers are unbounded integers.
\<close>

section \<open>Pages\<close>

datatype historyFailure = HistoryError string | HistoryPanic string

definition eventId :: "HistoryEvent \<Rightarrow> int" where
  "eventId e = get_int (ev_EventId e)"

record historyIteratorImpl =
  hi_service :: "(string + HistoryEvent list) list"
  hi_nextPageToken :: "nat option"
  hi_startedEventID :: int
  hi_maxEventID :: int

definition servedPage :: "(string + HistoryEvent list) list \<Rightarrow> nat option \<Rightarrow>
    string + HistoryEvent list \<times> nat option" where
  "servedPage pages token = (let k = (case token of None \<Rightarrow> 0 | Some k \<Rightarrow> k) in
     if k < length pages
     then case pages ! k of Inl err \<Rightarrow> Inl err
       | Inr events \<Rightarrow> Inr (events, if Suc k < length pages then Some (Suc k) else None)
     else Inr ([], None))"

definition shouldTruncateHistory :: "HistoryEvent list \<Rightarrow> int \<Rightarrow> bool" where
  "shouldTruncateHistory events maxEventID =
     (events \<noteq> [] \<and> maxEventID > 0 \<and> eventId (last events) > maxEventID)"

definition isQueryTask :: "int \<Rightarrow> bool" where
  "isQueryTask atDecisionTaskCompletedEventID = (atDecisionTaskCompletedEventID = 0)"

definition isDecisionTaskCompleted :: "HistoryEvent \<Rightarrow> bool" where
  "isDecisionTaskCompleted e = (case ev_EventType e of EventTypeDecisionTaskCompleted _ \<Rightarrow> True | _ \<Rightarrow> False)"

text \<open>Slicing \<open>Events[:n]\<close> beyond the length keeps within the capacity only by accident of the
  allocation; the code never asks for it when numbers are contiguous, and here it panics.\<close>

definition sliceTo :: "HistoryEvent list \<Rightarrow> int \<Rightarrow> HistoryEvent list option" where
  "sliceTo events n = (if 0 \<le> n \<and> n \<le> int (length events) then Some (take (nat n) events) else None)"

definition newGetHistoryPageFunc :: "(string + HistoryEvent list) list \<Rightarrow> int \<Rightarrow> int \<Rightarrow> nat option \<Rightarrow>
    historyFailure + HistoryEvent list \<times> nat option" where
  "newGetHistoryPageFunc service atDecisionTaskCompletedEventID maxEventID nextPageToken =
     (case servedPage service nextPageToken of
        Inl err \<Rightarrow> Inl (HistoryError err)
      | Inr (h, token) \<Rightarrow>
          if shouldTruncateHistory h atDecisionTaskCompletedEventID
          then case sliceTo h (atDecisionTaskCompletedEventID - eventId (hd h) + 1) of
              None \<Rightarrow> Inl (HistoryPanic ''slice bounds out of range'')
            | Some events \<Rightarrow> if events = [] then Inl (HistoryPanic ''index out of range'')
                else if \<not> isDecisionTaskCompleted (last events)
                then Inl (HistoryError (''newGetHistoryPageFunc: atDecisionTaskCompletedEventID(''
                  @ show_int atDecisionTaskCompletedEventID
                  @ '') points to event that is not DecisionTaskCompleted''))
                else Inr (events, None)
          else if shouldTruncateHistory h maxEventID \<and> isQueryTask atDecisionTaskCompletedEventID
          then case sliceTo h (maxEventID - eventId (hd h) + 1) of
              None \<Rightarrow> Inl (HistoryPanic ''slice bounds out of range'')
            | Some events \<Rightarrow> Inr (events, None)
          else Inr (h, token))"

definition GetNextPage :: "historyIteratorImpl \<Rightarrow>
    (historyFailure + HistoryEvent list) \<times> historyIteratorImpl" where
  "GetNextPage h = (case newGetHistoryPageFunc (hi_service h) (hi_startedEventID h) (hi_maxEventID h)
       (hi_nextPageToken h) of
      Inl err \<Rightarrow> (Inl err, h)
    | Inr (events, token) \<Rightarrow> (Inr events, h\<lparr>hi_nextPageToken := token\<rparr>))"

definition ResetIterator :: "historyIteratorImpl \<Rightarrow> historyIteratorImpl" where
  "ResetIterator h = h\<lparr>hi_nextPageToken := None\<rparr>"

definition HasNextPage :: "historyIteratorImpl \<Rightarrow> bool" where
  "HasNextPage h = (hi_nextPageToken h \<noteq> None)"

section \<open>The history of a task\<close>

record history =
  hs_events :: "HistoryEvent list" \<comment> \<open>\<open>workflowTask.task.History.Events\<close>\<close>
  hs_previousStartedEventId :: int \<comment> \<open>\<open>workflowTask.task.GetPreviousStartedEventId()\<close>\<close>
  hs_historyIterator :: "historyIteratorImpl option" \<comment> \<open>\<open>workflowTask.historyIterator\<close>\<close>
  hs_loadedEvents :: "HistoryEvent list"
  hs_currentIndex :: nat
  hs_nextEventID :: int
  hs_lastEventID :: int
  hs_next :: "HistoryEvent list option" \<comment> \<open>\<open>None\<close> is the nil slice\<close>
  hs_binaryChecksum :: "string option"

definition newHistory :: "HistoryEvent list \<Rightarrow> int \<Rightarrow> int \<Rightarrow> historyIteratorImpl option \<Rightarrow> history" where
  "newHistory events previousStarted started iterator = \<lparr>hs_events = events,
     hs_previousStartedEventId = previousStarted, hs_historyIterator = iterator,
     hs_loadedEvents = events, hs_currentIndex = 0,
     hs_nextEventID = (if length events > 0 then eventId (events ! 0) else 0),
     hs_lastEventID = started, hs_next = None, hs_binaryChecksum = None\<rparr>"

definition isStartedEvent :: "HistoryEvent \<Rightarrow> bool" where
  "isStartedEvent e = (case ev_EventType e of EventTypeWorkflowExecutionStarted _ \<Rightarrow> True | _ \<Rightarrow> False)"

definition GetWorkflowStartedEvent :: "history \<Rightarrow> string + HistoryEvent" where
  "GetWorkflowStartedEvent eh = (case hs_events eh of
      [] \<Rightarrow> Inl ''unable to find WorkflowExecutionStartedEventAttributes in the history''
    | e # _ \<Rightarrow> if isStartedEvent e then Inr e
        else Inl ''unable to find WorkflowExecutionStartedEventAttributes in the history'')"

definition isFullHistory :: "HistoryEvent list \<Rightarrow> bool" where
  "isFullHistory events = (case events of [] \<Rightarrow> False | e # _ \<Rightarrow> isStartedEvent e)"

definition isDecisionEvent :: "EventType \<Rightarrow> bool" where
  "isDecisionEvent t = (case t of
      EventTypeWorkflowExecutionCompleted _ \<Rightarrow> True
    | EventTypeWorkflowExecutionFailed _ \<Rightarrow> True
    | EventTypeWorkflowExecutionCanceled _ \<Rightarrow> True
    | EventTypeWorkflowExecutionContinuedAsNew _ \<Rightarrow> True
    | EventTypeActivityTaskScheduled _ \<Rightarrow> True
    | EventTypeActivityTaskCancelRequested _ \<Rightarrow> True
    | EventTypeTimerStarted _ _ \<Rightarrow> True
    | EventTypeTimerCanceled _ \<Rightarrow> True
    | EventTypeCancelTimerFailed _ \<Rightarrow> True
    | EventTypeMarkerRecorded _ \<Rightarrow> True
    | EventTypeStartChildWorkflowExecutionInitiated _ \<Rightarrow> True
    | EventTypeRequestCancelExternalWorkflowExecutionInitiated _ \<Rightarrow> True
    | EventTypeSignalExternalWorkflowExecutionInitiated _ \<Rightarrow> True
    | EventTypeUpsertWorkflowSearchAttributes _ \<Rightarrow> True
    | _ \<Rightarrow> False)"

definition IsReplayEvent :: "history \<Rightarrow> HistoryEvent \<Rightarrow> bool" where
  "IsReplayEvent eh event =
     (eventId event \<le> hs_previousStartedEventId eh \<or> isDecisionEvent (ev_EventType event))"

section \<open>Loading pages\<close>

definition hasMoreEvents :: "history \<Rightarrow> bool" where
  "hasMoreEvents eh = (case hs_historyIterator eh of None \<Rightarrow> False | Some it \<Rightarrow> HasNextPage it)"

text \<open>A nil iterator is dereferenced.\<close>

definition getMoreEvents :: "history \<Rightarrow> (historyFailure + HistoryEvent list) \<times> history" where
  "getMoreEvents eh = (case hs_historyIterator eh of
      None \<Rightarrow> (Inl (HistoryPanic ''nil pointer dereference''), eh)
    | Some it \<Rightarrow> (case GetNextPage it of (r, it') \<Rightarrow> (r, eh\<lparr>hs_historyIterator := Some it'\<rparr>)))"

definition loadMoreEvents :: "history \<Rightarrow> historyFailure option \<times> history" where
  "loadMoreEvents eh = (case getMoreEvents eh of
      (Inl err, eh) \<Rightarrow> (Some err, eh)
    | (Inr page, eh) \<Rightarrow> let eh = eh\<lparr>hs_loadedEvents := hs_loadedEvents eh @ page\<rparr> in
        (None, if hs_nextEventID eh = 0 \<and> length (hs_loadedEvents eh) > 0
           then eh\<lparr>hs_nextEventID := eventId (hs_loadedEvents eh ! 0)\<rparr> else eh))"

definition isFailedDecision :: "HistoryEvent \<Rightarrow> bool" where
  "isFailedDecision e = (case ev_EventType e of
      EventTypeDecisionTaskTimedOut \<Rightarrow> True | EventTypeDecisionTaskFailed _ \<Rightarrow> True | _ \<Rightarrow> False)"

text \<open>The checksum of a completed decision; its attributes are dereferenced.\<close>

definition decisionChecksum :: "HistoryEvent \<Rightarrow> historyFailure + string option" where
  "decisionChecksum e = (case ev_EventType e of
      EventTypeDecisionTaskCompleted None \<Rightarrow> Inl (HistoryPanic ''nil pointer dereference'')
    | EventTypeDecisionTaskCompleted (Some a) \<Rightarrow> Inr (dtc_BinaryChecksum a)
    | _ \<Rightarrow> Inr None)"

definition IsNextDecisionFailed :: "history \<Rightarrow> (historyFailure + bool \<times> string option) \<times> history" where
  "IsNextDecisionFailed eh = (let nextIndex = hs_currentIndex eh + 1 in
     case (if nextIndex \<ge> length (hs_loadedEvents eh) \<and> hasMoreEvents eh then loadMoreEvents eh else (None, eh)) of
       (Some err, eh) \<Rightarrow> (Inl err, eh)
     | (None, eh) \<Rightarrow> if nextIndex < length (hs_loadedEvents eh)
         then let nextEvent = hs_loadedEvents eh ! nextIndex in
           case decisionChecksum nextEvent of
             Inl panic \<Rightarrow> (Inl panic, eh)
           | Inr checksum \<Rightarrow> (Inr (isFailedDecision nextEvent, checksum), eh)
         else (Inr (False, None), eh))"

definition verifyAllEventsProcessed :: "history \<Rightarrow> historyFailure option" where
  "verifyAllEventsProcessed eh =
     (if hs_lastEventID eh > 0 \<and> hs_nextEventID eh \<le> hs_lastEventID eh
      then Some (HistoryError (''history_events: premature end of stream, expectedLastEventID=''
        @ show_int (hs_lastEventID eh)
        @ '' but no more events after eventID='' @ show_int (hs_nextEventID eh - 1)))
      else None)"

text \<open>What is left to read: every page that is loaded makes it smaller.\<close>

definition unread :: "historyIteratorImpl \<Rightarrow> nat" where
  "unread it = (case hi_nextPageToken it of None \<Rightarrow> 0
     | Some k \<Rightarrow> Suc (sum_list (map (\<lambda>p. case p of Inl _ \<Rightarrow> 1 | Inr es \<Rightarrow> Suc (length es)) (drop k (hi_service it)))))"

definition remaining :: "history \<Rightarrow> nat" where
  "remaining eh = length (hs_loadedEvents eh) - hs_currentIndex eh
     + (case hs_historyIterator eh of None \<Rightarrow> 0 | Some it \<Rightarrow> unread it)"

lemma page_shorter:
  assumes "newGetHistoryPageFunc service completedId maxId token = Inr (es, token')"
    and "servedPage service token = Inr (h, t)"
  shows "length es \<le> length h \<and> (token' = t \<or> token' = None)"
  using assms by (auto simp: newGetHistoryPageFunc_def sliceTo_def split: if_splits option.splits)

lemma GetNextPage_unread:
  assumes page: "GetNextPage it = (Inr es, it')" and more: "HasNextPage it"
  shows "unread it' + length es < unread it"
proof -
  obtain k where k: "hi_nextPageToken it = Some k" using more by (auto simp: HasNextPage_def)
  obtain token' where f: "newGetHistoryPageFunc (hi_service it) (hi_startedEventID it) (hi_maxEventID it)
      (Some k) = Inr (es, token')" and it': "it' = it\<lparr>hi_nextPageToken := token'\<rparr>"
    using page by (auto simp: GetNextPage_def k split: sum.splits prod.splits)
  obtain h t where s: "servedPage (hi_service it) (Some k) = Inr (h, t)"
    using f by (auto simp: newGetHistoryPageFunc_def split: sum.splits)
  have len: "length es \<le> length h" and token': "token' = t \<or> token' = None"
    using page_shorter [OF f s] by simp_all
  show ?thesis
  proof (cases "k < length (hi_service it)")
    case True
    then have "hi_service it ! k = Inr h" "t = (if Suc k < length (hi_service it) then Some (Suc k) else None)"
      using s by (auto simp: servedPage_def split: sum.splits)
    with True len token' show ?thesis
      by (auto simp: unread_def it' k Cons_nth_drop_Suc [symmetric] split: if_splits)
  next
    case False
    with s len token' show ?thesis by (auto simp: servedPage_def unread_def it' k)
  qed
qed

lemma loadMoreEvents_more:
  assumes "loadMoreEvents eh = (None, eh')" and "hasMoreEvents eh"
  obtains it es it' where "hs_historyIterator eh = Some it" "GetNextPage it = (Inr es, it')" "HasNextPage it"
    "hs_loadedEvents eh' = hs_loadedEvents eh @ es" "hs_historyIterator eh' = Some it'"
    "hs_currentIndex eh' = hs_currentIndex eh" "hs_lastEventID eh' = hs_lastEventID eh"
    "hs_nextEventID eh \<noteq> 0 \<longrightarrow> hs_nextEventID eh' = hs_nextEventID eh"
  using assms by (auto simp: loadMoreEvents_def getMoreEvents_def hasMoreEvents_def Let_def
      split: option.splits sum.splits prod.splits if_splits)

lemma remaining_load:
  assumes "loadMoreEvents eh = (None, eh')" and "hasMoreEvents eh"
  shows "remaining eh' < remaining eh"
proof -
  obtain it es it' where h: "hs_historyIterator eh = Some it" "GetNextPage it = (Inr es, it')" "HasNextPage it"
    "hs_loadedEvents eh' = hs_loadedEvents eh @ es" "hs_historyIterator eh' = Some it'"
    "hs_currentIndex eh' = hs_currentIndex eh"
    using loadMoreEvents_more [OF assms] by metis
  show ?thesis using GetNextPage_unread [OF h(2,3)] h by (simp add: remaining_def)
qed

section \<open>Batches\<close>

definition isPreloadMarkerEvent :: "HistoryEvent \<Rightarrow> bool" where
  "isPreloadMarkerEvent e = (case ev_EventType e of EventTypeMarkerRecorded _ \<Rightarrow> True | _ \<Rightarrow> False)"

definition isSkippedEvent :: "HistoryEvent \<Rightarrow> bool" where
  "isSkippedEvent e = (case ev_EventType e of
      EventTypeDecisionTaskScheduled \<Rightarrow> True
    | EventTypeDecisionTaskTimedOut \<Rightarrow> True
    | EventTypeDecisionTaskFailed _ \<Rightarrow> True
    | _ \<Rightarrow> False)"

text \<open>The inner loop loads pages until there is a current event; \<open>Inr False\<close> is the end of the
  history.\<close>

function loadCurrent :: "history \<Rightarrow> (historyFailure + bool) \<times> history" where
  "loadCurrent eh =
     (if hs_currentIndex eh \<noteq> length (hs_loadedEvents eh) then (Inr True, eh)
      else if \<not> hasMoreEvents eh then (case verifyAllEventsProcessed eh of
          Some err \<Rightarrow> (Inl err, eh)
        | None \<Rightarrow> (Inr False, eh))
      else case loadMoreEvents eh of
          (Some err, eh) \<Rightarrow> (Inl err, eh)
        | (None, eh) \<Rightarrow> loadCurrent eh)"
  by pat_completeness auto
termination by (relation "measure remaining") (auto simp: remaining_load)

declare loadCurrent.simps [simp del]

lemma remaining_failed: "loadMoreEvents eh = (Some err, eh') \<Longrightarrow> remaining eh' = remaining eh"
  by (auto simp: loadMoreEvents_def getMoreEvents_def GetNextPage_def remaining_def Let_def
      split: option.splits sum.splits prod.splits if_splits)

lemma loadCurrent_induct [case_names round]:
  assumes "\<And>eh. (\<And>eh1. hs_currentIndex eh = length (hs_loadedEvents eh) \<Longrightarrow> hasMoreEvents eh \<Longrightarrow>
      loadMoreEvents eh = (None, eh1) \<Longrightarrow> P eh1) \<Longrightarrow> P eh"
  shows "P eh"
  by (rule loadCurrent.induct, rule assms) auto

lemma loadCurrent_cases:
  assumes "loadCurrent eh = (r, eh')"
  obtains (here) "hs_currentIndex eh \<noteq> length (hs_loadedEvents eh)" "r = Inr True" "eh' = eh"
  | (finish) "hs_currentIndex eh = length (hs_loadedEvents eh)" "\<not> hasMoreEvents eh" "r \<noteq> Inr True" "eh' = eh"
  | (failed) err where "loadMoreEvents eh = (Some err, eh')" "r = Inl err"
  | (more) eh1 where "hs_currentIndex eh = length (hs_loadedEvents eh)" "hasMoreEvents eh"
      "loadMoreEvents eh = (None, eh1)" "loadCurrent eh1 = (r, eh')"
  using assms by (subst (asm) loadCurrent.simps) (auto split: if_splits option.splits prod.splits)

lemma remaining_loadCurrent: "loadCurrent eh = (r, eh') \<Longrightarrow> remaining eh' \<le> remaining eh"
proof (induction eh rule: loadCurrent_induct)
  case (round eh)
  from round(2) show ?case
  proof (cases rule: loadCurrent_cases)
    case (more eh1)
    then show ?thesis using round(1) [OF more(1-3)] remaining_load [OF more(3,2)] by simp
  qed (simp_all add: remaining_failed)
qed

lemma loadCurrent_index:
  "loadCurrent eh = (Inr True, eh') \<Longrightarrow> hs_currentIndex eh' \<noteq> length (hs_loadedEvents eh')"
proof (induction eh rule: loadCurrent_induct)
  case (round eh)
  from round(2) show ?case
    by (cases rule: loadCurrent_cases) (use round(1) in auto)
qed

definition advance :: "history \<Rightarrow> history" where
  "advance eh = eh\<lparr>hs_currentIndex := hs_currentIndex eh + 1\<rparr>"

definition missingEvents :: "int \<Rightarrow> int \<Rightarrow> historyFailure" where
  "missingEvents expectedID receivedID = HistoryError (''missing history events, expectedNextEventID=''
     @ show_int expectedID @ '' but receivedNextEventID='' @ show_int receivedID)"

lemma IsNextDecisionFailed_remaining:
  assumes "IsNextDecisionFailed eh = (Inr r, eh')"
  shows "remaining eh' \<le> remaining eh" "hs_currentIndex eh' = hs_currentIndex eh"
    "length (hs_loadedEvents eh) \<le> length (hs_loadedEvents eh')"
proof -
  have "eh' = eh \<or> hasMoreEvents eh \<and> loadMoreEvents eh = (None, eh')"
    using assms by (auto simp: IsNextDecisionFailed_def Let_def split: if_splits option.splits sum.splits prod.splits)
  then show "remaining eh' \<le> remaining eh" "hs_currentIndex eh' = hs_currentIndex eh"
    "length (hs_loadedEvents eh) \<le> length (hs_loadedEvents eh')"
    using remaining_load [of eh eh'] by (auto elim: loadMoreEvents_more)
qed

lemma remaining_advance:
  "hs_currentIndex eh < length (hs_loadedEvents eh) \<Longrightarrow> remaining (advance eh) < remaining eh"
  by (simp add: remaining_def advance_def)

lemma remaining_nextEventID [simp]: "remaining (eh\<lparr>hs_nextEventID := n\<rparr>) = remaining eh"
  by (simp add: remaining_def)

lemma round_remaining:
  assumes load: "(Inr True, eh1) = loadCurrent eh" and "\<not> length (hs_loadedEvents eh1) < hs_currentIndex eh1"
  shows "remaining (advance (eh1\<lparr>hs_nextEventID := n\<rparr>)) < remaining eh"
    and "(Inr r, eh2) = IsNextDecisionFailed (eh1\<lparr>hs_nextEventID := n\<rparr>) \<Longrightarrow> remaining (advance eh2) < remaining eh"
proof -
  have i: "hs_currentIndex eh1 < length (hs_loadedEvents eh1)"
    using loadCurrent_index [OF load [symmetric]] assms(2) by simp
  show "remaining (advance (eh1\<lparr>hs_nextEventID := n\<rparr>)) < remaining eh"
    using remaining_advance [of "eh1\<lparr>hs_nextEventID := n\<rparr>"] remaining_loadCurrent [OF load [symmetric]] i by simp
  assume n: "(Inr r, eh2) = IsNextDecisionFailed (eh1\<lparr>hs_nextEventID := n\<rparr>)"
  show "remaining (advance eh2) < remaining eh"
    using remaining_advance [of eh2] remaining_loadCurrent [OF load [symmetric]] i
      IsNextDecisionFailed_remaining [OF n [symmetric]] by simp
qed

text \<open>The loop \<open>OrderEvents\<close>, from its head; the batch and the markers so far are arguments.\<close>

function orderEvents :: "history \<Rightarrow> HistoryEvent list \<Rightarrow> HistoryEvent list \<Rightarrow>
    (historyFailure option \<times> HistoryEvent list \<times> HistoryEvent list) \<times> history" where
  "orderEvents eh nextEvents markers = (case loadCurrent eh of
      (Inl err, eh) \<Rightarrow> ((Some err, nextEvents, markers), eh)
    | (Inr False, eh) \<Rightarrow> ((None, nextEvents, markers), eh)
    | (Inr True, eh) \<Rightarrow>
        if hs_currentIndex eh > length (hs_loadedEvents eh)
        then ((Some (HistoryPanic ''index out of range''), nextEvents, markers), eh)
        else let event = hs_loadedEvents eh ! hs_currentIndex eh; eventID = eventId event in
        if eventID \<noteq> hs_nextEventID eh
        then ((Some (missingEvents (hs_nextEventID eh) eventID), nextEvents, markers), eh)
        else let eh = eh\<lparr>hs_nextEventID := hs_nextEventID eh + 1\<rparr> in
          if isDecisionTaskStarted event
          then case IsNextDecisionFailed eh of
              (Inl err, eh) \<Rightarrow> ((Some err, nextEvents, markers), eh)
            | (Inr (isFailed, binaryChecksum), eh) \<Rightarrow>
                if \<not> isFailed
                then ((None, nextEvents @ [event], markers), advance (eh\<lparr>hs_binaryChecksum := binaryChecksum\<rparr>))
                else orderEvents (advance eh) nextEvents markers
          else if isSkippedEvent event then orderEvents (advance eh) nextEvents markers
          else orderEvents (advance eh) (nextEvents @ [event])
            (if isPreloadMarkerEvent event then markers @ [event] else markers))"
  by pat_completeness auto

termination
  by (relation "measure (\<lambda>(eh, _, _). remaining eh)") (auto intro: round_remaining)

declare orderEvents.simps [simp del]

definition shrinkLoaded :: "history \<Rightarrow> history" where
  "shrinkLoaded eh = eh\<lparr>hs_loadedEvents := drop (hs_currentIndex eh) (hs_loadedEvents eh), hs_currentIndex := 0\<rparr>"

definition sliceOf :: "'a list \<Rightarrow> 'a list option" where
  "sliceOf xs = (if xs = [] then None else Some xs)"

text \<open>The slices the code returns start as nil.\<close>

definition nextDecisionEvents :: "history \<Rightarrow>
    (historyFailure option \<times> HistoryEvent list option \<times> HistoryEvent list option) \<times> history" where
  "nextDecisionEvents eh =
     (if hs_currentIndex eh = length (hs_loadedEvents eh) \<and> \<not> hasMoreEvents eh
      then case verifyAllEventsProcessed eh of
          Some err \<Rightarrow> ((Some err, None, None), eh)
        | None \<Rightarrow> ((None, Some [], Some []), eh)
      else case orderEvents eh [] [] of
          ((Some err, nextEvents, markers), eh) \<Rightarrow> ((Some err, sliceOf nextEvents, sliceOf markers), eh)
        | ((None, nextEvents, markers), eh) \<Rightarrow> ((None, sliceOf nextEvents, sliceOf markers), shrinkLoaded eh))"

record decisionEvents =
  de_result :: "HistoryEvent list"
  de_markers :: "HistoryEvent list"
  de_binaryChecksum :: "string option"
  de_err :: "historyFailure option"

definition elements :: "'a list option \<Rightarrow> 'a list" where
  "elements s = (case s of None \<Rightarrow> [] | Some xs \<Rightarrow> xs)"

definition NextDecisionEvents :: "history \<Rightarrow> decisionEvents \<times> history" where
  "NextDecisionEvents eh = (case (if hs_next eh = None
       then case nextDecisionEvents eh of ((err, nextEvents, _), eh) \<Rightarrow> (err, eh\<lparr>hs_next := nextEvents\<rparr>)
       else (None, eh)) of
      (Some err, eh) \<Rightarrow> (\<lparr>de_result = [], de_markers = [], de_binaryChecksum = hs_binaryChecksum eh,
        de_err = Some err\<rparr>, eh)
    | (None, eh) \<Rightarrow> let result = elements (hs_next eh); checksum = hs_binaryChecksum eh in
        if length result > 0
        then case nextDecisionEvents eh of ((err, nextEvents, markers), eh) \<Rightarrow>
          (\<lparr>de_result = result, de_markers = elements markers, de_binaryChecksum = checksum, de_err = err\<rparr>,
           eh\<lparr>hs_next := nextEvents\<rparr>)
        else (\<lparr>de_result = result, de_markers = [], de_binaryChecksum = checksum, de_err = None\<rparr>, eh))"

definition HasNextDecisionEvents :: "history \<Rightarrow> bool" where
  "HasNextDecisionEvents eh = (length (elements (hs_next eh)) \<noteq> 0 \<or>
     hs_currentIndex eh \<noteq> length (hs_loadedEvents eh) \<or> hasMoreEvents eh)"

section \<open>Batches of a stream\<close>

text \<open>
  The reference works on the whole list of events that are still to come, without pages: a
  batch ends with the start of a decision task that is not followed by its failure.
\<close>

definition followedByFailure :: "HistoryEvent list \<Rightarrow> bool" where
  "followedByFailure es = (case es of [] \<Rightarrow> False | e # _ \<Rightarrow> isFailedDecision e)"

definition leftOut :: "HistoryEvent \<Rightarrow> HistoryEvent list \<Rightarrow> bool" where
  "leftOut e es = (isSkippedEvent e \<or> isDecisionTaskStarted e \<and> followedByFailure es)"

fun decisionBatch :: "HistoryEvent list \<Rightarrow> HistoryEvent list \<times> HistoryEvent list" where
  "decisionBatch [] = ([], [])"
| "decisionBatch (e # es) =
     (if leftOut e es then decisionBatch es
      else if isDecisionTaskStarted e then ([e], es)
      else case decisionBatch es of (b, rest) \<Rightarrow> (e # b, rest))"

lemma decisionBatch_shorter: "length (snd (decisionBatch es)) \<le> length es"
  by (induction es) (auto split: prod.splits)

function decisionBatches :: "HistoryEvent list \<Rightarrow> HistoryEvent list list" where
  "decisionBatches [] = []"
| "decisionBatches (e # es) = (case decisionBatch (e # es) of (b, rest) \<Rightarrow>
     if b = [] then [] else b # decisionBatches rest)"
  by pat_completeness auto
termination
proof (relation "measure length")
  fix e and es b rest :: "HistoryEvent list"
  assume b: "(b, rest) = decisionBatch (e # es)" and "b \<noteq> []"
  show "(rest, e # es) \<in> measure length"
    using decisionBatch_shorter [of es] b [symmetric] by (auto split: if_splits prod.splits)
qed simp

fun survivors :: "HistoryEvent list \<Rightarrow> HistoryEvent list" where
  "survivors [] = []"
| "survivors (e # es) = (if leftOut e es then survivors es else e # survivors es)"

lemma decisionBatch_survivors: "survivors es = fst (decisionBatch es) @ survivors (snd (decisionBatch es))"
  by (induction es rule: decisionBatch.induct) (auto split: prod.splits)

lemma decisionBatch_empty: "fst (decisionBatch es) = [] \<Longrightarrow> snd (decisionBatch es) = []"
  by (induction es rule: decisionBatch.induct) (auto split: prod.splits if_splits)

lemma decisionBatches_cases:
  "decisionBatches es = (if fst (decisionBatch es) = [] then []
     else fst (decisionBatch es) # decisionBatches (snd (decisionBatch es)))"
  by (cases es) (auto split: prod.splits)

lemma concat_decisionBatches: "concat (decisionBatches es) = survivors es"
proof (induction es rule: decisionBatches.induct)
  case (2 e es)
  obtain b rest where b: "decisionBatch (e # es) = (b, rest)" by force
  have s: "survivors (e # es) = b @ survivors rest" using decisionBatch_survivors [of "e # es"] b by simp
  show ?case
  proof (cases "b = []")
    case True
    then show ?thesis using decisionBatch_empty [of "e # es"] b s by simp
  next
    case False
    then show ?thesis using 2 b s by simp
  qed
qed simp

section \<open>The stream of a history\<close>

text \<open>The events an iterator has left to deliver, when no page fails and none is empty.\<close>

function delivered :: "historyIteratorImpl \<Rightarrow> HistoryEvent list option" where
  "delivered it = (if \<not> HasNextPage it then Some [] else case GetNextPage it of
      (Inl _, _) \<Rightarrow> None
    | (Inr es, it') \<Rightarrow> if es = [] then None else map_option ((@) es) (delivered it'))"
  by pat_completeness auto
termination
proof (relation "measure unread")
  fix it r it' es
  assume "\<not> \<not> HasNextPage it" and "(r, it') = GetNextPage it" and "r = Inr es"
  then show "(it', it) \<in> measure unread" using GetNextPage_unread [of it es it'] by simp
qed simp

declare delivered.simps [simp del]

definition stream :: "history \<Rightarrow> HistoryEvent list option" where
  "stream eh = map_option ((@) (drop (hs_currentIndex eh) (hs_loadedEvents eh)))
     (case hs_historyIterator eh of None \<Rightarrow> Some [] | Some it \<Rightarrow> delivered it)"

fun contiguous :: "int \<Rightarrow> HistoryEvent list \<Rightarrow> bool" where
  "contiguous n [] = True"
| "contiguous n (e # es) = (eventId e = n \<and> contiguous (n + 1) es)"

definition attributed :: "HistoryEvent list \<Rightarrow> bool" where
  "attributed es = list_all (\<lambda>e. ev_EventType e \<noteq> EventTypeDecisionTaskCompleted None) es"

definition readable :: "history \<Rightarrow> HistoryEvent list \<Rightarrow> bool" where
  "readable eh es = (stream eh = Some es \<and> hs_currentIndex eh \<le> length (hs_loadedEvents eh) \<and>
     0 < hs_nextEventID eh \<and> attributed es)"

definition wellFormed :: "history \<Rightarrow> HistoryEvent list \<Rightarrow> bool" where
  "wellFormed eh es = (readable eh es \<and> contiguous (hs_nextEventID eh) es \<and>
     hs_lastEventID eh < hs_nextEventID eh + int (length es))"

definition sameFrame :: "history \<Rightarrow> history \<Rightarrow> bool" where
  "sameFrame eh eh' = (hs_nextEventID eh' = hs_nextEventID eh \<and> hs_lastEventID eh' = hs_lastEventID eh \<and>
     hs_currentIndex eh' = hs_currentIndex eh \<and> hs_next eh' = hs_next eh)"

lemma sameFrame_trans: "sameFrame a b \<Longrightarrow> sameFrame b c \<Longrightarrow> sameFrame a c"
  by (simp add: sameFrame_def)

lemma load_readable:
  assumes ok: "readable eh es" and more: "hasMoreEvents eh"
  obtains p eh' where "loadMoreEvents eh = (None, eh')" "readable eh' es" "sameFrame eh eh'" "p \<noteq> []"
    "hs_loadedEvents eh' = hs_loadedEvents eh @ p"
proof -
  obtain it where it: "hs_historyIterator eh = Some it" "HasNextPage it"
    using more by (auto simp: hasMoreEvents_def split: option.splits)
  have s: "stream eh = Some es" and i: "hs_currentIndex eh \<le> length (hs_loadedEvents eh)"
    and n: "hs_nextEventID eh \<noteq> 0" using ok by (auto simp: readable_def)
  obtain d where d: "delivered it = Some d" "es = drop (hs_currentIndex eh) (hs_loadedEvents eh) @ d"
    using s it by (auto simp: stream_def)
  obtain p it' d' where p: "GetNextPage it = (Inr p, it')" "p \<noteq> []" "delivered it' = Some d'" "d = p @ d'"
    using d(1) it(2) by (subst (asm) delivered.simps) (auto split: sum.splits prod.splits if_splits)
  define eh' where "eh' = eh\<lparr>hs_historyIterator := Some it', hs_loadedEvents := hs_loadedEvents eh @ p\<rparr>"
  have "loadMoreEvents eh = (None, eh')"
    using it p n by (simp add: loadMoreEvents_def getMoreEvents_def eh'_def Let_def)
  moreover have "readable eh' es"
    using ok i p d by (simp add: readable_def eh'_def stream_def)
  ultimately show ?thesis using that p(2) by (simp add: eh'_def sameFrame_def)
qed

lemma stream_current:
  assumes "readable eh es" and "hs_currentIndex eh < length (hs_loadedEvents eh)"
  shows "es = hs_loadedEvents eh ! hs_currentIndex eh # tl es"
    and "hs_currentIndex eh + 1 < length (hs_loadedEvents eh) \<Longrightarrow>
      tl es \<noteq> [] \<and> hd (tl es) = hs_loadedEvents eh ! (hs_currentIndex eh + 1)"
    and "\<not> hasMoreEvents eh \<Longrightarrow> hs_currentIndex eh + 1 = length (hs_loadedEvents eh) \<Longrightarrow> tl es = []"
    and "readable (advance eh) (tl es)"
proof -
  obtain d where es: "es = drop (hs_currentIndex eh) (hs_loadedEvents eh) @ d"
    and s: "(case hs_historyIterator eh of None \<Rightarrow> Some [] | Some it \<Rightarrow> delivered it) = Some d"
    using assms(1) by (auto simp: readable_def stream_def)
  show c: "es = hs_loadedEvents eh ! hs_currentIndex eh # tl es"
    using es Cons_nth_drop_Suc [OF assms(2)] by (metis append_Cons list.sel(3))
  have t: "tl es = drop (hs_currentIndex eh + 1) (hs_loadedEvents eh) @ d"
    using es assms(2) by (simp add: drop_Suc tl_drop)
  show "hs_currentIndex eh + 1 < length (hs_loadedEvents eh) \<Longrightarrow>
      tl es \<noteq> [] \<and> hd (tl es) = hs_loadedEvents eh ! (hs_currentIndex eh + 1)"
    unfolding t by (simp add: hd_drop_conv_nth)
  show "readable (advance eh) (tl es)"
  proof -
    have "attributed (tl es)" using assms(1) by (cases es) (auto simp: readable_def attributed_def)
    then show ?thesis using assms s t by (simp add: readable_def advance_def stream_def)
  qed
  assume "\<not> hasMoreEvents eh" and "hs_currentIndex eh + 1 = length (hs_loadedEvents eh)"
  then show "tl es = []" using s t
    by (auto simp: hasMoreEvents_def split: option.splits) (subst (asm) delivered.simps, simp)
qed

lemma stream_end:
  assumes "readable eh es" and "hs_currentIndex eh = length (hs_loadedEvents eh)" and "\<not> hasMoreEvents eh"
  shows "es = []"
  using assms by (auto simp: readable_def stream_def hasMoreEvents_def split: option.splits)
    (subst (asm) delivered.simps, simp)

lemma loadCurrent_Cons:
  "readable eh es \<Longrightarrow> es \<noteq> [] \<Longrightarrow> \<exists>eh'. loadCurrent eh = (Inr True, eh') \<and> readable eh' es \<and> sameFrame eh eh'
     \<and> hs_currentIndex eh' < length (hs_loadedEvents eh')"
proof (induction eh rule: loadCurrent_induct)
  case (round eh)
  show ?case
  proof (cases "hs_currentIndex eh = length (hs_loadedEvents eh)")
    case True
    then have more: "hasMoreEvents eh" using stream_end [OF round(2)] round(3) by blast
    obtain p eh1 where l: "loadMoreEvents eh = (None, eh1)" "readable eh1 es" "sameFrame eh eh1"
      using load_readable [OF round(2) more] by metis
    show ?thesis
      using round(1) [OF True more l(1) l(2) round(3)] l sameFrame_trans [OF l(3)] True more
      by (subst loadCurrent.simps) auto
  next
    case False
    then show ?thesis using round(2)
      by (subst loadCurrent.simps) (auto simp: readable_def sameFrame_def)
  qed
qed

lemma decisionChecksum_attributed:
  "attributed es \<Longrightarrow> e \<in> set es \<Longrightarrow> \<exists>c. decisionChecksum e = Inr c"
  by (auto simp: attributed_def list_all_iff decisionChecksum_def split: EventType.splits option.splits)

lemma IsNextDecisionFailed_stream:
  assumes ok: "readable eh es" and i: "hs_currentIndex eh < length (hs_loadedEvents eh)"
  shows "\<exists>c eh'. IsNextDecisionFailed eh = (Inr (followedByFailure (tl es), c), eh') \<and> readable eh' es \<and>
     sameFrame eh eh' \<and> hs_currentIndex eh' < length (hs_loadedEvents eh')"
proof -
  let ?page = "if hs_currentIndex eh + 1 \<ge> length (hs_loadedEvents eh) \<and> hasMoreEvents eh
    then loadMoreEvents eh else (None, eh)"
  have "\<exists>eh'. ?page = (None, eh') \<and> readable eh' es \<and> sameFrame eh eh' \<and>
      (hs_currentIndex eh + 1 < length (hs_loadedEvents eh') \<or>
       \<not> hasMoreEvents eh' \<and> hs_currentIndex eh + 1 = length (hs_loadedEvents eh'))"
  proof (cases "hs_currentIndex eh + 1 \<ge> length (hs_loadedEvents eh) \<and> hasMoreEvents eh")
    case True
    then obtain p eh' where "loadMoreEvents eh = (None, eh')" "readable eh' es" "sameFrame eh eh'" "p \<noteq> []"
      "hs_loadedEvents eh' = hs_loadedEvents eh @ p" using load_readable [OF ok] by metis
    then show ?thesis using True i by (cases p) auto
  next
    case False
    then show ?thesis using ok i by (auto simp: sameFrame_def)
  qed
  then obtain eh' where l: "?page = (None, eh')" "readable eh' es" "sameFrame eh eh'"
      "hs_currentIndex eh + 1 < length (hs_loadedEvents eh') \<or>
       \<not> hasMoreEvents eh' \<and> hs_currentIndex eh + 1 = length (hs_loadedEvents eh')" by blast
  have c: "hs_currentIndex eh' = hs_currentIndex eh" using l(3) by (simp add: sameFrame_def)
  show ?thesis
  proof (cases "hs_currentIndex eh + 1 < length (hs_loadedEvents eh')")
    case True
    let ?n = "hs_loadedEvents eh' ! (hs_currentIndex eh + 1)"
    have t: "tl es = ?n # tl (tl es)"
      using stream_current(2) [OF l(2)] True c by (metis add_lessD1 list.collapse)
    have "?n \<in> set es" using t by (metis list.set_intros(1) list.set_sel(2) tl_Nil list.distinct(1))
    then obtain k where "decisionChecksum ?n = Inr k"
      using decisionChecksum_attributed l(2) by (auto simp: readable_def)
    moreover have "followedByFailure (tl es) = isFailedDecision ?n"
      by (subst t) (simp add: followedByFailure_def)
    ultimately show ?thesis using True l(1-3) c by (simp add: IsNextDecisionFailed_def Let_def)
  next
    case False
    then have "tl es = []" using stream_current(3) [OF l(2)] l(4) c by simp
    then show ?thesis using False l c by (auto simp: IsNextDecisionFailed_def Let_def followedByFailure_def)
  qed
qed

lemma wellFormed_advance:
  assumes "wellFormed eh (e # es)" and "readable eh' (e # es)" and "hs_currentIndex eh' < length (hs_loadedEvents eh')"
    and "hs_nextEventID eh' = hs_nextEventID eh + 1" and "hs_lastEventID eh' = hs_lastEventID eh"
  shows "wellFormed (advance eh') es"
  using assms stream_current(4) [OF assms(2,3)] by (auto simp: wellFormed_def advance_def)

lemma stream_empty:
  assumes "readable eh []"
  shows "hs_currentIndex eh = length (hs_loadedEvents eh)" "\<not> hasMoreEvents eh"
proof -
  show "hs_currentIndex eh = length (hs_loadedEvents eh)"
    using assms by (auto simp: readable_def stream_def)
  show "\<not> hasMoreEvents eh"
  proof
    assume "hasMoreEvents eh"
    then obtain p eh' where "readable eh' []" "p \<noteq> []" "hs_loadedEvents eh' = hs_loadedEvents eh @ p"
      "sameFrame eh eh'" using load_readable [OF assms] by metis
    then show False using assms by (auto simp: readable_def stream_def sameFrame_def)
  qed
qed

lemma readable_update [simp]:
  "0 < n \<Longrightarrow> readable (eh\<lparr>hs_nextEventID := n\<rparr>) es \<longleftrightarrow> readable (eh\<lparr>hs_nextEventID := 1\<rparr>) es"
  "readable (eh\<lparr>hs_binaryChecksum := c\<rparr>) es \<longleftrightarrow> readable eh es"
  "readable (eh\<lparr>hs_next := b\<rparr>) es \<longleftrightarrow> readable eh es"
  by (simp_all add: readable_def stream_def)

lemma readable_bump: "readable eh es \<Longrightarrow> readable (eh\<lparr>hs_nextEventID := hs_nextEventID eh + 1\<rparr>) es"
  by (simp add: readable_def stream_def)

text \<open>A round of the loop on the first event of the stream.\<close>

lemma orderEvents_round:
  assumes wf: "wellFormed eh (e # es)"
  obtains (stop) eh' where "\<not> leftOut e es" "isDecisionTaskStarted e"
      "\<And>bs ms. orderEvents eh bs ms = ((None, bs @ [e], ms), eh')" "wellFormed eh' es" "hs_next eh' = hs_next eh"
  | (drop) eh' where "leftOut e es" "\<And>bs ms. orderEvents eh bs ms = orderEvents eh' bs ms"
      "wellFormed eh' es" "hs_next eh' = hs_next eh"
  | (keep) eh' where "\<not> leftOut e es" "\<not> isDecisionTaskStarted e"
      "\<And>bs ms. orderEvents eh bs ms = orderEvents eh' (bs @ [e]) (if isPreloadMarkerEvent e then ms @ [e] else ms)"
      "wellFormed eh' es" "hs_next eh' = hs_next eh"
proof -
  obtain eh1 where l: "loadCurrent eh = (Inr True, eh1)" "readable eh1 (e # es)" "sameFrame eh eh1"
      "hs_currentIndex eh1 < length (hs_loadedEvents eh1)"
    using loadCurrent_Cons [of eh "e # es"] wf by (auto simp: wellFormed_def)
  have e: "hs_loadedEvents eh1 ! hs_currentIndex eh1 = e" using stream_current(1) [OF l(2,4)] by simp
  define eh2 where "eh2 = eh1\<lparr>hs_nextEventID := hs_nextEventID eh1 + 1\<rparr>"
  have r2: "readable eh2 (e # es)" "hs_currentIndex eh2 < length (hs_loadedEvents eh2)"
    "hs_nextEventID eh2 = hs_nextEventID eh + 1" "hs_lastEventID eh2 = hs_lastEventID eh" "hs_next eh2 = hs_next eh"
    using readable_bump [OF l(2)] l by (simp_all add: eh2_def sameFrame_def)
  have num: "eventId e = hs_nextEventID eh1" using wf l(3) by (simp add: wellFormed_def sameFrame_def)
  note unfold = orderEvents.simps [of eh] l(1) l(4) e num eh2_def [symmetric] Let_def
  have idx: "\<not> length (hs_loadedEvents eh1) < hs_currentIndex eh1" using l(4) by simp
  show ?thesis
  proof (cases "isDecisionTaskStarted e")
    case started: True
    then have ns: "\<not> isSkippedEvent e" by (auto simp: isDecisionTaskStarted_def isSkippedEvent_def split: EventType.splits)
    obtain c eh3 where n: "IsNextDecisionFailed eh2 = (Inr (followedByFailure es, c), eh3)" "readable eh3 (e # es)"
        "sameFrame eh2 eh3" "hs_currentIndex eh3 < length (hs_loadedEvents eh3)"
      using IsNextDecisionFailed_stream [OF r2(1,2)] by auto
    have w: "wellFormed (advance (eh3\<lparr>hs_binaryChecksum := d\<rparr>)) es" "wellFormed (advance eh3) es" for d
      using wellFormed_advance [OF wf, of "eh3\<lparr>hs_binaryChecksum := d\<rparr>"] wellFormed_advance [OF wf n(2,4)]
        n r2(3,4) by (simp_all add: sameFrame_def)
    have nx: "hs_next eh3 = hs_next eh" using n(3) r2(5) by (simp add: sameFrame_def)
    show ?thesis
    proof (cases "followedByFailure es")
      case True
      show ?thesis
        by (rule drop [of "advance eh3"]) (use started True w nx n(1) idx in \<open>simp_all add: unfold leftOut_def advance_def\<close>)
    next
      case False
      show ?thesis
        by (rule stop [of "advance (eh3\<lparr>hs_binaryChecksum := c\<rparr>)"])
          (use started False ns w nx n(1) idx in \<open>simp_all add: unfold leftOut_def advance_def\<close>)
    qed
  next
    case other: False
    have w: "wellFormed (advance eh2) es" using wellFormed_advance [OF wf r2(1-4)] .
    have nx: "hs_next (advance eh2) = hs_next eh" using r2(5) by (simp add: advance_def)
    show ?thesis
    proof (cases "isSkippedEvent e")
      case True
      show ?thesis
        by (rule drop [of "advance eh2"]) (use other True w nx idx in \<open>simp_all add: unfold leftOut_def\<close>)
    next
      case False
      show ?thesis
        by (rule keep [of "advance eh2"]) (use other False w nx idx in \<open>simp_all add: unfold leftOut_def\<close>)
    qed
  qed
qed

lemma orderEvents_reference:
  "wellFormed eh es \<Longrightarrow> \<exists>eh'. orderEvents eh bs ms =
      ((None, bs @ fst (decisionBatch es), ms @ filter isPreloadMarkerEvent (fst (decisionBatch es))), eh') \<and>
      wellFormed eh' (snd (decisionBatch es)) \<and> hs_next eh' = hs_next eh"
proof (induction es arbitrary: eh bs ms)
  case Nil
  then have "loadCurrent eh = (Inr False, eh)"
    using stream_empty [of eh]
    by (subst loadCurrent.simps) (simp add: wellFormed_def verifyAllEventsProcessed_def)
  then show ?case using Nil by (simp add: orderEvents.simps [of eh])
next
  case (Cons e es)
  from Cons.prems show ?case
  proof (cases rule: orderEvents_round)
    case (stop eh')
    have "\<not> isPreloadMarkerEvent e"
      using stop(2) by (auto simp: isDecisionTaskStarted_def isPreloadMarkerEvent_def split: EventType.splits)
    then show ?thesis using stop by auto
  next
    case (drop eh')
    then show ?thesis using Cons.IH [OF drop(3), of bs ms] by simp
  next
    case (keep eh')
    then show ?thesis using Cons.IH [OF keep(4), of "bs @ [e]" "if isPreloadMarkerEvent e then ms @ [e] else ms"]
      by (auto split: prod.splits)
  qed
qed

lemma wellFormed_shrink: "wellFormed eh es \<Longrightarrow> wellFormed (shrinkLoaded eh) es"
  by (simp add: wellFormed_def readable_def shrinkLoaded_def stream_def)

lemma elements_sliceOf [simp]: "elements (sliceOf xs) = xs"
  by (simp add: elements_def sliceOf_def)

lemma nextDecisionEvents_reference:
  assumes wf: "wellFormed eh es"
  shows "\<exists>b ms eh'. nextDecisionEvents eh = ((None, b, ms), eh') \<and> elements b = fst (decisionBatch es) \<and>
     elements ms = filter isPreloadMarkerEvent (fst (decisionBatch es)) \<and>
     wellFormed eh' (snd (decisionBatch es)) \<and> hs_next eh' = hs_next eh"
proof (cases "hs_currentIndex eh = length (hs_loadedEvents eh) \<and> \<not> hasMoreEvents eh")
  case True
  then have "es = []" using stream_end wf by (auto simp: wellFormed_def)
  then show ?thesis using True wf
    by (simp add: nextDecisionEvents_def verifyAllEventsProcessed_def wellFormed_def elements_def)
next
  case False
  obtain eh' where o: "orderEvents eh [] [] =
      ((None, fst (decisionBatch es), filter isPreloadMarkerEvent (fst (decisionBatch es))), eh')"
      "wellFormed eh' (snd (decisionBatch es))" "hs_next eh' = hs_next eh"
    using orderEvents_reference [OF wf, of "[]" "[]"] by auto
  have "hs_next (shrinkLoaded eh') = hs_next eh" using o(3) by (simp add: shrinkLoaded_def)
  then show ?thesis using False o(1) wellFormed_shrink [OF o(2)] by (simp only: nextDecisionEvents_def if_False) simp
qed

section \<open>All batches of a task\<close>

text \<open>The results of calling \<open>NextDecisionEvents\<close> until it has no more events or fails.\<close>

fun drain :: "nat \<Rightarrow> history \<Rightarrow> decisionEvents list" where
  "drain 0 eh = []"
| "drain (Suc n) eh = (case NextDecisionEvents eh of (d, eh') \<Rightarrow>
     if de_err d \<noteq> None \<or> de_result d = [] then [d] else d # drain n eh')"

text \<open>A batch comes with the markers of the batch after it, which the decision on it recorded.\<close>

fun withMarkersAhead :: "HistoryEvent list list \<Rightarrow>
    (HistoryEvent list \<times> HistoryEvent list \<times> historyFailure option) list" where
  "withMarkersAhead [] = [([], [], None)]"
| "withMarkersAhead (b # bs) =
     (b, filter isPreloadMarkerEvent (case bs of [] \<Rightarrow> [] | c # _ \<Rightarrow> c), None) # withMarkersAhead bs"

definition outcomeOf :: "decisionEvents \<Rightarrow> HistoryEvent list \<times> HistoryEvent list \<times> historyFailure option" where
  "outcomeOf d = (de_result d, de_markers d, de_err d)"

text \<open>The batches a history is about to hand out: the one it holds ready and those of the stream.\<close>

definition pendingBatches :: "history \<Rightarrow> HistoryEvent list \<Rightarrow> HistoryEvent list list" where
  "pendingBatches eh es = (if elements (hs_next eh) = [] then decisionBatches es
     else elements (hs_next eh) # decisionBatches es)"

definition prepared :: "history \<Rightarrow> HistoryEvent list \<Rightarrow> bool" where
  "prepared eh es = (wellFormed eh es \<and> (hs_next eh = Some [] \<longrightarrow> decisionBatches es = []))"

lemma first_batch: "(case decisionBatches es of [] \<Rightarrow> [] | c # _ \<Rightarrow> c) = fst (decisionBatch es)"
  by (subst decisionBatches_cases) simp

lemma wellFormed_next [simp]: "wellFormed (eh\<lparr>hs_next := b\<rparr>) es \<longleftrightarrow> wellFormed eh es"
  by (simp add: wellFormed_def)

lemma readied:
  assumes "wellFormed eh es"
  obtains b ms eh' where "nextDecisionEvents eh = ((None, b, ms), eh')"
    "elements ms = filter isPreloadMarkerEvent (fst (decisionBatch es))"
    "prepared (eh'\<lparr>hs_next := b\<rparr>) (snd (decisionBatch es))"
    "pendingBatches (eh'\<lparr>hs_next := b\<rparr>) (snd (decisionBatch es)) = decisionBatches es"
    "elements b = fst (decisionBatch es)"
proof -
  obtain b ms eh' where n: "nextDecisionEvents eh = ((None, b, ms), eh')" "elements b = fst (decisionBatch es)"
     "elements ms = filter isPreloadMarkerEvent (fst (decisionBatch es))" "wellFormed eh' (snd (decisionBatch es))"
    using nextDecisionEvents_reference [OF assms] by blast
  have "b = Some [] \<Longrightarrow> decisionBatches (snd (decisionBatch es)) = []"
    using n(2) decisionBatch_empty [of es] by (simp add: elements_def)
  moreover have "pendingBatches (eh'\<lparr>hs_next := b\<rparr>) (snd (decisionBatch es)) = decisionBatches es"
    using n(2) decisionBatch_empty [of es] decisionBatches_cases [of es] by (simp add: pendingBatches_def)
  ultimately show ?thesis using that n by (simp add: prepared_def)
qed

lemma NextDecisionEvents_batch:
  assumes ok: "prepared eh es"
  obtains d eh' es' where "NextDecisionEvents eh = (d, eh')"
    "outcomeOf d = hd (withMarkersAhead (pendingBatches eh es))"
    "pendingBatches eh es \<noteq> [] \<Longrightarrow> prepared eh' es' \<and> pendingBatches eh' es' = tl (pendingBatches eh es)"
proof -
  let ?ready = "if hs_next eh = None
       then case nextDecisionEvents eh of ((err, nextEvents, _), eh) \<Rightarrow> (err, eh\<lparr>hs_next := nextEvents\<rparr>)
       else (None, eh)"
  have wf: "wellFormed eh es" using ok by (simp add: prepared_def)
  obtain eh0 es0 where r: "?ready = (None, eh0)" "wellFormed eh0 es0" "pendingBatches eh0 es0 = pendingBatches eh es"
      "elements (hs_next eh0) = [] \<Longrightarrow> pendingBatches eh es = []"
  proof (cases "hs_next eh")
    case None
    obtain b ms eh' where n: "nextDecisionEvents eh = ((None, b, ms), eh')"
      "prepared (eh'\<lparr>hs_next := b\<rparr>) (snd (decisionBatch es))"
      "pendingBatches (eh'\<lparr>hs_next := b\<rparr>) (snd (decisionBatch es)) = decisionBatches es"
      "elements b = fst (decisionBatch es)" using readied [OF wf] by metis
    show ?thesis
      by (rule that [of "eh'\<lparr>hs_next := b\<rparr>" "snd (decisionBatch es)"])
        (use None n decisionBatches_cases [of es] in \<open>simp_all add: prepared_def pendingBatches_def elements_def\<close>)
  next
    case (Some b)
    show ?thesis
      by (rule that [of eh es]) (use Some wf ok in \<open>auto simp: prepared_def pendingBatches_def elements_def\<close>)
  qed
  show ?thesis
  proof (cases "elements (hs_next eh0) = []")
    case True
    show ?thesis
      by (rule that [of "\<lparr>de_result = [], de_markers = [], de_binaryChecksum = hs_binaryChecksum eh0, de_err = None\<rparr>"
            eh0 es0]) (use r True in \<open>simp_all add: NextDecisionEvents_def Let_def outcomeOf_def\<close>)
  next
    case False
    obtain b ms eh' where n: "nextDecisionEvents eh0 = ((None, b, ms), eh')"
      "elements ms = filter isPreloadMarkerEvent (fst (decisionBatch es0))"
      "prepared (eh'\<lparr>hs_next := b\<rparr>) (snd (decisionBatch es0))"
      "pendingBatches (eh'\<lparr>hs_next := b\<rparr>) (snd (decisionBatch es0)) = decisionBatches es0"
      using readied [OF r(2)] by metis
    have p: "pendingBatches eh es = elements (hs_next eh0) # decisionBatches es0"
      using r(3) False by (simp add: pendingBatches_def)
    show ?thesis
      by (rule that [of "\<lparr>de_result = elements (hs_next eh0), de_markers = elements ms,
            de_binaryChecksum = hs_binaryChecksum eh0, de_err = None\<rparr>" "eh'\<lparr>hs_next := b\<rparr>" "snd (decisionBatch es0)"])
        (use r(1) n False p first_batch [of es0] in \<open>simp_all add: NextDecisionEvents_def Let_def outcomeOf_def\<close>)
  qed
qed

lemma pendingBatches_nonempty: "prepared eh es \<Longrightarrow> [] \<notin> set (pendingBatches eh es)"
proof -
  have "[] \<notin> set (decisionBatches es)"
    by (induction es rule: decisionBatches.induct) (auto split: prod.splits)
  then show ?thesis by (simp add: pendingBatches_def)
qed

lemma drain_reference:
  "prepared eh es \<Longrightarrow> map outcomeOf (drain (Suc (length (pendingBatches eh es))) eh) =
     withMarkersAhead (pendingBatches eh es)"
proof (induction "pendingBatches eh es" arbitrary: eh es)
  case Nil
  obtain d eh' where "NextDecisionEvents eh = (d, eh')" "outcomeOf d = hd (withMarkersAhead (pendingBatches eh es))"
    using NextDecisionEvents_batch [OF Nil.prems] by metis
  then show ?case using Nil.hyps [symmetric] by (simp add: outcomeOf_def)
next
  case (Cons b bs)
  obtain d eh' es' where d: "NextDecisionEvents eh = (d, eh')"
      "outcomeOf d = hd (withMarkersAhead (b # bs))" "prepared eh' es'" "pendingBatches eh' es' = bs"
    using NextDecisionEvents_batch [OF Cons.prems] Cons.hyps(2) by (metis list.distinct(1) list.sel(3))
  have "b \<noteq> []" using pendingBatches_nonempty [OF Cons.prems] Cons.hyps(2) [symmetric] by auto
  then show ?case
    using Cons.hyps(1) [OF d(4) [symmetric] d(3)] d Cons.hyps(2) [symmetric]
    by (simp add: outcomeOf_def)
qed

text \<open>
  (C35) The batches a task's history hands out, with the markers that come with each, are those
  of the reference on the whole list of events: they do not depend on how the events are cut
  into pages, no error is reported, and together they hold every event except those about
  decision tasks that were only scheduled, that failed or that timed out.
\<close>

theorem history_batches_reference:
  assumes "wellFormed (newHistory events previousStarted started iterator) es"
  shows "map outcomeOf (drain (Suc (length (decisionBatches es)))
      (newHistory events previousStarted started iterator)) = withMarkersAhead (decisionBatches es) \<and>
    concat (decisionBatches es) = survivors es"
proof -
  let ?h = "newHistory events previousStarted started iterator"
  have "pendingBatches ?h es = decisionBatches es" "prepared ?h es"
    using assms by (simp_all add: pendingBatches_def prepared_def newHistory_def elements_def)
  then show ?thesis using drain_reference [of ?h es] concat_decisionBatches [of es] by simp
qed

definition exEvent :: "int \<Rightarrow> EventType \<Rightarrow> HistoryEvent" where
  "exEvent n t = \<lparr>ev_EventId = Some n, ev_Timestamp = None, ev_EventType = t\<rparr>"

text \<open>A history of three pages: the second decision task fails and is started again.\<close>

definition exPages :: "HistoryEvent list list" where
  "exPages =
     [[exEvent 1 (EventTypeWorkflowExecutionStarted None), exEvent 2 EventTypeDecisionTaskScheduled,
       exEvent 3 (EventTypeDecisionTaskStarted None)],
      [exEvent 4 (EventTypeDecisionTaskCompleted (Some \<lparr>dtc_ExecutionContext = None, dtc_Identity = None, dtc_BinaryChecksum = Some ''sum''\<rparr>)),
       exEvent 5 (EventTypeMarkerRecorded None), exEvent 6 EventTypeDecisionTaskScheduled,
       exEvent 7 (EventTypeDecisionTaskStarted None)],
      [exEvent 8 EventTypeDecisionTaskTimedOut, exEvent 9 EventTypeDecisionTaskScheduled,
       exEvent 10 (EventTypeDecisionTaskStarted None)]]"

definition exHistory :: history where
  "exHistory = newHistory (exPages ! 0) 3 10
     (Some \<lparr>hi_service = map Inr exPages, hi_nextPageToken = Some 1, hi_startedEventID = 10, hi_maxEventID = 10\<rparr>)"

theorem history_batches_reference_witness:
  "wellFormed exHistory (concat exPages) \<and>
   map (map eventId) (decisionBatches (concat exPages)) = [[1, 3], [4, 5, 10]] \<and>
   map outcomeOf (drain 3 exHistory) = withMarkersAhead (decisionBatches (concat exPages))"
proof -
  have wf: "wellFormed exHistory (concat exPages)" by code_simp
  have n: "length (decisionBatches (concat exPages)) = 2" by code_simp
  have ids: "map (map eventId) (decisionBatches (concat exPages)) = [[1, 3], [4, 5, 10]]" by code_simp
  show ?thesis
    using history_batches_reference [OF wf [unfolded exHistory_def]] wf n ids
    by (simp add: exHistory_def del: One_nat_def)
qed

section \<open>Boundaries of pages\<close>

text \<open>
  The lookahead of \<open>IsNextDecisionFailed\<close> loads one page at most.  When that page is empty the
  start of a failed decision task ends a batch, although the loop itself reads on over empty
  pages.
\<close>

lemma empty_page_hides_failure:
  "map (map eventId \<circ> de_result) (drain 5 (newHistory
       [exEvent 1 (EventTypeWorkflowExecutionStarted None), exEvent 2 (EventTypeDecisionTaskStarted None)] 0 4
       (Some \<lparr>hi_service = [Inr [], Inr [], Inr [exEvent 3 EventTypeDecisionTaskTimedOut,
           exEvent 4 (EventTypeDecisionTaskStarted None)]],
         hi_nextPageToken = Some 1, hi_startedEventID = 4, hi_maxEventID = 4\<rparr>))) = [[1, 2], [4], []]"
  by code_simp

text \<open>
  A page that starts right after the decision at which the history is to end is cut to nothing,
  and its last event is read all the same.
\<close>

lemma page_after_end_panics:
  assumes "servedPage service token = Inr (e # es, token')" and "0 < completedId"
    and "eventId e = completedId + 1" and "completedId < eventId (last (e # es))"
  shows "newGetHistoryPageFunc service completedId maxId token = Inl (HistoryPanic ''index out of range'')"
  using assms by (simp add: newGetHistoryPageFunc_def shouldTruncateHistory_def sliceTo_def)

text \<open>Events with a gap are refused, whatever the batch holds so far.\<close>

lemma gap_refused:
  assumes "readable eh (e # es)" and "eventId e \<noteq> hs_nextEventID eh"
  shows "\<exists>eh'. orderEvents eh bs ms = ((Some (missingEvents (hs_nextEventID eh) (eventId e)), bs, ms), eh')"
proof -
  obtain eh1 where l: "loadCurrent eh = (Inr True, eh1)" "readable eh1 (e # es)" "sameFrame eh eh1"
      "hs_currentIndex eh1 < length (hs_loadedEvents eh1)"
    using loadCurrent_Cons [OF assms(1)] by auto
  have "hs_loadedEvents eh1 ! hs_currentIndex eh1 = e" using stream_current(1) [OF l(2,4)] by simp
  then show ?thesis using l assms(2) by (simp add: orderEvents.simps [of eh] Let_def sameFrame_def)
qed

end
