(* ===== verification/Workflow_Task.thy ===== *)
theory Workflow_Task
  imports History_Batches Replay_Match Activity_Options Environment_Progress
begin

text \<open>
  One workflow execution on a worker and the processing of its decision tasks, type
  \<open>workflowExecutionContextImpl\<close> of \<open>src/internal/internal_task_handlers.go\<close>: the batches of
  the history are fed to the event handler, the decisions made in replay are compared with the
  history, and the request that answers the task is built.

  The context's \<open>workflowInfo\<close> is shared with its event handler; it is kept in the event
  handler while there is one.  \<open>completeWorkflow\<close> is the handler that the environment calls on
  completion, found in its trace.  Times, stack traces, the tunnel to the local activity
  worker, the user's query handlers and the printers are the record \<open>outside\<close>.
\<close>

section \<open>Tasks and handlers\<close>

record WorkflowQuery =
  wq_QueryType :: "string option"
  wq_QueryArgs :: nbytes

record PollForDecisionTaskResponse =
  pt_TaskToken :: nbytes
  pt_WorkflowExecution :: "WorkflowExecutionT option"
  pt_WorkflowType :: "string option"
  pt_PreviousStartedEventId :: "int option"
  pt_StartedEventId :: "int option"
  pt_NextEventId :: "int option"
  pt_TotalHistoryBytes :: "int option"
  pt_History :: "HistoryEvent list"
  pt_Query :: "WorkflowQuery option"
  pt_Queries :: "(string \<times> WorkflowQuery) list"

datatype NonDeterministicWorkflowPolicy =
    NonDeterministicWorkflowPolicyBlockWorkflow
  | NonDeterministicWorkflowPolicyFailWorkflow
  | OtherNonDeterministicWorkflowPolicy int

record workflowTaskHandlerImpl =
  wth_domain :: string
  wth_identity :: string
  wth_ppMgr :: "(string \<Rightarrow> string option) option" \<comment> \<open>\<open>Execute\<close> of the pressure points\<close>
  wth_disableStickyExecution :: bool
  wth_registry :: workflowRegistry
  wth_laTunnel :: bool \<comment> \<open>\<open>laTunnel != nil\<close>\<close>
  wth_nonDeterministicWorkflowPolicy :: NonDeterministicWorkflowPolicy
  wth_dataConverter :: DataConverter

record outside =
  out_now :: "HistoryEvent \<Rightarrow> int"
  out_stackTrace :: "HistoryEvent \<Rightarrow> string"
  out_printers :: stringer
  out_binaryChecksum :: string
  out_sendTask :: "localActivityTask \<Rightarrow> bool"
  out_queryStackTrace :: string
  out_knownQueryTypes :: "string list"
  out_sessions :: "SessionInfo list \<Rightarrow> goValue"
  out_queryHandler :: "string \<Rightarrow> nbytes \<Rightarrow> string + nbytes"
  out_defaultConverter :: DataConverter
  out_pow :: "rat \<Rightarrow> nat \<Rightarrow> rat"
  out_overflow :: int

datatype taskError =
    TextError string
  | ErrorValue goError
  | decisionHeartbeatError string

record RespondDecisionTaskCompletedRequest =
  rc_TaskToken :: nbytes
  rc_Decisions :: "Decision list"
  rc_Identity :: "string option"
  rc_ReturnNewDecisionTask :: "bool option"
  rc_ForceCreateNewDecisionTask :: "bool option"
  rc_BinaryChecksum :: "string option"
  rc_QueryResults :: "(string \<times> (string + nbytes)) list" \<comment> \<open>failed with a message, or answered\<close>

datatype completeRequest =
    RespondDecisionTaskCompleted RespondDecisionTaskCompletedRequest
  | RespondDecisionTaskFailed nbytes nbytes string string \<comment> \<open>token, details, identity, checksum\<close>
  | RespondQueryTaskCompleted nbytes "string + nbytes" \<comment> \<open>token; failed with a message, or completed\<close>

section \<open>The context of an execution\<close>

record workflowExecutionContextImpl =
  wc_workflowStartTime :: int
  wc_workflowInfo :: WorkflowInfo
  wc_eventHandler :: "workflowEnv option"
  wc_isWorkflowCompleted :: bool
  wc_result :: nbytes
  wc_err :: "goError option"
  wc_previousStartedEventID :: int
  wc_newDecisions :: "Decision list"
  wc_currentDecisionTask :: "PollForDecisionTaskResponse option"
  wc_laTunnel :: bool

definition workflowInfoOf :: "workflowExecutionContextImpl \<Rightarrow> WorkflowInfo" where
  "workflowInfoOf w = (case wc_eventHandler w of None \<Rightarrow> wc_workflowInfo w | Some env \<Rightarrow> env_workflowInfo env)"

definition updateInfo :: "(WorkflowInfo \<Rightarrow> WorkflowInfo) \<Rightarrow> workflowExecutionContextImpl \<Rightarrow> workflowExecutionContextImpl" where
  "updateInfo f w = (case wc_eventHandler w of
      None \<Rightarrow> w\<lparr>wc_workflowInfo := f (wc_workflowInfo w)\<rparr>
    | Some env \<Rightarrow> w\<lparr>wc_eventHandler := Some (env\<lparr>env_workflowInfo := f (env_workflowInfo env)\<rparr>)\<rparr>)"

definition completeWorkflow :: "nbytes \<Rightarrow> goError option \<Rightarrow> workflowExecutionContextImpl \<Rightarrow> workflowExecutionContextImpl" where
  "completeWorkflow result err w = w\<lparr>wc_isWorkflowCompleted := True, wc_result := result, wc_err := err\<rparr>"

definition shouldResetStickyOnEviction :: "workflowExecutionContextImpl \<Rightarrow> bool" where
  "shouldResetStickyOnEviction w = (wc_err w = None \<and> \<not> wc_isWorkflowCompleted w)"

definition IsDestroyed :: "workflowExecutionContextImpl \<Rightarrow> bool" where
  "IsDestroyed w = (wc_eventHandler w = None)"

definition clearCurrentTask :: "workflowExecutionContextImpl \<Rightarrow> workflowExecutionContextImpl" where
  "clearCurrentTask w = w\<lparr>wc_newDecisions := [], wc_currentDecisionTask := None\<rparr>"

text \<open>The event handler is closed and dropped; the information it shared stays.\<close>

definition clearState :: "workflowExecutionContextImpl \<Rightarrow> workflowExecutionContextImpl" where
  "clearState w = (clearCurrentTask w)\<lparr>wc_isWorkflowCompleted := False, wc_result := None, wc_err := None,
     wc_previousStartedEventID := 0, wc_newDecisions := [],
     wc_workflowInfo := workflowInfoOf w, wc_eventHandler := None\<rparr>"

definition createEventHandler :: "workflowTaskHandlerImpl \<Rightarrow> workflowExecutionContextImpl \<Rightarrow> workflowExecutionContextImpl" where
  "createEventHandler wth w = (let w = clearState w in
     w\<lparr>wc_eventHandler := Some (newWorkflowExecutionEventHandler (wc_workflowInfo w) (wth_dataConverter wth))\<rparr>)"

definition newWorkflowExecutionContext :: "workflowTaskHandlerImpl \<Rightarrow> int \<Rightarrow> WorkflowInfo \<Rightarrow> workflowExecutionContextImpl" where
  "newWorkflowExecutionContext wth wfStartTime info = createEventHandler wth
     \<lparr>wc_workflowStartTime = wfStartTime, wc_workflowInfo = info, wc_eventHandler = None,
      wc_isWorkflowCompleted = False, wc_result = None, wc_err = None, wc_previousStartedEventID = 0,
      wc_newDecisions = [], wc_currentDecisionTask = None, wc_laTunnel = False\<rparr>"

definition hasPendingLocalActivityWork :: "workflowExecutionContextImpl \<Rightarrow> bool" where
  "hasPendingLocalActivityWork w = (\<not> wc_isWorkflowCompleted w \<and>
     (case wc_currentDecisionTask w of None \<Rightarrow> False | Some task \<Rightarrow> pt_Query task = None) \<and>
     (case wc_eventHandler w of None \<Rightarrow> False | Some env \<Rightarrow> length (env_pendingLaTasks env) > 0))"

definition SetCurrentTask :: "PollForDecisionTaskResponse \<Rightarrow> workflowExecutionContextImpl \<Rightarrow> workflowExecutionContextImpl" where
  "SetCurrentTask task w = (let w = w\<lparr>wc_currentDecisionTask := Some task\<rparr> in
     if pt_Query task = None then w\<lparr>wc_previousStartedEventID := get_int (pt_StartedEventId task)\<rparr> else w)"

definition GetDecisionTimeout :: "workflowExecutionContextImpl \<Rightarrow> int" where
  "GetDecisionTimeout w = Second * wi_TaskStartToCloseTimeoutSeconds (workflowInfoOf w)"

text \<open>Panics about the state machines are told from others by the type of the value.\<close>

definition getWorkflowPanicIfIllegaleStatePanic :: "workflowExecutionContextImpl \<Rightarrow> goError option" where
  "getWorkflowPanicIfIllegaleStatePanic w = (if \<not> wc_isWorkflowCompleted w then None
     else case wc_err w of
       Some (workflowPanicError (RecoveredOther t text) st) \<Rightarrow>
         if t = ''internal.stateMachineIllegalStatePanic''
         then Some (workflowPanicError (RecoveredOther t text) st) else None
     | _ \<Rightarrow> None)"

definition createWorkflowContext :: "workflowTaskHandlerImpl \<Rightarrow> PollForDecisionTaskResponse \<Rightarrow>
    panicValue + taskError + workflowExecutionContextImpl" where
  "createWorkflowContext wth task = (case pt_History task of
      [] \<Rightarrow> Inl (RuntimePanic ''index out of range'')
    | e # _ \<Rightarrow> (case ev_EventType e of
        EventTypeWorkflowExecutionStarted (Some a) \<Rightarrow> (case wes_TaskList a of
            None \<Rightarrow> Inr (Inl (TextError ''nil TaskList in WorkflowExecutionStarted event''))
          | Some taskList \<Rightarrow> (case pt_WorkflowType task of
              None \<Rightarrow> Inl nilDereference
            | Some workflowType \<Rightarrow> Inr (Inr (newWorkflowExecutionContext wth (get_int (ev_Timestamp e))
                \<lparr>wi_WorkflowType = workflowType,
                 wi_ID = workflowIdOf (pt_WorkflowExecution task),
                 wi_RunID = runIdOf (pt_WorkflowExecution task),
                 wi_OriginalRunId = get_str (wes_OriginalExecutionRunId a),
                 wi_TaskListName = get_str (tl_Name taskList),
                 wi_SearchAttributes = wes_SearchAttributes a,
                 wi_DecisionStartedEventID = 0, wi_TotalHistoryBytes = 0,
                 wi_ExecutionStartToCloseTimeoutSeconds = get_int (wes_ExecutionStartToCloseTimeoutSeconds a),
                 wi_TaskStartToCloseTimeoutSeconds = get_int (wes_TaskStartToCloseTimeoutSeconds a),
                 wi_Domain = wth_domain wth,
                 wi_Attempt = get_int (wes_Attempt a),
                 wi_lastCompletionResult = wes_LastCompletionResult a,
                 wi_CronSchedule = wes_CronSchedule a,
                 wi_ContinuedExecutionRunID = wes_ContinuedExecutionRunId a,
                 wi_ParentWorkflowDomain = wes_ParentWorkflowDomain a,
                 wi_ParentWorkflowExecution = map_option (\<lambda>p. (workflowIdOf (Some p), runIdOf (Some p)))
                   (wes_ParentWorkflowExecution a),
                 wi_Memo = wes_Memo a,
                 wi_RetryPolicy = wes_RetryPolicy a,
                 wi_BinaryChecksum = None, wi_HistoryBytesServer = 0, wi_HistoryCount = 0\<rparr>))))
      | _ \<Rightarrow> Inr (Inl (TextError ''first history event is not WorkflowExecutionStarted''))))"

section \<open>The state of a task\<close>

record taskState =
  ts_context :: workflowExecutionContextImpl
  ts_task :: PollForDecisionTaskResponse
  ts_historyIterator :: "historyIteratorImpl option"

type_synonym 'a tgo = "(taskState, panicValue, 'a) go"

definition onContext :: "(workflowExecutionContextImpl \<Rightarrow> workflowExecutionContextImpl) \<Rightarrow> unit tgo" where
  "onContext f = go_modify (\<lambda>s. s\<lparr>ts_context := f (ts_context s)\<rparr>)"

text \<open>A call on the event handler; completions it reports reach the context.\<close>

fun completion :: "envCall \<Rightarrow> workflowExecutionContextImpl \<Rightarrow> workflowExecutionContextImpl" where
  "completion (CompleteHandlerCall result err) w = completeWorkflow result err w"
| "completion _ w = w"

definition inHandler :: "'a ego \<Rightarrow> 'a tgo" where
  "inHandler m s = (case wc_eventHandler (ts_context s) of
      None \<Rightarrow> (Inl nilDereference, s)
    | Some env \<Rightarrow> (case m env of (r, env') \<Rightarrow> (r, s\<lparr>ts_context :=
        fold completion (drop (length (env_calls env)) (env_calls env'))
          ((ts_context s)\<lparr>wc_eventHandler := Some env'\<rparr>)\<rparr>)))"

definition failure :: "historyFailure \<Rightarrow> taskError tgo" where
  "failure f = (case f of HistoryError e \<Rightarrow> go_return (TextError e) | HistoryPanic p \<Rightarrow> go_panic (RuntimePanic p))"

definition resetHistory :: "taskError option tgo" where
  "resetHistory = go_bind (go_get ts_historyIterator) (\<lambda>it. case it of
      None \<Rightarrow> go_panic nilDereference
    | Some it \<Rightarrow> (case GetNextPage (ResetIterator it) of (r, it') \<Rightarrow>
        go_then (go_modify (\<lambda>s. s\<lparr>ts_historyIterator := Some it'\<rparr>))
        (case r of
           Inl f \<Rightarrow> go_bind (failure f) (\<lambda>e. go_return (Some e))
         | Inr firstPageHistory \<Rightarrow>
             go_then (go_modify (\<lambda>s. s\<lparr>ts_task := (ts_task s)\<lparr>pt_History := firstPageHistory\<rparr>\<rparr>))
             (go_return None))))"

definition resetStateIfDestroyed :: "workflowTaskHandlerImpl \<Rightarrow> taskError option tgo" where
  "resetStateIfDestroyed wth = go_bind (go_get (\<lambda>s. IsDestroyed (ts_context s))) (\<lambda>destroyed.
     if destroyed
     then go_then (onContext (createEventHandler wth))
       (go_bind (go_get (\<lambda>s. isFullHistory (pt_History (ts_task s)))) (\<lambda>full.
         if \<not> full then resetHistory else go_return None))
     else go_return None)"

definition staleFor :: "PollForDecisionTaskResponse \<Rightarrow> workflowExecutionContextImpl \<Rightarrow> bool" where
  "staleFor task w = (case pt_History task of [] \<Rightarrow> False
     | e # _ \<Rightarrow> eventId e \<noteq> wc_previousStartedEventID w + 1)"

definition ResetIfStale :: "workflowTaskHandlerImpl \<Rightarrow> taskError option tgo" where
  "ResetIfStale wth = go_bind (go_get (\<lambda>s. staleFor (ts_task s) (ts_context s))) (\<lambda>stale.
     if stale then go_then (onContext clearState) (resetStateIfDestroyed wth) else go_return None)"

section \<open>Processing the events\<close>

datatype control = Failed taskError | Stop | Proceed

definition markerNameOf :: "HistoryEvent \<Rightarrow> string" where
  "markerNameOf e = (case ev_EventType e of
      EventTypeMarkerRecorded (Some a) \<Rightarrow> get_str (mr_MarkerName a) | _ \<Rightarrow> [])"

text \<open>An event to the event handler; stop when the workflow has completed.\<close>

definition feed :: "workflowTaskHandlerImpl \<Rightarrow> outside \<Rightarrow> HistoryEvent \<Rightarrow> bool \<Rightarrow> bool \<Rightarrow> control tgo" where
  "feed wth out e isReplay isLast =
     go_bind (inHandler (ProcessEvent (wth_registry wth) (out_now out e) (out_stackTrace out e) (Some e) isReplay isLast))
     (\<lambda>err. case err of
        Some text \<Rightarrow> go_return (Failed (TextError text))
      | None \<Rightarrow> go_bind (go_get (\<lambda>s. wc_isWorkflowCompleted (ts_context s))) (\<lambda>completed.
          go_return (if completed then Stop else Proceed)))"

fun processMarkers :: "workflowTaskHandlerImpl \<Rightarrow> outside \<Rightarrow> bool \<Rightarrow> HistoryEvent list \<Rightarrow> control tgo" where
  "processMarkers wth out localActivity [] = go_return Proceed"
| "processMarkers wth out localActivity (m # ms) =
     (if (markerNameOf m = localActivityMarkerName) = localActivity
      then go_bind (feed wth out m True False) (\<lambda>c.
        if c = Proceed then processMarkers wth out localActivity ms else go_return c)
      else processMarkers wth out localActivity ms)"

definition executeAnyPressurePoints :: "workflowTaskHandlerImpl \<Rightarrow> HistoryEvent \<Rightarrow> bool \<Rightarrow> string option" where
  "executeAnyPressurePoints wth event isInReplay = (case wth_ppMgr wth of
      None \<Rightarrow> None
    | Some execute \<Rightarrow> if isInReplay then None else (case ev_EventType event of
        EventTypeDecisionTaskStarted _ \<Rightarrow> execute ''decision-task-start-timeout''
      | EventTypeActivityTaskScheduled _ \<Rightarrow> execute ''activity-task-schedule-timeout''
      | EventTypeActivityTaskStarted _ \<Rightarrow> execute ''activity-task-start-timeout''
      | EventTypeDecisionTaskCompleted _ \<Rightarrow> execute ''decision-task-complete''
      | _ \<Rightarrow> None))"

text \<open>With the events to be compared with the decisions of the replay.\<close>

fun processEvents :: "workflowTaskHandlerImpl \<Rightarrow> outside \<Rightarrow> history \<Rightarrow> bool \<Rightarrow> HistoryEvent list \<Rightarrow> HistoryEvent list \<Rightarrow>
    (control \<times> HistoryEvent list) tgo" where
  "processEvents wth out h skipReplayCheck respondEvents [] = go_return (Proceed, respondEvents)"
| "processEvents wth out h skipReplayCheck respondEvents (event # events) =
     (let isInReplay = IsReplayEvent h event;
          isLast = (\<not> isInReplay \<and> events = []);
          respondEvents = (if \<not> skipReplayCheck \<and> isDecisionEvent (ev_EventType event)
            then respondEvents @ [event] else respondEvents) in
      if isPreloadMarkerEvent event then processEvents wth out h skipReplayCheck respondEvents events
      else case executeAnyPressurePoints wth event isInReplay of
          Some err \<Rightarrow> go_return (Failed (TextError err), respondEvents)
        | None \<Rightarrow> go_bind (feed wth out event isInReplay isLast) (\<lambda>c.
            if c = Proceed then processEvents wth out h skipReplayCheck respondEvents events
            else go_return (c, respondEvents)))"

definition setBinaryChecksum :: "outside \<Rightarrow> string option \<Rightarrow> unit tgo" where
  "setBinaryChecksum out checksum = onContext (updateInfo (\<lambda>i. i\<lparr>wi_BinaryChecksum :=
     (case checksum of None \<Rightarrow> Some (out_binaryChecksum out) | Some c \<Rightarrow> Some c)\<rparr>))"

definition replayedDecisions :: "history \<Rightarrow> bool \<Rightarrow> bool \<Rightarrow> HistoryEvent list \<Rightarrow> Decision list tgo" where
  "replayedDecisions h skipReplayCheck isReplayTest reorderedEvents =
     (let isReplay = (reorderedEvents \<noteq> [] \<and> IsReplayEvent h (last reorderedEvents));
          lastDecisionEventsForReplayTest = (isReplayTest \<and> \<not> HasNextDecisionEvents h) in
      if isReplay \<and> \<not> lastDecisionEventsForReplayTest
      then go_bind (inHandler (lift (getDecisions True))) (\<lambda>eventDecisions.
        go_return (if skipReplayCheck then [] else eventDecisions))
      else go_return [])"

text \<open>One batch: its markers but those of local activities, its events, the markers of local
  activities, and the decisions if all this was replay.\<close>

definition processBatch :: "workflowTaskHandlerImpl \<Rightarrow> outside \<Rightarrow> history \<Rightarrow> bool \<Rightarrow> bool \<Rightarrow> decisionEvents \<Rightarrow>
    (control \<times> Decision list \<times> HistoryEvent list) tgo" where
  "processBatch wth out h skipReplayCheck isReplayTest d =
     go_then (setBinaryChecksum out (de_binaryChecksum d))
     (go_bind (processMarkers wth out False (de_markers d)) (\<lambda>c.
      if c \<noteq> Proceed then go_return (c, [], []) else
      go_bind (processEvents wth out h skipReplayCheck [] (de_result d)) (\<lambda>(c, respondEvents).
      if c \<noteq> Proceed then go_return (c, [], respondEvents) else
      go_bind (processMarkers wth out True (de_markers d)) (\<lambda>c.
      if c \<noteq> Proceed then go_return (c, [], respondEvents) else
      go_bind (replayedDecisions h skipReplayCheck isReplayTest (de_result d)) (\<lambda>replayDecisions.
      go_return (Proceed, replayDecisions, respondEvents))))))"

section \<open>All batches\<close>

text \<open>Every batch takes at least one event from what is left to read.\<close>

lemma remaining_checksum [simp]: "remaining (advance (eh\<lparr>hs_binaryChecksum := c\<rparr>)) = remaining (advance eh)"
  by (simp add: remaining_def advance_def)

lemma orderEvents_remaining:
  "orderEvents eh bs ms = ((None, bs', ms'), eh') \<Longrightarrow> remaining eh' + length bs' \<le> remaining eh + length bs"
proof (induction "remaining eh" arbitrary: eh bs ms rule: less_induct)
  case less
  obtain r1 eh1 where l: "loadCurrent eh = (r1, eh1)" by force
  note run = less.prems [unfolded orderEvents.simps [of eh] l]
  show ?case
  proof (cases "r1 = Inr True")
    case False
    then show ?thesis using run remaining_loadCurrent [OF l] by (auto split: sum.splits bool.splits)
  next
    case True
    note l' = l [unfolded True, symmetric]
    let ?e = "hs_loadedEvents eh1 ! hs_currentIndex eh1"
    define eh2 where "eh2 = eh1\<lparr>hs_nextEventID := hs_nextEventID eh1 + 1\<rparr>"
    have i: "\<not> length (hs_loadedEvents eh1) < hs_currentIndex eh1" and e: "eventId ?e = hs_nextEventID eh1"
      using run True by (auto simp: Let_def split: if_splits)
    note less_now = round_remaining(1) [OF l' i, of "hs_nextEventID eh1 + 1", folded eh2_def]
    note less_next = round_remaining(2) [OF l' i, of _ _ "hs_nextEventID eh1 + 1", folded eh2_def]
    show ?thesis
    proof (cases "isDecisionTaskStarted ?e")
      case False
      then show ?thesis using run True i e less_now less.hyps [OF less_now]
        by (fastforce simp: Let_def eh2_def [symmetric] split: if_splits)
    next
      case started: True
      then obtain failed c eh3 where n: "IsNextDecisionFailed eh2 = (Inr (failed, c), eh3)"
        using run True i e by (auto simp: Let_def eh2_def [symmetric] split: sum.splits prod.splits)
      show ?thesis using run True i e started n less_next [OF n [symmetric]] less.hyps [OF less_next [OF n [symmetric]]]
        by (cases failed) (fastforce simp: Let_def eh2_def [symmetric])+
    qed
  qed
qed

definition ahead :: "history \<Rightarrow> nat" where
  "ahead eh = remaining eh + (if elements (hs_next eh) = [] then 0 else 1)"

lemma nextDecisionEvents_remaining:
  assumes "nextDecisionEvents eh = ((None, b, ms), eh')"
  shows "remaining eh' + length (elements b) \<le> remaining eh"
proof -
  have "remaining (shrinkLoaded eh1) = remaining eh1" for eh1 by (simp add: remaining_def shrinkLoaded_def)
  then show ?thesis using assms orderEvents_remaining [of eh "[]" "[]"]
    by (auto simp: nextDecisionEvents_def elements_def [of "Some _"] split: if_splits option.splits prod.splits)
qed

lemma NextDecisionEvents_ahead:
  assumes n: "NextDecisionEvents eh = (d, eh')" and ok: "de_err d = None" and ne: "de_result d \<noteq> []"
  shows "ahead eh' < ahead eh"
proof -
  have next_only: "remaining (eh0\<lparr>hs_next := b\<rparr>) = remaining eh0" for eh0 b by (simp add: remaining_def)
  obtain err eh1 where ready: "(if hs_next eh = None
       then case nextDecisionEvents eh of ((err, nextEvents, _), eh) \<Rightarrow> (err, eh\<lparr>hs_next := nextEvents\<rparr>)
       else (None, eh)) = (err, eh1)" by force
  have err: "err = None" using n ok unfolding NextDecisionEvents_def ready by (cases err) auto
  have some: "elements (hs_next eh1) \<noteq> []"
    using n ne unfolding NextDecisionEvents_def ready err by (auto simp: Let_def split: if_splits prod.splits)
  have first: "remaining eh1 + 1 \<le> ahead eh"
  proof (cases "hs_next eh")
    case None
    then obtain b ms eh0 where "nextDecisionEvents eh = ((None, b, ms), eh0)" "eh1 = eh0\<lparr>hs_next := b\<rparr>"
      using ready err by (auto split: prod.splits)
    then show ?thesis using nextDecisionEvents_remaining [of eh b ms eh0] some
      by (cases "elements b") (auto simp: ahead_def next_only None elements_def [of None])
  next
    case (Some b)
    then show ?thesis using ready some by (auto simp: ahead_def)
  qed
  obtain b ms eh2 where s: "nextDecisionEvents eh1 = ((None, b, ms), eh2)" "eh' = eh2\<lparr>hs_next := b\<rparr>"
    using n ok some unfolding NextDecisionEvents_def ready err by (auto simp: Let_def split: prod.splits)
  show ?thesis using nextDecisionEvents_remaining [OF s(1)] first s(2)
    by (cases "elements b") (auto simp: ahead_def next_only)
qed

function processBatches :: "workflowTaskHandlerImpl \<Rightarrow> outside \<Rightarrow> bool \<Rightarrow> bool \<Rightarrow> history \<Rightarrow>
    Decision list \<Rightarrow> HistoryEvent list \<Rightarrow> (taskError + Decision list \<times> HistoryEvent list) tgo" where
  "processBatches wth out skipReplayCheck isReplayTest h replayDecisions respondEvents =
     (case NextDecisionEvents h of (d, h') \<Rightarrow> (case de_err d of
        Some f \<Rightarrow> go_bind (failure f) (\<lambda>e. go_return (Inl e))
      | None \<Rightarrow> if de_result d = [] then go_return (Inr (replayDecisions, respondEvents))
          else go_bind (processBatch wth out h' skipReplayCheck isReplayTest d) (\<lambda>(c, ds, es). case c of
              Failed e \<Rightarrow> go_return (Inl e)
            | Stop \<Rightarrow> go_return (Inr (replayDecisions @ ds, respondEvents @ es))
            | Proceed \<Rightarrow> processBatches wth out skipReplayCheck isReplayTest h'
                (replayDecisions @ ds) (respondEvents @ es))))"
  by pat_completeness auto
termination
  by (relation "measure (\<lambda>(_, _, _, _, h, _, _). ahead h)") (simp_all add: NextDecisionEvents_ahead [OF sym])

declare processBatches.simps [simp del]

section \<open>Answering the task\<close>

fun sendUnstarted :: "outside \<Rightarrow> (string \<times> localActivityTask) list \<Rightarrow> string list \<Rightarrow> panicValue + string list" where
  "sendUnstarted out pendingLaTasks [] = Inr []"
| "sendUnstarted out pendingLaTasks (activityID # ids) = (case map_of pendingLaTasks activityID of
      None \<Rightarrow> Inl nilDereference
    | Some task \<Rightarrow> (case sendUnstarted out pendingLaTasks ids of
        Inl p \<Rightarrow> Inl p
      | Inr unstarted \<Rightarrow> Inr (if out_sendTask out task then unstarted else activityID # unstarted)))"

definition processQuery :: "outside \<Rightarrow> WorkflowQuery \<Rightarrow> (string + nbytes) tgo" where
  "processQuery out q = inHandler (ProcessQuery (out_queryStackTrace out) (out_knownQueryTypes out)
     (out_sessions out) (out_queryHandler out) (get_str (wq_QueryType q)) (wq_QueryArgs q))"

fun processQueries :: "outside \<Rightarrow> (string \<times> WorkflowQuery) list \<Rightarrow> (string \<times> (string + nbytes)) list tgo" where
  "processQueries out [] = go_return []"
| "processQueries out ((queryID, q) # queries) = go_bind (processQuery out q) (\<lambda>r.
     go_bind (processQueries out queries) (\<lambda>rs. go_return ((queryID, r) # rs)))"

definition errorDetails :: "DataConverter \<Rightarrow> goError \<Rightarrow> (string \<times> nbytes) tgo" where
  "errorDetails dc err = (case getErrorDetails err dc of
      Inl p \<Rightarrow> go_panic (StringPanic p) | Inr rd \<Rightarrow> go_return rd)"

definition errorText :: "goError \<Rightarrow> string tgo" where
  "errorText err = (case goError_Error err of Inl p \<Rightarrow> go_panic (RuntimePanic p) | Inr text \<Rightarrow> go_return text)"

definition continueAsNewAttributes :: "WorkflowInfo \<Rightarrow> ContinueAsNewWorkflowExecutionDecisionAttributes \<Rightarrow>
    ContinueAsNewWorkflowExecutionDecisionAttributes" where
  "continueAsNewAttributes info params = params\<lparr>can_Memo := wi_Memo info,
     can_SearchAttributes := wi_SearchAttributes info, can_RetryPolicy := wi_RetryPolicy info,
     can_CronSchedule := (case can_CronSchedule params of None \<Rightarrow> None
       | Some s \<Rightarrow> if length s > 0 then Some s else None)\<rparr>"

text \<open>The decision that closes the workflow.\<close>

definition closeDecision :: "workflowTaskHandlerImpl \<Rightarrow> Decision option tgo" where
  "closeDecision wth = go_bind (go_get ts_context) (\<lambda>w. case wc_err w of
      Some (ContinueAsNewError params) \<Rightarrow>
        go_return (Some (ContinueAsNewWorkflowExecution (continueAsNewAttributes (workflowInfoOf w) params)))
    | Some err \<Rightarrow> go_bind (errorDetails (wth_dataConverter wth) err) (\<lambda>(reason, details). go_return (Some
        (if IsCanceledError err \<or> err = NilError StructCanceledError
         then CancelWorkflowExecution (bytesOf details)
         else FailWorkflowExecution (Some reason) (bytesOf details))))
    | None \<Rightarrow> go_return (if wc_isWorkflowCompleted w
        then Some (CompleteWorkflowExecution (bytesOf (wc_result w))) else None))"

definition errorToFailDecisionTask :: "workflowTaskHandlerImpl \<Rightarrow> outside \<Rightarrow> nbytes \<Rightarrow> goError \<Rightarrow> completeRequest tgo" where
  "errorToFailDecisionTask wth out taskToken err = go_bind (errorDetails (out_defaultConverter out) err)
     (\<lambda>(_, details). go_return (RespondDecisionTaskFailed taskToken details (wth_identity wth) (out_binaryChecksum out)))"

fun isPanicError :: "goError \<Rightarrow> bool" where
  "isPanicError (PanicError _ _) = True"
| "isPanicError (NilError StructPanicError) = True"
| "isPanicError _ = False"

definition answerQuery :: "outside \<Rightarrow> PollForDecisionTaskResponse \<Rightarrow> WorkflowQuery \<Rightarrow> completeRequest tgo" where
  "answerQuery out task q = go_bind (go_get (\<lambda>s. (case wc_err (ts_context s) of Some e \<Rightarrow> if isPanicError e then Some e else None | None \<Rightarrow> None))) (\<lambda>panicErr.
     case panicErr of
       Some err \<Rightarrow> go_bind (errorText err) (\<lambda>text.
         go_return (RespondQueryTaskCompleted (pt_TaskToken task) (Inl (''Workflow panic: '' @ text))))
     | None \<Rightarrow> go_bind (processQuery out q) (\<lambda>r. go_return (RespondQueryTaskCompleted (pt_TaskToken task) r)))"

definition answerDecisionTask :: "workflowTaskHandlerImpl \<Rightarrow> outside \<Rightarrow> PollForDecisionTaskResponse \<Rightarrow>
    Decision list \<Rightarrow> bool \<Rightarrow> completeRequest tgo" where
  "answerDecisionTask wth out task ds forceNewDecision =
     go_bind (closeDecision wth) (\<lambda>close.
     go_bind (processQueries out (pt_Queries task)) (\<lambda>queryResults.
     go_return (RespondDecisionTaskCompleted
       \<lparr>rc_TaskToken = pt_TaskToken task,
        rc_Decisions = (case close of None \<Rightarrow> ds | Some d \<Rightarrow> ds @ [d]),
        rc_Identity = Some (wth_identity wth), rc_ReturnNewDecisionTask = Some True,
        rc_ForceCreateNewDecisionTask = Some (close = None \<and> forceNewDecision),
        rc_BinaryChecksum = Some (out_binaryChecksum out), rc_QueryResults = queryResults\<rparr>)))"

definition handlerCompleteWorkflow :: "workflowTaskHandlerImpl \<Rightarrow> outside \<Rightarrow> PollForDecisionTaskResponse \<Rightarrow>
    Decision list \<Rightarrow> bool \<Rightarrow> completeRequest tgo" where
  "handlerCompleteWorkflow wth out task ds forceNewDecision = (case pt_Query task of
      Some q \<Rightarrow> answerQuery out task q
    | None \<Rightarrow> go_bind (go_get (\<lambda>s. wc_err (ts_context s))) (\<lambda>err. case err of
        Some (workflowPanicError v st) \<Rightarrow>
          errorToFailDecisionTask wth out (pt_TaskToken task) (workflowPanicError v st)
      | _ \<Rightarrow> answerDecisionTask wth out task ds forceNewDecision))"

definition startLocalActivities :: "outside \<Rightarrow> unit tgo" where
  "startLocalActivities out = inHandler (\<lambda>env. case sendUnstarted out (env_pendingLaTasks env) (env_unstartedLaTasks env) of
      Inl p \<Rightarrow> (Inl p, env)
    | Inr unstarted \<Rightarrow> (Inr (), env\<lparr>env_unstartedLaTasks := unstarted\<rparr>))"

definition respond :: "workflowTaskHandlerImpl \<Rightarrow> outside \<Rightarrow> PollForDecisionTaskResponse \<Rightarrow> bool \<Rightarrow> completeRequest option tgo" where
  "respond wth out task waitLocalActivities =
     go_bind (inHandler (lift (getDecisions True))) (\<lambda>eventDecisions.
     go_then (onContext (\<lambda>w. w\<lparr>wc_newDecisions := wc_newDecisions w @ eventDecisions\<rparr>))
     (go_bind (go_get (\<lambda>s. wc_newDecisions (ts_context s))) (\<lambda>newDecisions.
     go_bind (handlerCompleteWorkflow wth out task newDecisions (\<not> waitLocalActivities)) (\<lambda>request.
     go_then (onContext clearCurrentTask) (go_return (Some request))))))"

definition CompleteDecisionTask :: "workflowTaskHandlerImpl \<Rightarrow> outside \<Rightarrow> bool \<Rightarrow> completeRequest option tgo" where
  "CompleteDecisionTask wth out waitLocalActivities = go_bind (go_get (\<lambda>s. wc_currentDecisionTask (ts_context s)))
     (\<lambda>current. case current of
       None \<Rightarrow> go_return None
     | Some task \<Rightarrow>
       go_bind (go_get (\<lambda>s. hasPendingLocalActivityWork (ts_context s) \<and> wc_laTunnel (ts_context s))) (\<lambda>pending.
       if pending then go_then (startLocalActivities out)
         (if waitLocalActivities then go_return None else respond wth out task waitLocalActivities)
       else respond wth out task waitLocalActivities))"

section \<open>Processing a task\<close>

definition replayPreviousStartedEventID :: int where
  "replayPreviousStartedEventID = 2 ^ 63 - 1"

definition skipReplayCheck :: "PollForDecisionTaskResponse \<Rightarrow> bool" where
  "skipReplayCheck task = (pt_Query task \<noteq> None \<or> \<not> isFullHistory (pt_History task))"

definition matched :: "outside \<Rightarrow> Decision list \<Rightarrow> HistoryEvent list \<Rightarrow> goError option tgo" where
  "matched out replayDecisions respondEvents =
     (case matchReplayWithHistory (out_printers out) replayDecisions respondEvents of
        Inl p \<Rightarrow> go_panic p | Inr err \<Rightarrow> go_return err)"

text \<open>The comparison after an illegal state is for the log, and may panic as well.\<close>

definition nonDeterminism :: "outside \<Rightarrow> bool \<Rightarrow> bool \<Rightarrow> Decision list \<Rightarrow> HistoryEvent list \<Rightarrow> goError option tgo" where
  "nonDeterminism out skipCheck isReplayTest replayDecisions respondEvents = go_bind (go_get ts_context) (\<lambda>w.
     if \<not> skipCheck \<and> \<not> wc_isWorkflowCompleted w \<or> isReplayTest then matched out replayDecisions respondEvents
     else case getWorkflowPanicIfIllegaleStatePanic w of
         None \<Rightarrow> go_return None
       | Some panicErr \<Rightarrow> go_then (matched out replayDecisions respondEvents) (go_return (Some panicErr)))"

definition applyPolicy :: "workflowTaskHandlerImpl \<Rightarrow> goError \<Rightarrow> taskError option tgo" where
  "applyPolicy wth err = (case wth_nonDeterministicWorkflowPolicy wth of
      NonDeterministicWorkflowPolicyFailWorkflow \<Rightarrow> go_bind (errorText err) (\<lambda>text.
        case NewCustomError ''NonDeterministicWorkflowPolicyFailWorkflow'' [DetailValue (GoString text)] of
          Inl p \<Rightarrow> go_panic (StringPanic p)
        | Inr e \<Rightarrow> go_then (inHandler (Complete None (Some e))) (go_return None))
    | NonDeterministicWorkflowPolicyBlockWorkflow \<Rightarrow> go_return (Some (ErrorValue err))
    | OtherNonDeterministicWorkflowPolicy _ \<Rightarrow> go_panic (StringPanic ''unknown mismatched workflow history policy.''))"

definition finishTask :: "workflowTaskHandlerImpl \<Rightarrow> outside \<Rightarrow> bool \<Rightarrow> bool \<Rightarrow> Decision list \<Rightarrow> HistoryEvent list \<Rightarrow>
    (taskError + completeRequest option) tgo" where
  "finishTask wth out skipCheck isReplayTest replayDecisions respondEvents =
     go_bind (nonDeterminism out skipCheck isReplayTest replayDecisions respondEvents) (\<lambda>nonDeterministicErr.
     go_bind (case nonDeterministicErr of None \<Rightarrow> go_return None | Some err \<Rightarrow> applyPolicy wth err) (\<lambda>blocked.
     case blocked of
       Some err \<Rightarrow> go_return (Inl err)
     | None \<Rightarrow> go_bind (CompleteDecisionTask wth out True) (\<lambda>request. go_return (Inr request))))"

definition ProcessWorkflowTask :: "workflowTaskHandlerImpl \<Rightarrow> outside \<Rightarrow> (taskError + completeRequest option) tgo" where
  "ProcessWorkflowTask wth out =
     go_then (go_bind (go_get ts_task) (\<lambda>task. onContext (updateInfo (\<lambda>i.
       i\<lparr>wi_HistoryBytesServer := get_int (pt_TotalHistoryBytes task),
         wi_HistoryCount := get_int (pt_NextEventId task) - 1\<rparr>))))
     (go_bind (ResetIfStale wth) (\<lambda>err. case err of
        Some e \<Rightarrow> go_return (Inl e)
      | None \<Rightarrow> go_bind (go_get (\<lambda>s. (ts_task s, ts_historyIterator s))) (\<lambda>(task, iterator).
          go_then (onContext (SetCurrentTask task))
          (let reorderedHistory = newHistory (pt_History task) (get_int (pt_PreviousStartedEventId task))
                 (get_int (pt_StartedEventId task)) iterator;
               skipCheck = skipReplayCheck task;
               isReplayTest = (get_int (pt_PreviousStartedEventId task) = replayPreviousStartedEventID) in
           go_bind (processBatches wth out skipCheck isReplayTest reorderedHistory [] []) (\<lambda>r. case r of
               Inl e \<Rightarrow> go_return (Inl e)
             | Inr (replayDecisions, respondEvents) \<Rightarrow>
                 finishTask wth out skipCheck isReplayTest replayDecisions respondEvents)))))"

text \<open>The result of a local activity; \<open>now\<close> is the time, and \<open>isDeadline\<close> whether the error is
  \<open>ErrDeadlineExceeded\<close>.\<close>

definition ProcessLocalActivityResultOfTask :: "workflowTaskHandlerImpl \<Rightarrow> outside \<Rightarrow> int \<Rightarrow> bool \<Rightarrow> string \<Rightarrow>
    localActivityResult \<Rightarrow> (taskError + completeRequest option) tgo" where
  "ProcessLocalActivityResultOfTask wth out now isDeadline stackTrace lar =
     go_bind (go_get (\<lambda>s. GetDecisionTimeout (ts_context s))) (\<lambda>timeout.
     case retryLocalActivity (out_pow out) (out_overflow out) (out_defaultConverter out) isDeadline timeout lar now of
       Inl p \<Rightarrow> go_panic (StringPanic p)
     | Inr (RetryAfter _) \<Rightarrow> go_return (Inr None)
     | Inr (ReportResult lar) \<Rightarrow>
         go_bind (inHandler (ProcessLocalActivityResult (wth_registry wth) now stackTrace lar)) (\<lambda>err. case err of
           Some text \<Rightarrow> go_return (Inl (TextError text))
         | None \<Rightarrow> go_bind (CompleteDecisionTask wth out True) (\<lambda>request. go_return (Inr request))))"

section \<open>Invariants of a context\<close>

text \<open>
  The interface of the event handler to the context that owns it: a property of event handlers
  that every call of the context on its handler keeps, with what it says of the shared
  information.  Inside, it is kept by the processing of whole tasks.
\<close>

definition context_holds :: "(workflowEnv \<Rightarrow> bool) \<Rightarrow> (WorkflowInfo \<Rightarrow> bool) \<Rightarrow> workflowExecutionContextImpl \<Rightarrow> bool" where
  "context_holds E P w = (case wc_eventHandler w of None \<Rightarrow> P (wc_workflowInfo w) | Some env \<Rightarrow> E env)"

lemma context_holds_task [simp]:
  "context_holds E P (clearCurrentTask w) = context_holds E P w"
  "context_holds E P (SetCurrentTask task w) = context_holds E P w"
  "context_holds E P (w\<lparr>wc_newDecisions := ds\<rparr>) = context_holds E P w"
  by (simp_all add: context_holds_def clearCurrentTask_def SetCurrentTask_def Let_def split: option.split)

lemma completion_handler [simp]:
  "wc_eventHandler (fold completion cs w) = wc_eventHandler w"
  "wc_workflowInfo (fold completion cs w) = wc_workflowInfo w"
proof -
  have "wc_eventHandler (fold completion cs w) = wc_eventHandler w \<and>
    wc_workflowInfo (fold completion cs w) = wc_workflowInfo w"
  proof (induction cs arbitrary: w)
    case (Cons c cs)
    then show ?case by (cases c) (simp_all add: completeWorkflow_def)
  qed simp
  then show "wc_eventHandler (fold completion cs w) = wc_eventHandler w"
    "wc_workflowInfo (fold completion cs w) = wc_workflowInfo w" by simp_all
qed

lemma ProcessQuery_state [simp]: "snd (ProcessQuery st known sessions handler t args env) = env"
  by (simp add: ProcessQuery_def encodeArg_def getOpenSessions_def go_bind_def go_simps split: sum.split)

lemma inHandler_pure:
  assumes "wc_eventHandler (ts_context s) = Some env" and "m env = (r, env)"
  shows "inHandler m s = (r, s)"
proof -
  have "(ts_context s)\<lparr>wc_eventHandler := Some env\<rparr> = ts_context s"
    using assms(1) by (cases "ts_context s") simp
  then show ?thesis using assms by (simp add: inHandler_def)
qed

lemma processQuery_state: "processQuery out q s = (r, s') \<Longrightarrow> s' = s"
proof (cases "wc_eventHandler (ts_context s)")
  case (Some env)
  assume q: "processQuery out q s = (r, s')"
  define m where "m = ProcessQuery (out_queryStackTrace out) (out_knownQueryTypes out) (out_sessions out)
      (out_queryHandler out) (get_str (wq_QueryType q)) (wq_QueryArgs q)"
  have "m env = (fst (m env), env)" using ProcessQuery_state by (metis m_def prod.collapse)
  from inHandler_pure [of s env m, OF Some this] show ?thesis using q by (simp add: processQuery_def m_def [symmetric])
qed (simp add: processQuery_def inHandler_def)

lemma processQueries_state: "processQueries out qs s = (r, s') \<Longrightarrow> s' = s"
proof (induction qs arbitrary: r)
  case (Cons q qs)
  then show ?case
    by (cases q) (fastforce simp: go_bind_def go_return_def dest: processQuery_state split: prod.splits sum.splits)
qed (simp add: go_return_def)

lemma keep_control [go_keeps]:
  "(\<And>e. go_inv I (f e)) \<Longrightarrow> go_inv I m \<Longrightarrow> go_inv I k \<Longrightarrow>
   go_inv I (case c of Failed e \<Rightarrow> f e | Stop \<Rightarrow> m | Proceed \<Rightarrow> k)"
  by (cases c) simp_all

locale context_invariant =
  fixes wth :: workflowTaskHandlerImpl and E :: "workflowEnv \<Rightarrow> bool" and P :: "WorkflowInfo \<Rightarrow> bool"
  assumes fresh_handler: "P info \<Longrightarrow> E (newWorkflowExecutionEventHandler info dc)"
    and info_of: "E env \<Longrightarrow> P (env_workflowInfo env)"
    and informed: "E env \<Longrightarrow> P info \<Longrightarrow> E (env\<lparr>env_workflowInfo := info\<rparr>)"
    and processed: "E env \<Longrightarrow> E (snd (ProcessEvent (wth_registry wth) now st e isReplay isLast env))"
    and local_result: "E env \<Longrightarrow> E (snd (ProcessLocalActivityResult (wth_registry wth) now st lar env))"
    and collected: "E env \<Longrightarrow> E (snd (lift (getDecisions b) env))"
    and started: "E env \<Longrightarrow> E (env\<lparr>env_unstartedLaTasks := ids\<rparr>)"
    and completed: "E env \<Longrightarrow> E (snd (Complete result err env))"
    and checksum: "P info \<Longrightarrow> P (info\<lparr>wi_BinaryChecksum := c\<rparr>)"
    and counted: "P info \<Longrightarrow> P (info\<lparr>wi_HistoryBytesServer := m, wi_HistoryCount := n\<rparr>)"
begin

abbreviation ok :: "workflowExecutionContextImpl \<Rightarrow> bool" where
  "ok \<equiv> context_holds E P"

abbreviation task_ok :: "taskState \<Rightarrow> bool" where
  "task_ok \<equiv> \<lambda>s. ok (ts_context s)"

lemma ok_info: "ok w \<Longrightarrow> P (workflowInfoOf w)"
  by (auto simp: context_holds_def workflowInfoOf_def info_of split: option.splits)

lemma ok_clear: "ok w \<Longrightarrow> ok (clearState w)"
  using ok_info by (simp add: context_holds_def clearState_def)

lemma ok_create: "ok w \<Longrightarrow> ok (createEventHandler wth w)"
  using ok_info by (simp add: context_holds_def createEventHandler_def clearState_def Let_def fresh_handler)

lemma ok_update: "ok w \<Longrightarrow> (\<And>i. P i \<Longrightarrow> P (f i)) \<Longrightarrow> ok (updateInfo f w)"
  by (auto simp: context_holds_def updateInfo_def informed info_of split: option.splits)

lemma keep_onContext: "(\<And>w. ok w \<Longrightarrow> ok (f w)) \<Longrightarrow> go_inv task_ok (onContext f)"
  unfolding onContext_def by (rule go_inv_modify) simp

lemma keep_frame_task: "(\<And>s. ts_context (f s) = ts_context s) \<Longrightarrow> go_inv task_ok (go_modify f)"
  by (rule go_inv_modify) simp

lemma keep_inHandler:
  assumes "\<And>env. E env \<Longrightarrow> E (snd (m env))"
  shows "go_inv task_ok (inHandler m)"
proof (rule go_invI)
  fix s assume s: "task_ok s"
  show "task_ok (snd (inHandler m s))"
  proof (cases "wc_eventHandler (ts_context s)")
    case (Some env)
    then have "E (snd (m env))" using s assms by (simp add: context_holds_def)
    then show ?thesis using Some
      by (auto simp: inHandler_def context_holds_def split: prod.split)
  qed (use s in \<open>simp add: inHandler_def\<close>)
qed

lemma keep_reset [go_keeps]:
  "go_inv task_ok (failure f)"
  "go_inv task_ok resetHistory"
  "go_inv task_ok (resetStateIfDestroyed wth)"
  "go_inv task_ok (ResetIfStale wth)"
proof -
  show f [go_keeps]: "go_inv task_ok (failure f)" for f
    by (cases f) (simp_all add: failure_def go_keeps)
  show r [go_keeps]: "go_inv task_ok resetHistory"
    unfolding resetHistory_def by (intro go_keeps keep_frame_task) simp_all
  show s [go_keeps]: "go_inv task_ok (resetStateIfDestroyed wth)"
    unfolding resetStateIfDestroyed_def by (intro go_keeps keep_onContext ok_create)
  show "go_inv task_ok (ResetIfStale wth)"
    unfolding ResetIfStale_def by (intro go_keeps keep_onContext ok_clear)
qed

lemma keep_feed [go_keeps]: "go_inv task_ok (feed wth out e isReplay isLast)"
  unfolding feed_def by (intro go_keeps keep_inHandler processed)

lemma keep_processMarkers [go_keeps]: "go_inv task_ok (processMarkers wth out b ms)"
  by (induction ms) (simp_all add: go_keeps)

lemma keep_processEvents [go_keeps]:
  "go_inv task_ok (processEvents wth out h skip rs es)"
  by (induction es arbitrary: rs) (auto simp: Let_def intro!: go_keeps)

lemma keep_collect [go_keeps]: "go_inv task_ok (inHandler (lift (getDecisions b)))"
  by (intro keep_inHandler collected)

lemma keep_processBatch [go_keeps]: "go_inv task_ok (processBatch wth out h skip test d)"
  unfolding processBatch_def setBinaryChecksum_def replayedDecisions_def Let_def
  by (intro go_keeps keep_onContext ok_update checksum counted)

lemma keep_processBatches [go_keeps]:
  "go_inv task_ok (processBatches wth out skip test h ds es)"
proof (induction "ahead h" arbitrary: h ds es rule: less_induct)
  case less
  obtain d h' where n: "NextDecisionEvents h = (d, h')" by force
  show ?case
  proof (cases "de_err d = None \<and> de_result d \<noteq> []")
    case True
    then have "go_inv task_ok (processBatches wth out skip test h' ds' es')" for ds' es'
      using less.hyps NextDecisionEvents_ahead [OF n] by blast
    then show ?thesis
      unfolding processBatches.simps [of _ _ _ _ h] n by (intro go_keeps) (simp_all add: go_keeps)
  next
    case False
    then show ?thesis
      unfolding processBatches.simps [of _ _ _ _ h] n by (auto intro!: go_keeps)
  qed
qed

lemma keep_query [go_keeps]:
  "go_inv task_ok (processQuery out q)"
  "go_inv task_ok (processQueries out qs)"
  by (metis go_invI prod.collapse processQuery_state, metis go_invI prod.collapse processQueries_state)

lemma keep_errors [go_keeps]:
  "go_inv task_ok (errorDetails dc err)"
  "go_inv task_ok (errorText err)"
  unfolding errorDetails_def errorText_def by (intro go_keeps)+

lemma keep_closeDecision [go_keeps]: "go_inv task_ok (closeDecision wth)"
  unfolding closeDecision_def by (auto intro!: go_keeps split: goError.split)

lemma keep_answers [go_keeps]:
  "go_inv task_ok (handlerCompleteWorkflow wth out task ds force)"
  unfolding handlerCompleteWorkflow_def answerQuery_def errorToFailDecisionTask_def answerDecisionTask_def
  by (auto intro!: go_keeps split: goError.split)

lemma keep_startLocalActivities [go_keeps]: "go_inv task_ok (startLocalActivities out)"
  unfolding startLocalActivities_def
  by (rule keep_inHandler) (auto split: sum.split intro: started)

lemma keep_CompleteDecisionTask [go_keeps]: "go_inv task_ok (CompleteDecisionTask wth out wait)"
  unfolding CompleteDecisionTask_def respond_def by (intro go_keeps keep_onContext) simp_all

lemma keep_finishTask [go_keeps]: "go_inv task_ok (finishTask wth out skip test ds es)"
  unfolding finishTask_def nonDeterminism_def matched_def applyPolicy_def
  by (auto intro!: go_keeps keep_inHandler completed split: NonDeterministicWorkflowPolicy.split)

lemma keep_ProcessWorkflowTask: "go_inv task_ok (ProcessWorkflowTask wth out)"
  unfolding ProcessWorkflowTask_def Let_def by (intro go_keeps keep_onContext ok_update checksum counted) simp_all

lemma keep_ProcessLocalActivityResultOfTask:
  "go_inv task_ok (ProcessLocalActivityResultOfTask wth out now isDeadline st lar)"
  unfolding ProcessLocalActivityResultOfTask_def
  by (auto intro!: go_keeps keep_inHandler local_result split: localRetry.split sum.split)

end

text \<open>Event handlers that can be reached, of one run.\<close>

definition reachable_in_run :: "workflowRegistry \<Rightarrow> string \<Rightarrow> workflowEnv \<Rightarrow> bool" where
  "reachable_in_run registry run env =
     (disciplined registry \<and> env_reachable registry env \<and> wi_RunID (env_workflowInfo env) = run)"

lemma stays_in_run:
  assumes "reachable_in_run registry run env"
    and "go_inv (progress (env_calls env) (env_currentReplayTime env) run) m"
    and "env_reachable registry (snd (m env))"
  shows "reachable_in_run registry run (snd (m env))"
proof -
  have "progress (env_calls env) (env_currentReplayTime env) run env"
    using assms(1) cb.coherent [OF reachable_cb_inv [of registry env]] by (simp add: progress_def reachable_in_run_def)
  from go_invD [OF assms(2) this] show ?thesis using assms by (simp add: progress_def reachable_in_run_def)
qed

interpretation reach: context_invariant wth "reachable_in_run (wth_registry wth) run"
  "\<lambda>i. disciplined (wth_registry wth) \<and> wi_RunID i = run" for wth run
proof (unfold_locales, goal_cases)
  case (4 env now st e isReplay isLast)
  then show ?case
    by (intro stays_in_run progress.keep_ProcessEvent) (auto simp: reachable_in_run_def intro: env_reachable.event)
next
  case (5 env now st lar)
  then show ?case
    by (intro stays_in_run progress.keep_ProcessLocalActivityResult)
      (auto simp: reachable_in_run_def intro: env_reachable.localResult)
next
  case (6 env b)
  then show ?case
    by (intro stays_in_run progress.collect_decisions) (auto simp: reachable_in_run_def intro: env_reachable.collect)
next
  case (8 env result err)
  then show ?case
    by (intro stays_in_run progress.simple_ops(1)) (auto simp: reachable_in_run_def intro: env_reachable.completed)
qed (auto simp: reachable_in_run_def newWorkflowExecutionEventHandler_def
      intro: env_reachable.start [unfolded newWorkflowExecutionEventHandler_def] env_reachable.informed env_reachable.started)

section \<open>The answer to a decision task\<close>

definition handler_ok :: "workflowRegistry \<Rightarrow> workflowExecutionContextImpl \<Rightarrow> bool" where
  "handler_ok registry w = (case wc_eventHandler w of None \<Rightarrow> True | Some env \<Rightarrow> env_reachable registry env)"

text \<open>What closes the workflow, from how it ended.\<close>

fun closing :: "bool \<Rightarrow> nbytes \<Rightarrow> goError option \<Rightarrow> Decision list \<Rightarrow> bool" where
  "closing completed result None ds =
     (ds = (if completed then [CompleteWorkflowExecution (bytesOf result)] else []))"
| "closing completed result (Some (ContinueAsNewError a)) ds = (\<exists>a'. ds = [ContinueAsNewWorkflowExecution a'])"
| "closing completed result (Some (workflowPanicError v st)) ds = False"
| "closing completed result (Some err) ds =
     (if IsCanceledError err \<or> err = NilError StructCanceledError then \<exists>d. ds = [CancelWorkflowExecution d]
      else \<exists>reason d. ds = [FailWorkflowExecution (Some reason) d])"

lemma closeDecision_closing:
  assumes "closeDecision wth s = (Inr c, s')" and "\<And>v st. wc_err (ts_context s) \<noteq> Some (workflowPanicError v st)"
  shows "s' = s \<and> closing (wc_isWorkflowCompleted (ts_context s)) (wc_result (ts_context s)) (wc_err (ts_context s))
    (case c of None \<Rightarrow> [] | Some d \<Rightarrow> [d])"
proof (cases "wc_err (ts_context s)")
  case None
  then show ?thesis using assms(1) by (auto simp: closeDecision_def go_simps)
next
  case (Some err)
  then show ?thesis using assms
    by (cases err) (auto simp: closeDecision_def errorDetails_def go_simps go_bind_eq_Inr IsCanceledError_def
        split: sum.splits if_splits)
qed

lemma inHandler_lift:
  assumes "wc_eventHandler (ts_context s) = Some env" and "m (env_decisionsHelper env) = (r, h)"
  shows "inHandler (lift m) s = (r, s\<lparr>ts_context := (ts_context s)\<lparr>wc_eventHandler := Some (env\<lparr>env_decisionsHelper := h\<rparr>)\<rparr>\<rparr>)"
  using assms by (simp add: inHandler_def lift_def)

definition pendingDecisions :: "workflowEnv \<Rightarrow> Decision list" where
  "pendingDecisions env = concat (map emitted (contents (env_decisionsHelper env)))"

lemma collect_pending:
  assumes "disciplined registry" and "env_reachable registry env" and env: "wc_eventHandler (ts_context s) = Some env"
  obtains env' where "inHandler (lift (getDecisions True)) s =
      (Inr (pendingDecisions env), s\<lparr>ts_context := (ts_context s)\<lparr>wc_eventHandler := Some env'\<rparr>\<rparr>)"
    "pendingDecisions env' = []"
proof -
  have "helper_inv (env_decisionsHelper env)"
    using cb.coherent [OF reachable_cb_inv [OF assms(1,2)]] .
  then obtain h where h: "getDecisions True (env_decisionsHelper env) = (Inr (pendingDecisions env), h)"
      "contents h = filter still_open (map (mark True) (contents (env_decisionsHelper env)))"
    using getDecisions_run pendingDecisions_def by metis
  have "concat (map emitted (contents h)) = []" by (auto simp: h(2) mark_def emitted_mark_sent)
  then show ?thesis
    using that [of "env\<lparr>env_decisionsHelper := h\<rparr>"] inHandler_lift [of s env "getDecisions True", OF env h(1)] by (simp add: pendingDecisions_def)
qed

lemma startLocalActivities_env:
  assumes "startLocalActivities out s = (Inr u, s')" and "wc_eventHandler (ts_context s) = Some env"
  shows "\<exists>ids. s' = s\<lparr>ts_context := (ts_context s)\<lparr>wc_eventHandler := Some (env\<lparr>env_unstartedLaTasks := ids\<rparr>)\<rparr>\<rparr>"
  using assms by (auto simp: startLocalActivities_def inHandler_def split: sum.splits)

lemma answer_completed:
  assumes "handlerCompleteWorkflow wth out task ds force s = (Inr (RespondDecisionTaskCompleted rc), s')"
  shows "s' = s \<and> (\<exists>c. rc_Decisions rc = ds @ c \<and> rc_TaskToken rc = pt_TaskToken task \<and>
    closing (wc_isWorkflowCompleted (ts_context s)) (wc_result (ts_context s)) (wc_err (ts_context s)) c \<and>
    rc_ForceCreateNewDecisionTask rc = Some (c = [] \<and> force))"
proof -
  have q: "pt_Query task = None"
    using assms by (auto simp: handlerCompleteWorkflow_def answerQuery_def go_bind_eq_Inr go_simps
        split: option.splits if_splits)
  have p: "wc_err (ts_context s) \<noteq> Some (workflowPanicError v st)" for v st
    using assms q by (auto simp: handlerCompleteWorkflow_def errorToFailDecisionTask_def go_bind_eq_Inr go_simps)
  have a: "answerDecisionTask wth out task ds force s = (Inr (RespondDecisionTaskCompleted rc), s')"
    using assms q p by (auto simp: handlerCompleteWorkflow_def go_simps split: option.splits goError.splits)
  then obtain c s1 qs where c: "closeDecision wth s = (Inr c, s1)" "processQueries out (pt_Queries task) s1 = (Inr qs, s')"
    "rc_Decisions rc = (case c of None \<Rightarrow> ds | Some d \<Rightarrow> ds @ [d])" "rc_TaskToken rc = pt_TaskToken task"
    "rc_ForceCreateNewDecisionTask rc = Some (c = None \<and> force)"
    by (auto simp: answerDecisionTask_def go_bind_eq_Inr go_simps)
  show ?thesis
    using closeDecision_closing [OF c(1) p] processQueries_state [OF c(2)] c
    by (cases c) auto
qed

definition answered :: "bool \<Rightarrow> taskState \<Rightarrow> RespondDecisionTaskCompletedRequest \<Rightarrow> taskState \<Rightarrow> bool" where
  "answered wait s rc s' = (\<exists>env env' close. wc_eventHandler (ts_context s) = Some env \<and>
    wc_eventHandler (ts_context s') = Some env' \<and>
    rc_Decisions rc = wc_newDecisions (ts_context s) @ pendingDecisions env @ close \<and>
    closing (wc_isWorkflowCompleted (ts_context s)) (wc_result (ts_context s)) (wc_err (ts_context s)) close \<and>
    rc_ForceCreateNewDecisionTask rc = Some (close = [] \<and> \<not> wait) \<and>
    pendingDecisions env' = [] \<and> wc_newDecisions (ts_context s') = [] \<and> wc_currentDecisionTask (ts_context s') = None)"

lemma respond_answered:
  assumes dis: "disciplined registry" and ok: "handler_ok registry (ts_context s)"
    and run: "respond wth out task wait s = (Inr (Some (RespondDecisionTaskCompleted rc)), s')"
  shows "answered wait s rc s'"
proof -
  obtain ds s2 s3 where c: "inHandler (lift (getDecisions True)) s = (Inr ds, s2)"
      and h: "handlerCompleteWorkflow wth out task (wc_newDecisions (ts_context s2) @ ds) (\<not> wait)
        (s2\<lparr>ts_context := (ts_context s2)\<lparr>wc_newDecisions := wc_newDecisions (ts_context s2) @ ds\<rparr>\<rparr>) =
          (Inr (RespondDecisionTaskCompleted rc), s3)" "s' = s3\<lparr>ts_context := clearCurrentTask (ts_context s3)\<rparr>"
    using run by (auto simp: respond_def onContext_def go_bind_eq_Inr go_then_eq_Inr go_simps)
  obtain env where env: "wc_eventHandler (ts_context s) = Some env"
    using c by (auto simp: inHandler_def split: option.splits)
  then have "env_reachable registry env" using ok by (simp add: handler_ok_def)
  from collect_pending [OF dis this env] obtain env' where s2: "ds = pendingDecisions env"
      "s2 = s\<lparr>ts_context := (ts_context s)\<lparr>wc_eventHandler := Some env'\<rparr>\<rparr>" "pendingDecisions env' = []"
    using c by (metis Pair_inject sum.inject(2))
  from answer_completed [OF h(1)] show ?thesis
    unfolding answered_def h(2) using env by (auto simp: s2 clearCurrentTask_def)
qed

text \<open>
  (C36) When a decision task is answered, the answer holds exactly the decisions that are
  pending in the event handler, after those collected before, and last the one decision that
  closes the workflow, if it has ended: complete, fail, cancel or continue as new, by the
  error it ended with.  A workflow that panicked is never answered like this.  No new task is
  forced when the workflow is closed, and nothing that was sent is pending any more.
\<close>

theorem decision_task_answer:
  assumes "disciplined registry" and "handler_ok registry (ts_context s)"
    and "CompleteDecisionTask wth out wait s = (Inr (Some (RespondDecisionTaskCompleted rc)), s')"
  shows "\<exists>env env' close. wc_eventHandler (ts_context s) = Some env \<and> wc_eventHandler (ts_context s') = Some env' \<and>
    rc_Decisions rc = wc_newDecisions (ts_context s) @ pendingDecisions env @ close \<and>
    closing (wc_isWorkflowCompleted (ts_context s)) (wc_result (ts_context s)) (wc_err (ts_context s)) close \<and>
    rc_ForceCreateNewDecisionTask rc = Some (close = [] \<and> \<not> wait) \<and>
    pendingDecisions env' = [] \<and> wc_newDecisions (ts_context s') = [] \<and> wc_currentDecisionTask (ts_context s') = None"
proof -
  obtain task s1 where run: "respond wth out task wait s1 = (Inr (Some (RespondDecisionTaskCompleted rc)), s')"
      "s1 = s \<or> startLocalActivities out s = (Inr (), s1)"
    using assms(3) by (auto simp: CompleteDecisionTask_def go_bind_eq_Inr go_then_eq_Inr go_simps
        split: option.splits if_splits)
  show ?thesis
  proof (cases "s1 = s")
    case True
    then show ?thesis using respond_answered [OF assms(1,2)] run(1) by (simp add: answered_def)
  next
    case False
    then have st: "startLocalActivities out s = (Inr (), s1)" using run(2) by simp
    then obtain env where env: "wc_eventHandler (ts_context s) = Some env"
      by (auto simp: startLocalActivities_def inHandler_def split: option.splits)
    from startLocalActivities_env [OF st env] obtain ids where
      s1: "s1 = s\<lparr>ts_context := (ts_context s)\<lparr>wc_eventHandler := Some (env\<lparr>env_unstartedLaTasks := ids\<rparr>)\<rparr>\<rparr>" by blast
    have "handler_ok registry (ts_context s1)"
      using assms(2) env by (simp add: s1 handler_ok_def env_reachable.started)
    from respond_answered [OF assms(1) this run(1)] env show ?thesis
      by (auto simp: answered_def pendingDecisions_def s1)
  qed
qed

text \<open>A workflow that completes when it starts, and its first decision task.\<close>

definition exDefinition :: workflowDefinition where
  "exDefinition = \<lparr>wd_Execute = (\<lambda>_ _. Complete (Some ''done'') None), wd_OnDecisionTaskStarted = go_return ()\<rparr>"

definition exRegistry :: workflowRegistry where
  "exRegistry t = (if t = ''wf'' then Inr exDefinition else Inl ''unknown workflow'')"

definition exHandler :: workflowTaskHandlerImpl where
  "exHandler = \<lparr>wth_domain = ''domain'', wth_identity = ''worker'', wth_ppMgr = None,
     wth_disableStickyExecution = False, wth_registry = exRegistry, wth_laTunnel = False,
     wth_nonDeterministicWorkflowPolicy = NonDeterministicWorkflowPolicyBlockWorkflow,
     wth_dataConverter = pairConverter\<rparr>"

definition exOutside :: outside where
  "exOutside = \<lparr>out_now = (\<lambda>_. 0), out_stackTrace = (\<lambda>_. []),
     out_printers = \<lparr>HistoryEventToString = (\<lambda>_. []), DecisionToString = (\<lambda>_. [])\<rparr>,
     out_binaryChecksum = ''sum'', out_sendTask = (\<lambda>_. True), out_queryStackTrace = [],
     out_knownQueryTypes = [], out_sessions = (\<lambda>_. GoStrings []), out_queryHandler = (\<lambda>_ _. Inl []),
     out_defaultConverter = pairConverter, out_pow = (\<lambda>b n. b ^ n), out_overflow = 0\<rparr>"

definition exStarted :: HistoryEvent where
  "exStarted = exEvent 1 (EventTypeWorkflowExecutionStarted (Some
     \<lparr>wes_Input = None, wes_ContinuedFailureDetails = None, wes_LastCompletionResult = None,
      wes_Memo = None, wes_Header = None, wes_SearchAttributes = None,
      wes_TaskList = Some \<lparr>tl_Name = Some ''tl'', tl_Kind = None\<rparr>, wes_OriginalExecutionRunId = None,
      wes_ExecutionStartToCloseTimeoutSeconds = Some 60, wes_TaskStartToCloseTimeoutSeconds = Some 10,
      wes_Attempt = None, wes_CronSchedule = None, wes_ContinuedExecutionRunId = None,
      wes_ParentWorkflowDomain = None, wes_ParentWorkflowExecution = None, wes_RetryPolicy = None\<rparr>))"

definition exTask :: PollForDecisionTaskResponse where
  "exTask = \<lparr>pt_TaskToken = Some ''token'', pt_WorkflowExecution = Some \<lparr>we_WorkflowId = Some ''id'', we_RunId = Some ''run''\<rparr>,
     pt_WorkflowType = Some ''wf'', pt_PreviousStartedEventId = None, pt_StartedEventId = Some 3,
     pt_NextEventId = Some 4, pt_TotalHistoryBytes = None,
     pt_History = [exStarted, exEvent 2 EventTypeDecisionTaskScheduled, exEvent 3 (EventTypeDecisionTaskStarted None)],
     pt_Query = None, pt_Queries = []\<rparr>"

definition exContext :: workflowExecutionContextImpl where
  "exContext = (case createWorkflowContext exHandler exTask of Inr (Inr w) \<Rightarrow> w)"

definition exState :: taskState where
  "exState = snd (feed exHandler exOutside exStarted False True \<lparr>ts_context = SetCurrentTask exTask exContext,
     ts_task = exTask, ts_historyIterator = None\<rparr>)"

lemma exRegistry_disciplined: "disciplined exRegistry"
  by (auto simp: disciplined_def exRegistry_def exDefinition_def
      intro: workflow_code.intros workflow_code.completes [of go_return, simplified])

lemma exContext_run: "context_holds (reachable_in_run exRegistry ''run'')
    (\<lambda>i. disciplined exRegistry \<and> wi_RunID i = ''run'') exContext"
  using exRegistry_disciplined
  by (simp add: exContext_def createWorkflowContext_def exTask_def exStarted_def exEvent_def runIdOf_def
      newWorkflowExecutionContext_def context_holds_def createEventHandler_def clearState_def workflowInfoOf_def Let_def
      reachable_in_run_def env_reachable.start field_def) (simp add: newWorkflowExecutionEventHandler_def)

lemma exState_ok: "handler_ok exRegistry (ts_context exState)"
proof -
  have "context_holds (reachable_in_run exRegistry ''run'') (\<lambda>i. disciplined exRegistry \<and> wi_RunID i = ''run'')
      (ts_context exState)"
    unfolding exState_def
    using go_invD [OF reach.keep_feed, of exHandler "''run''"] exContext_run by (simp add: exHandler_def)
  then show ?thesis
    by (auto simp: handler_ok_def context_holds_def reachable_in_run_def split: option.splits)
qed

theorem decision_task_answer_witness:
  "disciplined exRegistry \<and> handler_ok exRegistry (ts_context exState) \<and>
   (\<exists>rc s'. CompleteDecisionTask exHandler exOutside True exState = (Inr (Some (RespondDecisionTaskCompleted rc)), s') \<and>
     rc_Decisions rc = [CompleteWorkflowExecution ''done''] \<and>
     (\<exists>env'. wc_eventHandler (ts_context s') = Some env' \<and> pendingDecisions env' = []))"
proof -
  define rc where "rc = \<lparr>rc_TaskToken = Some ''token'', rc_Decisions = [CompleteWorkflowExecution ''done''],
    rc_Identity = Some ''worker'', rc_ReturnNewDecisionTask = Some True, rc_ForceCreateNewDecisionTask = Some False,
    rc_BinaryChecksum = Some ''sum'', rc_QueryResults = []\<rparr>"
  have "fst (CompleteDecisionTask exHandler exOutside True exState) = Inr (Some (RespondDecisionTaskCompleted rc))"
    unfolding rc_def by code_simp
  then obtain s' where run: "CompleteDecisionTask exHandler exOutside True exState =
      (Inr (Some (RespondDecisionTaskCompleted rc)), s')" by (metis prod.collapse)
  have "rc_Decisions rc = [CompleteWorkflowExecution ''done'']" by (simp add: rc_def)
  then show ?thesis
    using decision_task_answer [OF exRegistry_disciplined exState_ok run] exRegistry_disciplined exState_ok run by blast
qed

end
