(* ===== verification/Sticky_Cache.thy ===== *)
theory Sticky_Cache
  imports Workflow_Task Lru_Cache
begin

text \<open>
  The worker's cache of workflow executions and the handler of decision tasks, from
  \<open>src/internal/internal_task_handlers.go\<close>: a task finds or creates the context of its run,
  locks it, is processed until it can be answered, and unlocks it again; contexts that are
  pushed out of the cache are cleared later, by a goroutine of their own.

  Contexts are objects in a heap, which the cache refers to.  A task is served in two steps,
  between which others may take place: looking up its context in the cache, and all that is
  done while the context is locked.
\<close>

section \<open>State\<close>

record workerState =
  wk_cache :: "nat lru"
  wk_contexts :: "workflowExecutionContextImpl list"
  wk_resetStickiness :: "(string \<times> string \<times> string) list" \<comment> \<open>domain, workflow and run\<close>

definition getWorkflowCache :: "int \<Rightarrow> nat lru" where
  "getWorkflowCache stickyCacheSize = New stickyCacheSize
     (Some \<lparr>o_TTL = 0, o_Pin = False, o_RemovedFunc = True\<rparr>)"

definition getWorkflowContext :: "int \<Rightarrow> string \<Rightarrow> workerState \<Rightarrow> nat option \<times> workerState" where
  "getWorkflowContext now runID st = (case Get now runID (wk_cache st) of (r, c) \<Rightarrow> (r, st\<lparr>wk_cache := c\<rparr>))"

definition putWorkflowContext :: "int \<Rightarrow> string \<Rightarrow> nat \<Rightarrow> workerState \<Rightarrow> (string + nat) \<times> workerState" where
  "putWorkflowContext now runID wc st =
     (case PutIfNotExist now runID wc (wk_cache st) of (r, c) \<Rightarrow> (r, st\<lparr>wk_cache := c\<rparr>))"

definition removeWorkflowContext :: "string \<Rightarrow> workerState \<Rightarrow> workerState" where
  "removeWorkflowContext runID st = st\<lparr>wk_cache := Delete runID (wk_cache st)\<rparr>"

definition updateContext :: "nat \<Rightarrow> (workflowExecutionContextImpl \<Rightarrow> workflowExecutionContextImpl) \<Rightarrow> workerState \<Rightarrow> workerState" where
  "updateContext r f st = st\<lparr>wk_contexts := (wk_contexts st)[r := f (wk_contexts st ! r)]\<rparr>"

definition runOf :: "workflowExecutionContextImpl \<Rightarrow> string" where
  "runOf w = wi_RunID (workflowInfoOf w)"

section \<open>Unlocking and eviction\<close>

definition Unlock :: "workflowTaskHandlerImpl \<Rightarrow> taskError option \<Rightarrow> nat \<Rightarrow> workerState \<Rightarrow> workerState" where
  "Unlock wth err r st = (let w = wk_contexts st ! r; cached = Exist (runOf w) (wk_cache st) in
     if err \<noteq> None \<or> wc_err w \<noteq> None \<or> wc_isWorkflowCompleted w \<or>
        (wth_disableStickyExecution wth \<and> \<not> hasPendingLocalActivityWork w)
     then if cached then removeWorkflowContext (runOf w) st else updateContext r clearState st
     else if \<not> cached then updateContext r clearState st else st)"

definition queueResetStickinessTask :: "workflowExecutionContextImpl \<Rightarrow> workerState \<Rightarrow> workerState" where
  "queueResetStickinessTask w st = (if wc_laTunnel w
     then st\<lparr>wk_resetStickiness := wk_resetStickiness st @
       [(wi_Domain (workflowInfoOf w), wi_ID (workflowInfoOf w), wi_RunID (workflowInfoOf w))]\<rparr>
     else st)"

definition onEviction :: "nat \<Rightarrow> workerState \<Rightarrow> workerState" where
  "onEviction r st = (let w = wk_contexts st ! r in
     updateContext r clearState (if shouldResetStickyOnEviction w then queueResetStickinessTask w st else st))"

section \<open>Finding the context of a task\<close>

record servedTask =
  sv_context :: nat
  sv_created :: bool
  sv_task :: PollForDecisionTaskResponse
  sv_historyIterator :: "historyIteratorImpl option"

definition taskRun :: "PollForDecisionTaskResponse \<Rightarrow> string" where
  "taskRun task = runIdOf (pt_WorkflowExecution task)"

definition checkTask :: "PollForDecisionTaskResponse \<Rightarrow> taskError option" where
  "checkTask task =
     (if pt_Query task = None \<and> length (pt_History task) = 0 then Some (TextError ''nil or empty history'')
      else if pt_Query task \<noteq> None \<and> length (pt_Queries task) \<noteq> 0
      then Some (TextError ''invalid query decision task'') else None)"

text \<open>The history of a task whose context is not cached, from its beginning.\<close>

definition wholeHistory :: "PollForDecisionTaskResponse \<Rightarrow> historyIteratorImpl option \<Rightarrow>
    panicValue + taskError + PollForDecisionTaskResponse \<times> historyIteratorImpl option" where
  "wholeHistory task iterator = (if isFullHistory (pt_History task) then Inr (Inr (task, iterator))
     else case iterator of
       None \<Rightarrow> Inl nilDereference
     | Some it \<Rightarrow> (case GetNextPage (ResetIterator it) of
         (Inl (HistoryError e), _) \<Rightarrow> Inr (Inl (TextError e))
       | (Inl (HistoryPanic p), _) \<Rightarrow> Inl (RuntimePanic p)
       | (Inr firstPageHistory, it') \<Rightarrow> Inr (Inr (task\<lparr>pt_History := firstPageHistory\<rparr>, Some it'))))"

definition createContext :: "workflowTaskHandlerImpl \<Rightarrow> int \<Rightarrow> PollForDecisionTaskResponse \<Rightarrow> historyIteratorImpl option \<Rightarrow>
    workerState \<Rightarrow> (panicValue + taskError + servedTask) \<times> workerState" where
  "createContext wth now task iterator st = (case wholeHistory task iterator of
      Inl p \<Rightarrow> (Inl p, st)
    | Inr (Inl e) \<Rightarrow> (Inr (Inl e), st)
    | Inr (Inr (task, iterator)) \<Rightarrow> (case createWorkflowContext wth task of
        Inl p \<Rightarrow> (Inl p, st)
      | Inr (Inl e) \<Rightarrow> (Inr (Inl e), st)
      | Inr (Inr w) \<Rightarrow>
          let r = length (wk_contexts st); st = st\<lparr>wk_contexts := wk_contexts st @ [w]\<rparr>;
              served = \<lparr>sv_context = r, sv_created = True, sv_task = task, sv_historyIterator = iterator\<rparr> in
          if \<not> wth_disableStickyExecution wth \<and> pt_Query task = None
          then case putWorkflowContext now (taskRun task) r st of
              (Inl _, st) \<Rightarrow> (Inl nilDereference, st)
            | (Inr existing, st) \<Rightarrow> (Inr (Inr (served\<lparr>sv_context := existing\<rparr>)), st)
          else (Inr (Inr served), st)))"

text \<open>A query that brings the whole history does not look for a context.\<close>

definition lookupContext :: "int \<Rightarrow> PollForDecisionTaskResponse \<Rightarrow> workerState \<Rightarrow> nat option \<times> workerState" where
  "lookupContext now task st = (if pt_Query task = None \<or> \<not> isFullHistory (pt_History task)
     then getWorkflowContext now (taskRun task) st else (None, st))"

definition foundContext :: "nat \<Rightarrow> PollForDecisionTaskResponse \<Rightarrow> historyIteratorImpl option \<Rightarrow> servedTask" where
  "foundContext r task iterator = \<lparr>sv_context = r, sv_created = False, sv_task = task, sv_historyIterator = iterator\<rparr>"

definition findContext :: "workflowTaskHandlerImpl \<Rightarrow> int \<Rightarrow> PollForDecisionTaskResponse \<Rightarrow> historyIteratorImpl option \<Rightarrow>
    workerState \<Rightarrow> (panicValue + taskError + servedTask) \<times> workerState" where
  "findContext wth now task iterator st = (case checkTask task of
      Some e \<Rightarrow> (Inr (Inl e), st)
    | None \<Rightarrow> (case lookupContext now task st of
        (Some r, st) \<Rightarrow> (Inr (Inr (foundContext r task iterator)), st)
      | (None, st) \<Rightarrow> createContext wth now task iterator st))"

section \<open>Serving a task\<close>

text \<open>With the context locked: a stale context found in the cache is rebuilt, the error of which
  is ignored, and so is one that was cleared meanwhile.\<close>

definition enterContext :: "workflowTaskHandlerImpl \<Rightarrow> bool \<Rightarrow> taskError option tgo" where
  "enterContext wth created =
     go_then (go_bind (go_get (\<lambda>s. created \<or> pt_Query (ts_task s) \<noteq> None \<and> \<not> isFullHistory (pt_History (ts_task s))))
       (\<lambda>skip. if skip then go_return None else ResetIfStale wth))
     (go_bind (resetStateIfDestroyed wth) (\<lambda>err. case err of
        Some e \<Rightarrow> go_return (Some e)
      | None \<Rightarrow> go_then (onContext (\<lambda>w. w\<lparr>wc_laTunnel := wc_laTunnel w \<or> wth_laTunnel wth\<rparr>)) (go_return None)))"

text \<open>What the handler waits for while local activities are pending: the worker stops, the time
  to send a heartbeat has come, with what the service answers, or a result is there.\<close>

datatype laSignal =
    WorkerStops
  | DeadlinePasses "string + (PollForDecisionTaskResponse \<times> historyIteratorImpl option) option"
  | LocalActivityReady int bool string localActivityResult

fun waitLocalActivity :: "workflowTaskHandlerImpl \<Rightarrow> outside \<Rightarrow> laSignal list \<Rightarrow>
    (taskError + completeRequest option) option tgo" where
  "waitLocalActivity wth out [] = go_return None"
| "waitLocalActivity wth out (WorkerStops # signals) = go_bind (go_get (\<lambda>s. wc_laTunnel (ts_context s))) (\<lambda>tunnel.
     if tunnel then go_return (Some (Inl (decisionHeartbeatError
       ''worker is shutting down with a pending local activity; abandoning decision task for reschedule'')))
     else waitLocalActivity wth out signals)"
| "waitLocalActivity wth out (DeadlinePasses answer # signals) =
     go_then (CompleteDecisionTask wth out False) (case answer of
        Inl err \<Rightarrow> go_return (Some (Inl (decisionHeartbeatError (''error sending decision heartbeat '' @ err))))
      | Inr None \<Rightarrow> go_return (Some (Inr None))
      | Inr (Some (task, iterator)) \<Rightarrow>
          go_then (go_modify (\<lambda>s. s\<lparr>ts_task := task, ts_historyIterator := iterator\<rparr>))
          (go_bind (ProcessWorkflowTask wth out) (\<lambda>r.
             if r = Inr None then waitLocalActivity wth out signals else go_return (Some r))))"
| "waitLocalActivity wth out (LocalActivityReady now isDeadline stackTrace lar # signals) =
     go_bind (ProcessLocalActivityResultOfTask wth out now isDeadline stackTrace lar) (\<lambda>r.
       if r = Inr None then waitLocalActivity wth out signals else go_return (Some r))"

definition processTask :: "workflowTaskHandlerImpl \<Rightarrow> outside \<Rightarrow> laSignal list \<Rightarrow>
    (taskError + completeRequest option) option tgo" where
  "processTask wth out signals = go_bind (ProcessWorkflowTask wth out) (\<lambda>r.
     if r = Inr None then waitLocalActivity wth out signals else go_return (Some r))"

definition errorOf :: "taskError + 'a \<Rightarrow> taskError option" where
  "errorOf r = (case r of Inl e \<Rightarrow> Some e | Inr _ \<Rightarrow> None)"

text \<open>\<open>None\<close>: the task keeps waiting, or it panicked with the context locked for good.\<close>

definition serveTask :: "workflowTaskHandlerImpl \<Rightarrow> outside \<Rightarrow> laSignal list \<Rightarrow> servedTask \<Rightarrow> workerState \<Rightarrow>
    ((panicValue + taskError + completeRequest option) \<times> workerState) option" where
  "serveTask wth out signals served st = (let r = sv_context served in
     case enterContext wth (sv_created served) \<lparr>ts_context = wk_contexts st ! r, ts_task = sv_task served,
         ts_historyIterator = sv_historyIterator served\<rparr> of
       (Inl p, _) \<Rightarrow> None
     | (Inr (Some e), s) \<Rightarrow> Some (Inr (Inl e), Unlock wth (Some e) r (updateContext r (\<lambda>_. ts_context s) st))
     | (Inr None, s) \<Rightarrow> (case processTask wth out signals s of
         (Inr None, _) \<Rightarrow> None
       | (Inl p, s) \<Rightarrow> Some (Inl p, Unlock wth None r (updateContext r (\<lambda>_. ts_context s) st))
       | (Inr (Some result), s) \<Rightarrow> Some (Inr result,
           Unlock wth (errorOf result) r (updateContext r (\<lambda>_. ts_context s) st))))"

section \<open>What the worker asks of the cache\<close>

text \<open>
  The interface of the cache to the worker: a map from runs to contexts, and the contexts that
  were dropped from it and are still to be cleared.  A context that the cache holds leaves the
  map only into the list of dropped ones.
\<close>

locale run_store =
  fixes inv :: "'c \<Rightarrow> bool" and lookup :: "'c \<Rightarrow> string \<rightharpoonup> nat" and dropped :: "'c \<Rightarrow> nat list"
    and get :: "int \<Rightarrow> string \<Rightarrow> 'c \<Rightarrow> nat option \<times> 'c" and put :: "int \<Rightarrow> string \<Rightarrow> nat \<Rightarrow> 'c \<Rightarrow> (string + nat) \<times> 'c"
    and delete :: "string \<Rightarrow> 'c \<Rightarrow> 'c"
  assumes get_result: "inv c \<Longrightarrow> fst (get now k c) = lookup c k"
    and get_keeps: "inv c \<Longrightarrow> inv (snd (get now k c)) \<and> lookup (snd (get now k c)) = lookup c \<and>
      dropped (snd (get now k c)) = dropped c"
    and put_result: "inv c \<Longrightarrow> lookup c k = None \<Longrightarrow> fst (put now k r c) = Inr r \<and> inv (snd (put now k r c))"
    and put_lookup: "inv c \<Longrightarrow> lookup c k = None \<Longrightarrow>
      lookup (snd (put now k r c)) k' = ((lookup c)(k \<mapsto> r)) k' \<or> lookup (snd (put now k r c)) k' = None"
    and put_drops: "inv c \<Longrightarrow> lookup c k = None \<Longrightarrow> ((lookup c)(k \<mapsto> r)) k' = Some x \<Longrightarrow>
      lookup (snd (put now k r c)) k' = None \<Longrightarrow> x \<in> set (dropped (snd (put now k r c)))"
    and put_dropped: "inv c \<Longrightarrow> lookup c k = None \<Longrightarrow> set (dropped c) \<subseteq> set (dropped (snd (put now k r c))) \<and>
      set (dropped (snd (put now k r c))) \<subseteq> set (dropped c) \<union> ran ((lookup c)(k \<mapsto> r))"
    and put_present: "inv c \<Longrightarrow> lookup c k = Some x \<Longrightarrow> fst (put now k r c) = Inr x \<and> inv (snd (put now k r c)) \<and>
      lookup (snd (put now k r c)) = lookup c \<and> dropped (snd (put now k r c)) = dropped c"
    and delete_spec: "inv c \<Longrightarrow> inv (delete k c) \<and> lookup (delete k c) = (lookup c)(k := None) \<and>
      dropped (delete k c) = dropped c @ (case lookup c k of None \<Rightarrow> [] | Some r \<Rightarrow> [r])"
begin

definition held :: "'c \<Rightarrow> nat \<Rightarrow> bool" where
  "held c r = ((\<exists>k. lookup c k = Some r) \<or> r \<in> set (dropped c))"

lemma held_get: "inv c \<Longrightarrow> held (snd (get now k c)) r = held c r"
  using get_keeps by (simp add: held_def)

lemma held_put:
  assumes "inv c" and "lookup c k = None"
  shows "held (snd (put now k r c)) x \<longleftrightarrow> held c x \<or> x = r"
proof -
  define c' where "c' = snd (put now k r c)"
  define m where "m = (lookup c)(k \<mapsto> r)"
  have look: "lookup c' k' = m k' \<or> lookup c' k' = None" for k'
    using put_lookup [OF assms, of now r k'] by (simp only: c'_def m_def)
  have drops: "m k' = Some x \<Longrightarrow> lookup c' k' = None \<Longrightarrow> x \<in> set (dropped c')" for k'
    using put_drops [OF assms, of r k' x now] by (simp only: c'_def m_def)
  have drop: "set (dropped c) \<subseteq> set (dropped c')" "set (dropped c') \<subseteq> set (dropped c) \<union> ran m"
    using put_dropped [OF assms, of now r] by (simp_all only: c'_def m_def)
  have held: "held c' x \<longleftrightarrow> (\<exists>k'. m k' = Some x) \<or> x \<in> set (dropped c)"
  proof
    assume "held c' x"
    then consider k' where "lookup c' k' = Some x" | "x \<in> set (dropped c')" by (auto simp: held_def)
    then show "(\<exists>k'. m k' = Some x) \<or> x \<in> set (dropped c)"
    proof cases
      case (1 k')
      then show ?thesis using look [of k'] by auto
    next
      case 2
      then show ?thesis using drop(2) by (auto simp: ran_def)
    qed
  next
    assume "(\<exists>k'. m k' = Some x) \<or> x \<in> set (dropped c)"
    then show "held c' x" using look drops drop(1) unfolding held_def by (metis subsetD)
  qed
  have "m k = Some r" "\<And>k'. k' \<noteq> k \<Longrightarrow> m k' = lookup c k'" by (simp_all add: m_def)
  then have "(\<exists>k'. m k' = Some x) \<longleftrightarrow> (\<exists>k'. lookup c k' = Some x) \<or> x = r"
    using assms(2) by (metis option.distinct(1) option.inject)
  then show ?thesis using held by (auto simp: held_def [of c] c'_def)
qed

lemma held_delete:
  assumes "inv c"
  shows "held (delete k c) x = held c x"
proof (cases "lookup c k")
  case None
  then have "(lookup c)(k := None) = lookup c" by auto
  then show ?thesis using None delete_spec [OF assms, of k] by (simp add: held_def)
next
  case (Some r)
  then show ?thesis using delete_spec [OF assms, of k] by (auto simp: held_def) (metis option.inject)
qed

end

definition cachedContext :: "nat lru \<Rightarrow> string \<rightharpoonup> nat" where
  "cachedContext c k = map_option ce_value (findKey k (entries c))"

definition sticky :: "nat lru \<Rightarrow> bool" where
  "sticky c = (lru_inv c \<and> c_ttl c = 0 \<and> \<not> c_pin c \<and> c_rmFunc c \<and>
     (\<forall>e\<in>set (entries c). ce_refCount e = 0 \<and> ce_expiration e = None))"

lemma findKey_simps [simp]:
  "findKey k [] = None" "findKey k (e # es) = (if ce_key e = k then Some e else findKey k es)"
  by (simp_all add: findKey_def)

lemma findKey_removeKey: "findKey k' (removeKey k es) = (if k' = k then None else findKey k' es)"
  by (induction es) (auto simp: removeKey_def)

lemma findKey_in: "findKey k es = Some e \<Longrightarrow> e \<in> set es \<and> ce_key e = k"
  by (auto simp: findKey_def find_Some_iff)

lemma findKey_butlast:
  "distinct (map ce_key es) \<Longrightarrow> findKey k (butlast es) = (if es \<noteq> [] \<and> ce_key (last es) = k then None else findKey k es)"
proof (induction es)
  case (Cons e es)
  have "ce_key e \<notin> ce_key ` set es" using Cons.prems by simp
  then have "es \<noteq> [] \<Longrightarrow> ce_key (last es) \<noteq> ce_key e" by (metis image_eqI last_in_set)
  with Cons show ?case by auto
qed simp

lemma Exist_cached: "sticky c \<Longrightarrow> Exist k c = (cachedContext c k \<noteq> None)"
  using byKey_missing [of c k] by (simp add: Exist_def cachedContext_def sticky_def findKey_None_iff keys_def)

lemma sticky_found:
  assumes s: "sticky c" and f: "findKey k (entries c) = Some e"
  obtains elt where "map_of (c_byKey c) k = Some elt" "c_elements c elt = Some e" "pinned c e = e" "\<not> expired now e"
    "renewed now c e = e"
proof -
  have inv: "lru_inv c" and e: "e \<in> set (entries c)" using s findKey_in [OF f] by (auto simp: sticky_def)
  have "map_of (c_byKey c) k \<noteq> None"
    using f byKey_missing [OF inv, of k] findKey_in [OF f] by (auto simp: keys_def)
  then obtain elt where elt: "map_of (c_byKey c) k = Some elt" by blast
  have "c_elements c elt = Some e" using byKey_found [OF inv elt] f by simp
  then show ?thesis using that [OF elt] s e by (simp add: pinned_def expired_def renewed_def sticky_def)
qed

lemma sticky_missing:
  assumes "sticky c" and "findKey k (entries c) = None"
  shows "map_of (c_byKey c) k = None"
  using assms byKey_missing [of c k] by (simp add: sticky_def findKey_None_iff keys_def)

definition newEntry :: "string \<Rightarrow> nat \<Rightarrow> nat cacheEntry" where
  "newEntry k r = \<lparr>ce_key = k, ce_expiration = None, ce_value = r, ce_refCount = 0\<rparr>"

lemma newEntry_simps [simp]:
  "ce_key (newEntry k r) = k" "ce_expiration (newEntry k r) = None" "ce_value (newEntry k r) = r" "ce_refCount (newEntry k r) = 0"
  by (simp_all add: newEntry_def)

lemma sticky_entries:
  assumes "sticky c" and "lru_inv c'" and "settings c' = settings c"
    and "set (entries c') \<subseteq> insert (newEntry k v) (set (entries c))"
  shows "sticky c'"
  using assms by (auto simp: sticky_def settings_def)

lemma sticky_get:
  assumes s: "sticky c"
  shows "fst (Get now k c) = cachedContext c k \<and> sticky (snd (Get now k c)) \<and>
    cachedContext (snd (Get now k c)) = cachedContext c \<and> c_removed (snd (Get now k c)) = c_removed c"
proof (cases "findKey k (entries c)")
  case None
  then show ?thesis using s sticky_missing [OF s None] by (simp add: Get_def cachedContext_def)
next
  case (Some e)
  obtain elt where elt: "map_of (c_byKey c) k = Some elt" "c_elements c elt = Some e" "pinned c e = e" "\<not> expired now e"
    using sticky_found [OF s Some] by metis
  have inv: "lru_inv c" using s by (simp add: sticky_def)
  have view: "entries (snd (Get now k c)) = e # removeKey k (entries c)" "fst (Get now k c) = Some (ce_value e)"
    using Get_refines(2) [OF inv, of now k] Some elt by (simp_all add: specGet_def)
  have "c_removed (snd (Get now k c)) = c_removed c"
    using elt by (simp add: Get_def Let_def moveToFront_def)
  moreover have "sticky (snd (Get now k c))"
    using sticky_entries [OF s Get_refines(1) [OF inv] settings_kept(1), of now k] findKey_in [OF Some]
    by (auto simp: view removeKey_def)
  moreover have "cachedContext (snd (Get now k c)) k' = cachedContext c k'" for k'
    using conjunct2 [OF findKey_in [OF Some]] Some by (auto simp: cachedContext_def view findKey_removeKey)
  ultimately show ?thesis using Some by (simp add: view cachedContext_def fun_eq_iff)
qed

lemma sticky_delete:
  assumes s: "sticky c"
  shows "sticky (Delete k c) \<and> cachedContext (Delete k c) = (cachedContext c)(k := None) \<and>
    c_removed (Delete k c) = c_removed c @ (case cachedContext c k of None \<Rightarrow> [] | Some r \<Rightarrow> [r])"
proof -
  have inv: "lru_inv c" using s by (simp add: sticky_def)
  have view: "lru_inv (Delete k c)" "entries (Delete k c) = removeKey k (entries c)" using Delete_refines [OF inv] by simp_all
  have "sticky (Delete k c)"
    using sticky_entries [OF s view(1) settings_kept(3)] by (auto simp: view removeKey_def)
  moreover have "cachedContext (Delete k c) = (cachedContext c)(k := None)"
    by (auto simp: cachedContext_def view findKey_removeKey)
  moreover have "c_removed (Delete k c) = c_removed c @ (case cachedContext c k of None \<Rightarrow> [] | Some r \<Rightarrow> [r])"
  proof (cases "findKey k (entries c)")
    case None
    then show ?thesis using sticky_missing [OF s None] by (simp add: Delete_def cachedContext_def)
  next
    case (Some e)
    obtain elt where "map_of (c_byKey c) k = Some elt" "c_elements c elt = Some e"
      using sticky_found [OF s Some] by metis
    then show ?thesis using Some s
      by (simp add: Delete_def cachedContext_def removeElement_def notifyRemoved_def sticky_def)
  qed
  ultimately show ?thesis by blast
qed

lemma evicted_value:
  assumes "lru_inv c" and "c_byAccess c \<noteq> []" and "ce_refCount (last (entries c)) = 0" and "c_rmFunc c"
  shows "c_removed (snd (evictOldest k r c)) = c_removed c @ [ce_value (last (entries c))]"
proof -
  let ?b = "last (c_byAccess c)"
  have "c_elements c ?b = Some (entryAt c ?b)" using assms(1,2) last_in_set by (force simp: lru_inv_def entryAt_def)
  moreover have "last (entries c) = entryAt c ?b" using assms(2) by (simp add: entries_def last_map)
  ultimately show ?thesis using assms(3,4) by (simp add: evictOldest_def Let_def removeElement_def notifyRemoved_def)
qed

lemma sticky_put:
  assumes s: "sticky c" and none: "cachedContext c k = None"
  shows "fst (PutIfNotExist now k r c) = Inr r" and "sticky (snd (PutIfNotExist now k r c))"
    and "entries (snd (PutIfNotExist now k r c)) = newEntry k r # entries c \<and>
       c_removed (snd (PutIfNotExist now k r c)) = c_removed c \<or>
     entries (snd (PutIfNotExist now k r c)) = butlast (newEntry k r # entries c) \<and>
       c_removed (snd (PutIfNotExist now k r c)) = c_removed c @ [ce_value (last (newEntry k r # entries c))]"
proof -
  have inv: "lru_inv c" using s by (simp add: sticky_def)
  have f: "findKey k (entries c) = None" using none by (simp add: cachedContext_def)
  have e: "renewed now c (pinned c \<lparr>ce_key = k, ce_expiration = None, ce_value = r, ce_refCount = 0\<rparr>) = newEntry k r"
    using s by (simp add: renewed_def pinned_def sticky_def newEntry_def)
  have last: "ce_refCount (last (newEntry k r # entries c)) = 0"
    using s last_in_set [of "entries c"] by (auto simp: sticky_def)
  let ?p = "putInternal now k r False c"
  have view: "fst ?p = Inr None" "entries (snd ?p) =
      (if int (length (newEntry k r # entries c)) \<noteq> c_maxSize c then newEntry k r # entries c
       else butlast (newEntry k r # entries c))"
    using putInternal_refines(2) [OF inv, of now k r False] f last
    by (simp_all add: specPut_def Let_def e prod_eq_iff del: last.simps butlast.simps split: if_splits)
  show "fst (PutIfNotExist now k r c) = Inr r"
    using view(1) by (cases ?p) (simp add: PutIfNotExist_def)
  have sub: "set (entries (snd ?p)) \<subseteq> insert (newEntry k r) (set (entries c))"
    using view(2) by (auto dest: in_set_butlastD split: if_splits)
  then show "sticky (snd (PutIfNotExist now k r c))"
    using sticky_entries [OF s putInternal_refines(1) [OF inv] settings_kept(2)] by (simp add: Put_putInternal)
  have miss: "map_of (c_byKey c) k = None" by (rule sticky_missing [OF s f])
  define elt where "elt = c_nextElement c"
  define c1 where "c1 = c\<lparr>c_elements := (c_elements c)(elt \<mapsto> newEntry k r), c_nextElement := elt + 1,
      c_byAccess := elt # c_byAccess c, c_byKey := AList.update k elt (c_byKey c)\<rparr>"
  have "k \<notin> set (keys c)" using miss byKey_missing [OF inv] by simp
  then have ins: "lru_inv c1" "entries c1 = newEntry k r # entries c"
    unfolding c1_def elt_def using insert_correct [OF inv, of "newEntry k r" k] by simp_all
  have size: "Size c1 = int (length (newEntry k r # entries c))" using size_entries [OF ins(1)] ins(2) by simp
  have run: "?p = (if Size c1 = c_maxSize c then evictOldest k elt c1 else (Inr None, c1))"
    by (simp add: putInternal_def miss Let_def e c1_def elt_def)
  have kept: "c_removed c1 = c_removed c" "c_rmFunc c1" "c_byAccess c1 \<noteq> []" using s by (simp_all add: c1_def sticky_def)
  have evict: "c_removed (snd (evictOldest k elt c1)) = c_removed c @ [ce_value (last (newEntry k r # entries c))]"
    using evicted_value [OF ins(1) kept(3) _ kept(2), of k elt] last by (simp only: ins(2) kept(1))
  show "entries (snd (PutIfNotExist now k r c)) = newEntry k r # entries c \<and>
       c_removed (snd (PutIfNotExist now k r c)) = c_removed c \<or>
     entries (snd (PutIfNotExist now k r c)) = butlast (newEntry k r # entries c) \<and>
       c_removed (snd (PutIfNotExist now k r c)) = c_removed c @ [ce_value (last (newEntry k r # entries c))]"
    using view(2) size run evict kept(1) by (cases "Size c1 = c_maxSize c")
      (simp_all add: Put_putInternal del: last.simps butlast.simps)
qed

lemma cached_put:
  fixes now :: int and r :: nat
  assumes s: "sticky c" and none: "cachedContext c k = None"
  defines "c' \<equiv> snd (PutIfNotExist now k r c)"
  shows "cachedContext c' k' = ((cachedContext c)(k \<mapsto> r)) k' \<or>
      cachedContext c' k' = None \<and> (\<forall>x. ((cachedContext c)(k \<mapsto> r)) k' = Some x \<longrightarrow> x \<in> set (c_removed c'))"
    and "set (c_removed c) \<subseteq> set (c_removed c') \<and> set (c_removed c') \<subseteq> set (c_removed c) \<union> ran ((cachedContext c)(k \<mapsto> r))"
proof -
  let ?es = "newEntry k r # entries c"
  have d: "distinct (map ce_key ?es)"
    using s none by (auto simp: sticky_def lru_inv_def keys_def cachedContext_def findKey_None_iff)
  have whole: "((cachedContext c)(k \<mapsto> r)) k' = map_option ce_value (findKey k' ?es)" for k'
    by (simp add: cachedContext_def)
  have last: "findKey (ce_key (last ?es)) ?es = Some (last ?es)"
    using findKey_Some_iff [OF d] last_in_set [of ?es] by blast
  then have ran: "ce_value (last ?es) \<in> ran ((cachedContext c)(k \<mapsto> r))"
    using whole [of "ce_key (last ?es)"] by (metis option.simps(9) ranI)
  from sticky_put(3) [OF s none, of now r, folded c'_def]
  consider "entries c' = ?es" "c_removed c' = c_removed c"
    | "entries c' = butlast ?es" "c_removed c' = c_removed c @ [ce_value (last ?es)]" by blast
  then have "(cachedContext c' k' = ((cachedContext c)(k \<mapsto> r)) k' \<or>
      cachedContext c' k' = None \<and> (\<forall>x. ((cachedContext c)(k \<mapsto> r)) k' = Some x \<longrightarrow> x \<in> set (c_removed c'))) \<and>
    set (c_removed c) \<subseteq> set (c_removed c') \<and> set (c_removed c') \<subseteq> set (c_removed c) \<union> ran ((cachedContext c)(k \<mapsto> r))"
  proof cases
    case 1
    then show ?thesis unfolding whole by (simp add: cachedContext_def)
  next
    case 2
    then show ?thesis using ran last unfolding whole
      by (auto simp: cachedContext_def findKey_butlast [OF d] simp del: last.simps butlast.simps findKey_simps)
  qed
  then show "cachedContext c' k' = ((cachedContext c)(k \<mapsto> r)) k' \<or>
      cachedContext c' k' = None \<and> (\<forall>x. ((cachedContext c)(k \<mapsto> r)) k' = Some x \<longrightarrow> x \<in> set (c_removed c'))"
    "set (c_removed c) \<subseteq> set (c_removed c') \<and> set (c_removed c') \<subseteq> set (c_removed c) \<union> ran ((cachedContext c)(k \<mapsto> r))"
    by simp_all
qed

lemma sticky_put_present:
  assumes s: "sticky c" and found: "cachedContext c k = Some x"
  shows "fst (PutIfNotExist now k r c) = Inr x \<and> sticky (snd (PutIfNotExist now k r c)) \<and>
    cachedContext (snd (PutIfNotExist now k r c)) = cachedContext c \<and> c_removed (snd (PutIfNotExist now k r c)) = c_removed c"
proof -
  obtain e where e: "findKey k (entries c) = Some e" "ce_value e = x" using found by (auto simp: cachedContext_def)
  obtain elt where elt: "map_of (c_byKey c) k = Some elt" "c_elements c elt = Some e" "pinned c e = e" "renewed now c e = e"
    using sticky_found [OF s e(1)] by metis
  have inv: "lru_inv c" using s by (simp add: sticky_def)
  let ?p = "putInternal now k r False c"
  have run: "?p = (Inr (Some x), moveToFront elt (c\<lparr>c_elements := (c_elements c)(elt \<mapsto> e)\<rparr>))"
    using elt e(2) by (simp add: putInternal_def)
  have view: "entries (snd ?p) = e # removeKey k (entries c)"
    using putInternal_refines(2) [OF inv, of now k r False] e elt by (simp add: specPut_def prod_eq_iff)
  have p: "PutIfNotExist now k r c = (Inr x, snd ?p)" by (simp add: PutIfNotExist_def run)
  have "sticky (snd ?p)"
    using sticky_entries [OF s putInternal_refines(1) [OF inv] settings_kept(2), of now k r False] findKey_in [OF e(1)]
    by (auto simp: view removeKey_def Put_putInternal)
  moreover have "cachedContext (snd ?p) k' = cachedContext c k'" for k'
    using conjunct2 [OF findKey_in [OF e(1)]] e(1) by (auto simp: cachedContext_def view findKey_removeKey)
  moreover have "c_removed (snd ?p) = c_removed c" by (simp add: run moveToFront_def)
  ultimately show ?thesis by (simp add: p fun_eq_iff)
qed

interpretation sticky_store: run_store sticky cachedContext c_removed Get PutIfNotExist Delete
proof (unfold_locales, goal_cases)
  case (1 c now k)
  then show ?case using sticky_get [of c now k] by simp
next
  case (2 c now k)
  then show ?case using sticky_get [of c now k] by simp
next
  case (3 c k now r)
  then show ?case using sticky_put(1,2) [of c k now r] by simp
next
  case (4 c k now r k')
  from cached_put(1) [OF 4, of now r k'] show ?case by (elim disjE conjE) (rule disjI1 disjI2, assumption)+
next
  case (5 c k r k' x now)
  from cached_put(1) [OF 5(1,2), of now r k'] 5(3,4) show ?case by (auto simp del: fun_upd_apply)
next
  case (6 c k now r)
  from cached_put(2) [OF this] show ?case .
next
  case (7 c k x now r)
  from sticky_put_present [OF this] show ?case .
next
  case (8 c k)
  then show ?case using sticky_delete [of c k] by simp
qed

section \<open>Invariants while a context is locked\<close>

lemma context_holds_tunnel [simp]: "context_holds E P (w\<lparr>wc_laTunnel := b\<rparr>) = context_holds E P w"
  by (simp add: context_holds_def split: option.split)

context context_invariant
begin

lemma keep_enterContext [go_keeps]: "go_inv task_ok (enterContext wth created)"
  unfolding enterContext_def by (intro go_keeps keep_onContext) simp_all

lemma keep_waitLocalActivity [go_keeps]: "go_inv task_ok (waitLocalActivity wth out signals)"
proof (induction signals)
  case (Cons s signals)
  then show ?case
    by (cases s; simp only: waitLocalActivity.simps;
        intro go_keeps keep_frame_task keep_ProcessWorkflowTask keep_ProcessLocalActivityResultOfTask; simp)
qed (simp add: go_keeps)

lemma keep_processTask [go_keeps]: "go_inv task_ok (processTask wth out signals)"
  unfolding processTask_def by (intro go_keeps keep_ProcessWorkflowTask)

lemma served_ok:
  assumes "ok (wk_contexts st ! sv_context served)" and "serveTask wth out signals served st = Some (r, st')"
  shows "\<exists>w err. ok w \<and> st' = Unlock wth err (sv_context served) (updateContext (sv_context served) (\<lambda>_. w) st)"
proof -
  let ?s0 = "\<lparr>ts_context = wk_contexts st ! sv_context served, ts_task = sv_task served,
      ts_historyIterator = sv_historyIterator served\<rparr>"
  obtain e s1 where s1: "enterContext wth (sv_created served) ?s0 = (e, s1)" by force
  have ok1: "ok (ts_context s1)" using go_invD [OF keep_enterContext, of ?s0 "sv_created served"] assms(1) s1 by simp
  obtain t s2 where s2: "processTask wth out signals s1 = (t, s2)" by force
  have ok2: "ok (ts_context s2)" using go_invD [OF keep_processTask, of s1 out signals] ok1 s2 by simp
  note run = assms(2) [unfolded serveTask_def Let_def s1]
  show ?thesis
  proof (cases e)
    case (Inl p)
    then show ?thesis using run by simp
  next
    case (Inr err)
    show ?thesis
    proof (cases err)
      case None
      with Inr run s2 have "\<exists>err. st' = Unlock wth err (sv_context served) (updateContext (sv_context served) (\<lambda>_. ts_context s2) st)"
        by (cases t) (auto split: option.splits)
      with ok2 show ?thesis by blast
    next
      case (Some x)
      with Inr run ok1 show ?thesis by auto
    qed
  qed
qed

end

section \<open>Runs of a worker\<close>

definition newWorker :: "int \<Rightarrow> workerState" where
  "newWorker stickyCacheSize = \<lparr>wk_cache = getWorkflowCache stickyCacheSize, wk_contexts = [], wk_resetStickiness = []\<rparr>"

text \<open>
  Any number of tasks of any runs are under way at once, decision tasks and queries, also of the
  same run.  A task looks for its context, may have to create one, at any time after it has
  looked, and is served once it can lock the context; dropped contexts are cleared at any
  time.  The rule \<open>create\<close> does not ask what the lookup of the task found, so it covers
  every interleaving of the two steps of \<open>findContext\<close>.
\<close>

inductive worker_reachable :: "workflowTaskHandlerImpl \<Rightarrow> int \<Rightarrow> workerState \<Rightarrow> servedTask list \<Rightarrow> bool" for wth stickySize where
  start: "worker_reachable wth stickySize (newWorker stickySize) []"
| hit: "worker_reachable wth stickySize st tasks \<Longrightarrow> lookupContext now task st = (Some r, st') \<Longrightarrow>
    worker_reachable wth stickySize st' (foundContext r task iterator # tasks)"
| miss: "worker_reachable wth stickySize st tasks \<Longrightarrow> lookupContext now task st = (None, st') \<Longrightarrow>
    worker_reachable wth stickySize st' tasks"
| create: "worker_reachable wth stickySize st tasks \<Longrightarrow> createContext wth now task iterator st = (Inr (Inr served), st') \<Longrightarrow>
    worker_reachable wth stickySize st' (served # tasks)"
| refuse: "worker_reachable wth stickySize st tasks \<Longrightarrow> createContext wth now task iterator st = (Inr (Inl err), st') \<Longrightarrow>
    worker_reachable wth stickySize st' tasks"
| serve: "worker_reachable wth stickySize st tasks \<Longrightarrow> served \<in> set tasks \<Longrightarrow>
    serveTask wth out signals served st = Some (result, st') \<Longrightarrow> worker_reachable wth stickySize st' (remove1 served tasks)"
| clear: "worker_reachable wth stickySize st tasks \<Longrightarrow> r \<in> set (c_removed (wk_cache st)) \<Longrightarrow>
    worker_reachable wth stickySize ((onEviction r st)\<lparr>wk_cache := (wk_cache st)\<lparr>c_removed := remove1 r (c_removed (wk_cache st))\<rparr>\<rparr>) tasks"

lemma reachable_find:
  assumes "worker_reachable wth n st tasks" and "findContext wth now task iterator st = (Inr (Inr served), st')"
  shows "worker_reachable wth n st' (served # tasks)"
proof -
  obtain found st1 where l: "lookupContext now task st = (found, st1)" by force
  show ?thesis
  proof (cases found)
    case None
    then have "createContext wth now task iterator st1 = (Inr (Inr served), st')"
      using assms(2) l by (simp add: findContext_def split: option.splits)
    then show ?thesis using worker_reachable.miss [OF assms(1)] l None by (blast intro: worker_reachable.create)
  next
    case (Some r)
    then have "served = foundContext r task iterator" "st' = st1"
      using assms(2) l by (simp_all add: findContext_def split: option.splits)
    then show ?thesis using worker_reachable.hit [OF assms(1)] l Some by blast
  qed
qed

definition servedRun :: "servedTask \<Rightarrow> string" where
  "servedRun served = taskRun (sv_task served)"

text \<open>A context of a run, whose event handler is a reachable one of this run.\<close>

definition sound :: "workflowRegistry \<Rightarrow> string \<Rightarrow> workflowExecutionContextImpl \<Rightarrow> bool" where
  "sound registry run = context_holds (reachable_in_run registry run) (\<lambda>i. disciplined registry \<and> wi_RunID i = run)"

lemma sound_run: "sound registry run w \<Longrightarrow> runOf w = run"
  by (auto simp: sound_def context_holds_def runOf_def workflowInfoOf_def reachable_in_run_def split: option.splits)

definition heldBy :: "workerState \<Rightarrow> servedTask list \<Rightarrow> nat \<Rightarrow> bool" where
  "heldBy st tasks r = (sticky_store.held (wk_cache st) r \<or> r \<in> sv_context ` set tasks)"

text \<open>There is another context of the same run.\<close>

definition rivalled :: "workerState \<Rightarrow> nat \<Rightarrow> bool" where
  "rivalled st r \<longleftrightarrow> (\<exists>r' < length (wk_contexts st). r' \<noteq> r \<and> runOf (wk_contexts st ! r') = runOf (wk_contexts st ! r))"

definition worker_inv :: "workflowRegistry \<Rightarrow> workerState \<Rightarrow> servedTask list \<Rightarrow> bool" where
  "worker_inv registry st tasks \<longleftrightarrow> sticky (wk_cache st) \<and>
     (\<forall>r. heldBy st tasks r \<longrightarrow> r < length (wk_contexts st)) \<and>
     (\<forall>r < length (wk_contexts st). sound registry (runOf (wk_contexts st ! r)) (wk_contexts st ! r)) \<and>
     (\<forall>k r. cachedContext (wk_cache st) k = Some r \<longrightarrow> runOf (wk_contexts st ! r) = k) \<and>
     (\<forall>t \<in> set tasks. runOf (wk_contexts st ! sv_context t) = servedRun t) \<and>
     (\<forall>r < length (wk_contexts st). \<not> IsDestroyed (wk_contexts st ! r) \<longrightarrow> heldBy st tasks r \<or> rivalled st r)"

lemma worker_invD:
  assumes "worker_inv registry st tasks"
  shows "sticky (wk_cache st)"
    "heldBy st tasks r \<Longrightarrow> r < length (wk_contexts st)"
    "r < length (wk_contexts st) \<Longrightarrow> sound registry (runOf (wk_contexts st ! r)) (wk_contexts st ! r)"
    "cachedContext (wk_cache st) k = Some r \<Longrightarrow> runOf (wk_contexts st ! r) = k"
    "t \<in> set tasks \<Longrightarrow> runOf (wk_contexts st ! sv_context t) = servedRun t"
    "r < length (wk_contexts st) \<Longrightarrow> \<not> IsDestroyed (wk_contexts st ! r) \<Longrightarrow> heldBy st tasks r \<or> rivalled st r"
  using assms by (simp_all add: worker_inv_def)

lemma worker_invI:
  assumes "sticky (wk_cache st)"
    "\<And>r. heldBy st tasks r \<Longrightarrow> r < length (wk_contexts st)"
    "\<And>r. r < length (wk_contexts st) \<Longrightarrow> sound registry (runOf (wk_contexts st ! r)) (wk_contexts st ! r)"
    "\<And>k r. cachedContext (wk_cache st) k = Some r \<Longrightarrow> runOf (wk_contexts st ! r) = k"
    "\<And>t. t \<in> set tasks \<Longrightarrow> runOf (wk_contexts st ! sv_context t) = servedRun t"
    "\<And>r. r < length (wk_contexts st) \<Longrightarrow> \<not> IsDestroyed (wk_contexts st ! r) \<Longrightarrow> heldBy st tasks r \<or> rivalled st r"
  shows "worker_inv registry st tasks"
  using assms by (simp add: worker_inv_def)

lemma cached_valid:
  "worker_inv registry st tasks \<Longrightarrow> cachedContext (wk_cache st) k = Some r \<Longrightarrow> r < length (wk_contexts st)"
  using worker_invD(2) [of registry st tasks r] by (auto simp: heldBy_def sticky_store.held_def)

lemma new_worker_inv: "worker_inv registry (newWorker n) []"
proof (rule worker_invI)
  have e: "entries (wk_cache (newWorker n)) = []" by (simp add: newWorker_def getWorkflowCache_def New_def entries_def Let_def)
  show "sticky (wk_cache (newWorker n))"
    using lru_inv_new [of n "Some \<lparr>o_TTL = 0, o_Pin = False, o_RemovedFunc = True\<rparr>"] e
    by (simp add: newWorker_def getWorkflowCache_def sticky_def) (simp add: New_def)
  show "cachedContext (wk_cache (newWorker n)) k = Some r \<Longrightarrow> runOf (wk_contexts (newWorker n) ! r) = k" for k r
    by (simp add: cachedContext_def e)
  show "heldBy (newWorker n) [] r \<Longrightarrow> r < length (wk_contexts (newWorker n))" for r
    by (simp add: heldBy_def sticky_store.held_def cachedContext_def e)
      (simp add: newWorker_def getWorkflowCache_def New_def Let_def)
qed (simp_all add: newWorker_def)

text \<open>An operation of the cache that moves contexts only into the list of dropped ones.\<close>

lemma inv_cache:
  assumes inv: "worker_inv registry st tasks" and s: "sticky c"
    and held: "\<And>r. sticky_store.held c r = sticky_store.held (wk_cache st) r"
    and look: "\<And>k. cachedContext c k \<in> {None, cachedContext (wk_cache st) k}"
  shows "worker_inv registry (st\<lparr>wk_cache := c\<rparr>) tasks"
proof (rule worker_invI)
  show "cachedContext (wk_cache (st\<lparr>wk_cache := c\<rparr>)) k = Some r \<Longrightarrow> runOf (wk_contexts (st\<lparr>wk_cache := c\<rparr>) ! r) = k" for k r
    using look [of k] worker_invD(4) [OF inv, of k r] by auto
qed (use inv s in \<open>auto simp: worker_inv_def heldBy_def held rivalled_def\<close>)

lemma inv_get:
  assumes inv: "worker_inv registry st tasks" and "getWorkflowContext now k st = (r, st')"
  shows "worker_inv registry st' tasks \<and> r = cachedContext (wk_cache st) k \<and> wk_contexts st' = wk_contexts st \<and>
    cachedContext (wk_cache st') = cachedContext (wk_cache st)"
proof -
  note s = worker_invD(1) [OF inv]
  have "st' = st\<lparr>wk_cache := snd (Get now k (wk_cache st))\<rparr>" "r = fst (Get now k (wk_cache st))"
    using assms(2) by (auto simp: getWorkflowContext_def split: prod.splits)
  then show ?thesis
    using inv_cache [OF inv, of "snd (Get now k (wk_cache st))"] sticky_store.get_keeps [OF s] sticky_store.get_result [OF s]
      sticky_store.held_get [OF s] by simp
qed

text \<open>Another state for a context, which stays one of its run.\<close>

lemma inv_update:
  assumes inv: "worker_inv registry st tasks" and r: "r < length (wk_contexts st)"
    and w: "sound registry (runOf (wk_contexts st ! r)) w" and live: "IsDestroyed w \<or> heldBy st tasks r"
  shows "worker_inv registry (updateContext r (\<lambda>_. w) st) tasks"
proof (rule worker_invI)
  let ?st = "updateContext r (\<lambda>_. w) st"
  have c: "wk_contexts ?st ! x = (if x = r then w else wk_contexts st ! x)" for x
    using r by (simp add: updateContext_def nth_list_update)
  have run: "runOf (wk_contexts ?st ! x) = runOf (wk_contexts st ! x)" for x
    using sound_run [OF w] by (simp add: c)
  have len: "length (wk_contexts ?st) = length (wk_contexts st)" by (simp add: updateContext_def)
  have h: "heldBy ?st tasks x = heldBy st tasks x" "rivalled ?st x = rivalled st x" for x
    by (simp add: heldBy_def updateContext_def, simp add: rivalled_def len run)
  show "x < length (wk_contexts ?st) \<Longrightarrow> sound registry (runOf (wk_contexts ?st ! x)) (wk_contexts ?st ! x)" for x
    using worker_invD(3) [OF inv, of x] w by (simp add: run len) (simp add: c)
  show "x < length (wk_contexts ?st) \<Longrightarrow> \<not> IsDestroyed (wk_contexts ?st ! x) \<Longrightarrow> heldBy ?st tasks x \<or> rivalled ?st x" for x
    using worker_invD(6) [OF inv, of x] live by (auto simp: h len c split: if_splits)
  show "heldBy ?st tasks x \<Longrightarrow> x < length (wk_contexts ?st)" for x using worker_invD(2) [OF inv] by (simp add: h len)
  show "cachedContext (wk_cache ?st) k = Some x \<Longrightarrow> runOf (wk_contexts ?st ! x) = k" for k x
    using worker_invD(4) [OF inv, of k x] by (simp add: run) (simp add: updateContext_def)
  show "t \<in> set tasks \<Longrightarrow> runOf (wk_contexts ?st ! sv_context t) = servedRun t" for t
    using worker_invD(5) [OF inv, of t] by (simp add: run)
qed (use inv in \<open>simp_all add: worker_inv_def updateContext_def\<close>)

lemma sound_clear: "sound registry run w \<Longrightarrow> sound registry run (clearState w)"
  by (auto simp: sound_def context_holds_def clearState_def workflowInfoOf_def reachable_in_run_def split: option.splits)

lemma inv_clear:
  assumes inv: "worker_inv registry st tasks" and r: "r < length (wk_contexts st)"
  shows "worker_inv registry (updateContext r clearState st) tasks"
proof -
  have "updateContext r clearState st = updateContext r (\<lambda>_. clearState (wk_contexts st ! r)) st"
    by (simp add: updateContext_def)
  then show ?thesis
    using inv_update [OF inv r sound_clear [OF worker_invD(3) [OF inv r]]]
    by (simp add: IsDestroyed_def clearState_def)
qed

lemma inv_remove_task:
  assumes inv: "worker_inv registry st tasks" and t: "t \<in> set tasks"
    and held: "IsDestroyed (wk_contexts st ! sv_context t) \<or> sticky_store.held (wk_cache st) (sv_context t) \<or> rivalled st (sv_context t)"
  shows "worker_inv registry st (remove1 t tasks)"
proof (rule worker_invI)
  have sub: "set (remove1 t tasks) \<subseteq> set tasks" by (rule set_remove1_subset)
  have rest: "x \<in> set tasks \<Longrightarrow> x \<noteq> t \<Longrightarrow> x \<in> set (remove1 t tasks)" for x by simp
  show "heldBy st (remove1 t tasks) r \<Longrightarrow> r < length (wk_contexts st)" for r
    using worker_invD(2) [OF inv, of r] sub by (auto simp: heldBy_def)
  show "\<not> IsDestroyed (wk_contexts st ! r) \<Longrightarrow> heldBy st (remove1 t tasks) r \<or> rivalled st r" if "r < length (wk_contexts st)" for r
  proof -
    assume live: "\<not> IsDestroyed (wk_contexts st ! r)"
    show ?thesis
    proof (cases "r = sv_context t")
      case True
      then show ?thesis using live held by (auto simp: heldBy_def)
    next
      case False
      from worker_invD(6) [OF inv that live]
      consider "sticky_store.held (wk_cache st) r" | x where "x \<in> set tasks" "r = sv_context x" | "rivalled st r"
        by (auto simp: heldBy_def)
      then show ?thesis
      proof cases
        case (2 x)
        then have "x \<in> set (remove1 t tasks)" using False rest [of x] by blast
        then show ?thesis using 2 by (simp add: heldBy_def)
      qed (simp_all add: heldBy_def)
    qed
  qed
qed (use inv set_remove1_subset [of t tasks] in \<open>auto simp: worker_inv_def\<close>)

lemma inv_unlock:
  assumes inv: "worker_inv registry st tasks" and t: "t \<in> set tasks"
  shows "worker_inv registry (Unlock wth err (sv_context t) st) (remove1 t tasks)"
proof -
  let ?r = "sv_context t" and ?c = "wk_cache st"
  note s = worker_invD(1) [OF inv]
  have run: "runOf (wk_contexts st ! ?r) = servedRun t" by (rule worker_invD(5) [OF inv t])
  have r: "?r < length (wk_contexts st)" using worker_invD(2) [OF inv] t by (auto simp: heldBy_def)
  have cached: "sticky_store.held ?c ?r \<or> rivalled st ?r" if there: "Exist (servedRun t) ?c"
  proof -
    obtain x where x: "cachedContext ?c (servedRun t) = Some x"
      using there Exist_cached [OF s, of "servedRun t"] by auto
    show ?thesis
    proof (cases "x = ?r")
      case True
      then show ?thesis using x by (auto simp: sticky_store.held_def)
    next
      case False
      then show ?thesis using cached_valid [OF inv x] worker_invD(4) [OF inv x] run by (auto simp: rivalled_def)
    qed
  qed
  have gone: "worker_inv registry (updateContext ?r clearState st) (remove1 t tasks)"
    by (rule inv_remove_task [OF inv_clear [OF inv r] t]) (use r in \<open>simp add: updateContext_def IsDestroyed_def clearState_def\<close>)
  have kept: "Exist (servedRun t) ?c \<Longrightarrow> worker_inv registry st (remove1 t tasks)"
    using inv_remove_task [OF inv t] cached by blast
  have removed: "worker_inv registry (removeWorkflowContext (servedRun t) st) (remove1 t tasks)" if "Exist (servedRun t) ?c"
  proof -
    note d = sticky_store.delete_spec [OF s, of "servedRun t"]
    have "worker_inv registry (removeWorkflowContext (servedRun t) st) tasks"
      unfolding removeWorkflowContext_def
      by (rule inv_cache [OF inv]) (use d sticky_store.held_delete [OF s] in auto)
    from inv_remove_task [OF this t] show ?thesis
      using cached [OF that] by (simp add: removeWorkflowContext_def sticky_store.held_delete [OF s] rivalled_def)
  qed
  show ?thesis using gone kept removed by (simp add: Unlock_def Let_def run)
qed

lemma inv_add_task:
  assumes inv: "worker_inv registry st tasks"
    and r: "sv_context t < length (wk_contexts st)" and run: "runOf (wk_contexts st ! sv_context t) = servedRun t"
  shows "worker_inv registry st (t # tasks)"
proof (rule worker_invI)
  show "heldBy st (t # tasks) x \<Longrightarrow> x < length (wk_contexts st)" for x
    using worker_invD(2) [OF inv, of x] r by (auto simp: heldBy_def)
  show "\<not> IsDestroyed (wk_contexts st ! x) \<Longrightarrow> heldBy st (t # tasks) x \<or> rivalled st x" if "x < length (wk_contexts st)" for x
    using worker_invD(6) [OF inv that] by (auto simp: heldBy_def)
qed (use inv run in \<open>auto simp: worker_inv_def\<close>)

text \<open>A new context that a task uses, or that lost the race for the cache.\<close>

lemma inv_new_context:
  assumes inv: "worker_inv registry st tasks" and w: "sound registry (servedRun t) w"
    and t: "sv_context t = length (wk_contexts st) \<or> cachedContext (wk_cache st) (servedRun t) = Some (sv_context t)"
  shows "worker_inv registry (st\<lparr>wk_contexts := wk_contexts st @ [w]\<rparr>) (t # tasks)"
proof (rule worker_invI)
  let ?st = "st\<lparr>wk_contexts := wk_contexts st @ [w]\<rparr>" and ?n = "length (wk_contexts st)"
  have held: "heldBy ?st (t # tasks) r \<longleftrightarrow> heldBy st tasks r \<or> r = sv_context t" for r
    by (auto simp: heldBy_def)
  have old: "r < ?n \<Longrightarrow> wk_contexts ?st ! r = wk_contexts st ! r" for r by (simp add: nth_append)
  have task: "x \<in> set tasks \<Longrightarrow> sv_context x < ?n" for x
    using worker_invD(2) [OF inv] by (auto simp: heldBy_def)
  have ctx: "sv_context t \<le> ?n" "runOf (wk_contexts ?st ! sv_context t) = servedRun t"
    using t cached_valid [OF inv, of "servedRun t" "sv_context t"] worker_invD(4) [OF inv, of "servedRun t" "sv_context t"]
      sound_run [OF w] by (auto simp: nth_append)
  have rival: "rivalled ?st r" if "rivalled st r" "r < ?n" for r
    using that old by (auto simp: rivalled_def nth_append intro: less_trans [OF _ lessI])
  show "heldBy ?st (t # tasks) r \<Longrightarrow> r < length (wk_contexts ?st)" for r
    using worker_invD(2) [OF inv, of r] ctx(1) by (auto simp: held)
  show "r < length (wk_contexts ?st) \<Longrightarrow> sound registry (runOf (wk_contexts ?st ! r)) (wk_contexts ?st ! r)" for r
    using worker_invD(3) [OF inv, of r] w sound_run [OF w] by (auto simp: nth_append less_Suc_eq)
  show "cachedContext (wk_cache ?st) k = Some r \<Longrightarrow> runOf (wk_contexts ?st ! r) = k" for k r
    using worker_invD(4) [OF inv, of k r] cached_valid [OF inv, of k r] by (simp add: nth_append)
  show "x \<in> set (t # tasks) \<Longrightarrow> runOf (wk_contexts ?st ! sv_context x) = servedRun x" for x
    using worker_invD(5) [OF inv, of x] task [of x] ctx(2) by (auto simp: nth_append)
  show "r < length (wk_contexts ?st) \<Longrightarrow> \<not> IsDestroyed (wk_contexts ?st ! r) \<Longrightarrow> heldBy ?st (t # tasks) r \<or> rivalled ?st r" for r
  proof (cases "r < ?n")
    case True
    assume "\<not> IsDestroyed (wk_contexts ?st ! r)"
    then show ?thesis using worker_invD(6) [OF inv True] rival True old [OF True] by (auto simp: held)
  next
    case False
    assume "r < length (wk_contexts ?st)"
    then have "r = ?n" using False by simp
    moreover have "rivalled ?st ?n" if "sv_context t \<noteq> ?n"
      using that ctx sound_run [OF w] unfolding rivalled_def by (intro exI [of _ "sv_context t"]) (simp add: nth_append)
    ultimately show ?thesis by (cases "sv_context t = ?n") (simp_all add: held)
  qed
qed (use inv in \<open>auto simp: worker_inv_def\<close>)

lemma inv_put:
  assumes inv: "worker_inv registry st tasks" and t: "t \<in> set tasks"
    and none: "cachedContext (wk_cache st) (servedRun t) = None"
  shows "worker_inv registry (st\<lparr>wk_cache := snd (PutIfNotExist now (servedRun t) (sv_context t) (wk_cache st))\<rparr>) tasks"
proof (rule worker_invI)
  note s = worker_invD(1) [OF inv]
  define c where "c = snd (PutIfNotExist now (servedRun t) (sv_context t) (wk_cache st))"
  let ?st = "st\<lparr>wk_cache := c\<rparr>"
  have look: "cachedContext c k = Some r \<Longrightarrow> k = servedRun t \<and> r = sv_context t \<or> cachedContext (wk_cache st) k = Some r" for k r
    using sticky_store.put_lookup [OF s none, of now "sv_context t" k] by (auto simp: c_def split: if_splits)
  have held: "heldBy ?st tasks r = heldBy st tasks r" for r
    using t sticky_store.held_put [OF s none, of now "sv_context t" r] by (auto simp: heldBy_def c_def)
  show "sticky (wk_cache ?st)" using sticky_store.put_result [OF s none] by (simp add: c_def)
  show "heldBy ?st tasks r \<Longrightarrow> r < length (wk_contexts ?st)" for r using worker_invD(2) [OF inv, of r] by (simp add: held)
  show "cachedContext (wk_cache ?st) k = Some r \<Longrightarrow> runOf (wk_contexts ?st ! r) = k" for k r
    using look [of k r] worker_invD(4) [OF inv, of k r] worker_invD(5) [OF inv t] by auto
  show "r < length (wk_contexts ?st) \<Longrightarrow> \<not> IsDestroyed (wk_contexts ?st ! r) \<Longrightarrow> heldBy ?st tasks r \<or> rivalled ?st r" for r
    using worker_invD(6) [OF inv, of r] by (simp add: held rivalled_def)
qed (use inv in \<open>simp_all add: worker_inv_def\<close>)

lemma new_context_sound:
  assumes "disciplined (wth_registry wth)" and "wi_RunID info = run"
  shows "sound (wth_registry wth) run (newWorkflowExecutionContext wth startTime' info)"
  unfolding sound_def newWorkflowExecutionContext_def
  by (rule reach.ok_create) (use assms in \<open>simp add: context_holds_def\<close>)

lemma created_sound:
  assumes "disciplined (wth_registry wth)" and "createWorkflowContext wth task = Inr (Inr w)"
  shows "sound (wth_registry wth) (taskRun task) w"
proof -
  obtain info t where "w = newWorkflowExecutionContext wth t info" "wi_RunID info = taskRun task"
    using assms(2) by (auto simp: createWorkflowContext_def taskRun_def split: list.splits EventType.splits option.splits)
  then show ?thesis using new_context_sound [OF assms(1)] by simp
qed

lemma inv_create:
  assumes inv: "worker_inv (wth_registry wth) st tasks" and dis: "disciplined (wth_registry wth)"
    and run: "createContext wth now task iterator st = (Inr (Inr served), st')"
  shows "worker_inv (wth_registry wth) st' (served # tasks)"
proof -
  obtain task' iterator' w where h: "wholeHistory task iterator = Inr (Inr (task', iterator'))"
      and w: "createWorkflowContext wth task' = Inr (Inr w)"
    using run by (auto simp: createContext_def split: sum.splits)
  define t where "t = \<lparr>sv_context = length (wk_contexts st), sv_created = True, sv_task = task', sv_historyIterator = iterator'\<rparr>"
  define st1 where "st1 = st\<lparr>wk_contexts := wk_contexts st @ [w]\<rparr>"
  have tr: "servedRun t = taskRun task'" by (simp add: t_def servedRun_def)
  have w1: "sound (wth_registry wth) (servedRun t) w" using created_sound [OF dis w] tr by simp
  show ?thesis
  proof (cases "\<not> wth_disableStickyExecution wth \<and> pt_Query task' = None")
    case False
    then have "served = t" "st' = st1" using run h w by (auto simp: createContext_def Let_def t_def st1_def)
    then show ?thesis unfolding st1_def using inv_new_context [OF inv w1] by (simp add: t_def)
  next
    case True
    obtain p c where p: "PutIfNotExist now (taskRun task') (length (wk_contexts st)) (wk_cache st) = (p, c)" by force
    then have put: "putWorkflowContext now (taskRun task') (length (wk_contexts st)) st1 = (p, st1\<lparr>wk_cache := c\<rparr>)"
      by (simp add: putWorkflowContext_def st1_def)
    then obtain existing where e: "p = Inr existing" "served = t\<lparr>sv_context := existing\<rparr>" "st' = st1\<lparr>wk_cache := c\<rparr>"
      using run h w True by (cases p) (auto simp: createContext_def Let_def t_def st1_def)
    show ?thesis
    proof (cases "cachedContext (wk_cache st) (taskRun task')")
      case None
      have inv1: "worker_inv (wth_registry wth) st1 (t # tasks)"
        unfolding st1_def by (rule inv_new_context [OF inv w1]) (simp add: t_def)
      have "existing = length (wk_contexts st)"
        using sticky_store.put_result [OF worker_invD(1) [OF inv] None, of now "length (wk_contexts st)"] p e(1) by simp
      then have "served = t" using e(2) by (simp add: t_def)
      moreover have "worker_inv (wth_registry wth) (st1\<lparr>wk_cache := c\<rparr>) (t # tasks)"
        using inv_put [OF inv1, of t now] None p by (simp add: st1_def tr) (simp add: t_def)
      ultimately show ?thesis using e(3) by simp
    next
      case (Some x)
      note present = sticky_store.put_present [OF worker_invD(1) [OF inv] Some, of now "length (wk_contexts st)", unfolded p]
      have x: "existing = x" using present e(1) by simp
      have "worker_inv (wth_registry wth) st1 (served # tasks)"
        unfolding st1_def
        by (rule inv_new_context [OF inv]) (use w1 Some x e(2) in \<open>simp_all add: servedRun_def t_def\<close>)
      then show ?thesis
        unfolding e(3) by (rule inv_cache) (use present in \<open>simp_all add: st1_def sticky_store.held_def\<close>)
    qed
  qed
qed

lemma createContext_refused: "createContext wth now task iterator st = (Inr (Inl e), st') \<Longrightarrow> st' = st"
  by (auto simp: createContext_def Let_def split: sum.splits prod.splits if_splits)

lemma inv_lookup:
  assumes inv: "worker_inv registry st tasks" and l: "lookupContext now task st = (found, st')"
  shows "worker_inv registry st' tasks"
    and "found = Some r \<Longrightarrow> worker_inv registry st' (foundContext r task iterator # tasks)"
proof -
  show inv': "worker_inv registry st' tasks"
    using l inv inv_get [OF inv] by (auto simp: lookupContext_def split: if_splits)
  assume "found = Some r"
  then have c: "cachedContext (wk_cache st') (taskRun task) = Some r"
    using l inv_get [OF inv] by (auto simp: lookupContext_def split: if_splits)
  show "worker_inv registry st' (foundContext r task iterator # tasks)"
    by (rule inv_add_task [OF inv'])
      (use cached_valid [OF inv' c] worker_invD(4) [OF inv' c] in \<open>simp_all add: foundContext_def servedRun_def\<close>)
qed

lemma inv_serve:
  assumes inv: "worker_inv (wth_registry wth) st tasks" and t: "t \<in> set tasks"
    and run: "serveTask wth out signals t st = Some (result, st')"
  shows "worker_inv (wth_registry wth) st' (remove1 t tasks)"
proof -
  have held: "heldBy st tasks (sv_context t)" using t by (simp add: heldBy_def)
  have len: "sv_context t < length (wk_contexts st)" by (rule worker_invD(2) [OF inv held])
  have run_of: "runOf (wk_contexts st ! sv_context t) = servedRun t" by (rule worker_invD(5) [OF inv t])
  have "sound (wth_registry wth) (servedRun t) (wk_contexts st ! sv_context t)"
    using worker_invD(3) [OF inv len] run_of by simp
  then obtain w err where w: "sound (wth_registry wth) (servedRun t) w"
      and st': "st' = Unlock wth err (sv_context t) (updateContext (sv_context t) (\<lambda>_. w) st)"
    using reach.served_ok [OF _ run, of "servedRun t"] by (auto simp: sound_def)
  have "worker_inv (wth_registry wth) (updateContext (sv_context t) (\<lambda>_. w) st) tasks"
    using inv_update [OF inv len] w held by (simp add: run_of)
  from inv_unlock [OF this t] show ?thesis by (simp add: st')
qed

lemma inv_evict:
  assumes inv: "worker_inv registry st tasks" and r: "r \<in> set (c_removed (wk_cache st))"
  shows "worker_inv registry
    ((onEviction r st)\<lparr>wk_cache := (wk_cache st)\<lparr>c_removed := remove1 r (c_removed (wk_cache st))\<rparr>\<rparr>) tasks"
proof -
  have len: "r < length (wk_contexts st)"
    using worker_invD(2) [OF inv, of r] r by (simp add: heldBy_def sticky_store.held_def)
  define st1 where "st1 = updateContext r clearState st"
  have inv1: "worker_inv registry st1 tasks" unfolding st1_def by (rule inv_clear [OF inv len])
  have gone: "IsDestroyed (wk_contexts st1 ! r)" using len by (simp add: st1_def updateContext_def IsDestroyed_def clearState_def)
  define c where "c = (wk_cache st)\<lparr>c_removed := remove1 r (c_removed (wk_cache st))\<rparr>"
  have e: "entries c = entries (wk_cache st)" by (simp add: c_def entries_def entryAt_def)
  then have look: "cachedContext c = cachedContext (wk_cache st)" by (simp add: cachedContext_def fun_eq_iff)
  have rem: "c_removed c = remove1 r (c_removed (wk_cache st))" by (simp add: c_def)
  have s: "sticky c"
    using worker_invD(1) [OF inv] by (simp add: sticky_def e) (simp add: c_def lru_inv_def keys_def entries_def entryAt_def)
  have held: "sticky_store.held (wk_cache st) x \<Longrightarrow> x \<noteq> r \<Longrightarrow> sticky_store.held c x" for x
    by (auto simp: sticky_store.held_def look rem)
  have held': "sticky_store.held c x \<Longrightarrow> sticky_store.held (wk_cache st) x" for x
    using set_remove1_subset [of r "c_removed (wk_cache st)"] by (auto simp: sticky_store.held_def look rem)
  define st2 where "st2 = (onEviction r st)\<lparr>wk_cache := c\<rparr>"
  have st2: "wk_contexts st2 = wk_contexts st1" "wk_cache st2 = c" "wk_cache st1 = wk_cache st"
    by (simp_all add: st2_def st1_def onEviction_def updateContext_def queueResetStickinessTask_def Let_def)
  have "worker_inv registry st2 tasks"
  proof (rule worker_invI)
    show "heldBy st2 tasks x \<Longrightarrow> x < length (wk_contexts st2)" for x
      using worker_invD(2) [OF inv1, of x] held' by (auto simp: heldBy_def st2)
    show "\<not> IsDestroyed (wk_contexts st2 ! x) \<Longrightarrow> heldBy st2 tasks x \<or> rivalled st2 x" if "x < length (wk_contexts st2)" for x
      using worker_invD(6) [OF inv1, of x] that gone held by (auto simp: heldBy_def st2 rivalled_def)
  qed (use inv1 s in \<open>auto simp: worker_inv_def st2 look\<close>)
  then show ?thesis by (simp add: st2_def c_def)
qed

lemma reachable_worker_inv:
  assumes "disciplined (wth_registry wth)" and "worker_reachable wth n st tasks"
  shows "worker_inv (wth_registry wth) st tasks"
  using assms(2)
proof (induction rule: worker_reachable.induct)
  case start
  show ?case by (rule new_worker_inv)
next
  case (hit st tasks now task r st' iterator)
  then show ?case using inv_lookup(2) by blast
next
  case (miss st tasks now task st')
  then show ?case using inv_lookup(1) by blast
next
  case (create st tasks now task iterator served st')
  then show ?case using inv_create [OF _ assms(1)] by blast
next
  case (refuse st tasks now task iterator err st')
  then show ?case using createContext_refused by blast
next
  case (serve st tasks served out signals result st')
  then show ?case using inv_serve by blast
next
  case (clear st tasks r)
  then show ?case using inv_evict by blast
qed

section \<open>Properties\<close>


text \<open>
  (C38) An execution can only be left behind when its run has a second context.  However tasks are
  interleaved, an event handler that is still there, with the goroutines it runs, belongs to a
  context that is in the cache under its own run, that waits to be cleared after it was
  dropped, or that a task is using, unless the worker has made another context for the same run.
\<close>

theorem no_orphaned_execution:
  assumes "disciplined (wth_registry wth)" and "worker_reachable wth n st tasks"
    and "r < length (wk_contexts st)" and "\<not> IsDestroyed (wk_contexts st ! r)"
  shows "cachedContext (wk_cache st) (runOf (wk_contexts st ! r)) = Some r \<or>
    r \<in> set (c_removed (wk_cache st)) \<or> r \<in> sv_context ` set tasks \<or>
    (\<exists>r' < length (wk_contexts st). r' \<noteq> r \<and> runOf (wk_contexts st ! r') = runOf (wk_contexts st ! r))"
proof -
  note inv = reachable_worker_inv [OF assms(1,2)]
  have "heldBy st tasks r \<or> rivalled st r" by (rule worker_invD(6) [OF inv assms(3,4)])
  then show ?thesis using worker_invD(4) [OF inv] by (auto simp: heldBy_def sticky_store.held_def rivalled_def)
qed

text \<open>The worker that serves the first task of the example workflow, which completes.\<close>

definition exArrived :: "servedTask \<times> workerState" where
  "exArrived = (case findContext exHandler 0 exTask None (newWorker 10) of (Inr (Inr t), st) \<Rightarrow> (t, st))"

definition exServed :: workerState where
  "exServed = (case serveTask exHandler exOutside [] (fst exArrived) (snd exArrived) of Some (r, st) \<Rightarrow> st)"

lemma exServed_reachable: "worker_reachable exHandler 10 exServed []"
proof -
  have "case fst (findContext exHandler 0 exTask None (newWorker 10)) of Inr (Inr _) \<Rightarrow> True | _ \<Rightarrow> False"
    by code_simp
  then have found: "findContext exHandler 0 exTask None (newWorker 10) = (Inr (Inr (fst exArrived)), snd exArrived)"
    unfolding exArrived_def by (auto split: prod.splits sum.splits)
  have "\<not> Option.is_none (serveTask exHandler exOutside [] (fst exArrived) (snd exArrived))" by code_simp
  then obtain r where served: "serveTask exHandler exOutside [] (fst exArrived) (snd exArrived) = Some (r, exServed)"
    unfolding exServed_def by (auto simp: Option.is_none_def)
  from worker_reachable.serve [OF reachable_find [OF worker_reachable.start found] _ served]
  show ?thesis by simp
qed

lemma exServed_state: "length (wk_contexts exServed) = 1" "c_removed (wk_cache exServed) = [0]"
  "\<not> IsDestroyed (wk_contexts exServed ! 0)" "runOf (wk_contexts exServed ! 0) = ''run''"
  "cachedContext (wk_cache exServed) ''run'' = None"
  by code_simp+

lemma exHandler_disciplined: "disciplined (wth_registry exHandler)"
  using exRegistry_disciplined by (simp add: exHandler_def)


theorem no_orphaned_execution_witness:
  "worker_reachable exHandler 10 exServed [] \<and> \<not> IsDestroyed (wk_contexts exServed ! 0) \<and>
   0 \<in> set (c_removed (wk_cache exServed))"
  using no_orphaned_execution [OF exHandler_disciplined exServed_reachable, of 0] exServed_state exServed_reachable
  by simp

text \<open>
  The lock is released by run and not by context.  A query that brings the whole history of a
  run that is in the cache gets a context of its own; on release the other one is found in
  the cache, and the event handler of the query is neither cached nor closed.
\<close>

definition exIdle :: workflowTaskHandlerImpl where
  "exIdle = exHandler\<lparr>wth_registry := (\<lambda>_. Inr \<lparr>wd_Execute = (\<lambda>_ _. go_return ()), wd_OnDecisionTaskStarted = go_return ()\<rparr>)\<rparr>"

definition exQuery :: PollForDecisionTaskResponse where
  "exQuery = exTask\<lparr>pt_StartedEventId := None, pt_Query := Some \<lparr>wq_QueryType = Some ''__query_types'', wq_QueryArgs = None\<rparr>\<rparr>"

definition serveAll :: "workflowTaskHandlerImpl \<Rightarrow> PollForDecisionTaskResponse \<Rightarrow> workerState \<Rightarrow> workerState" where
  "serveAll wth task st = (case findContext wth 0 task None st of
      (Inr (Inr t), st) \<Rightarrow> (case serveTask wth exOutside [] t st of Some (_, st) \<Rightarrow> st | None \<Rightarrow> st)
    | (_, st) \<Rightarrow> st)"

lemma query_context_orphaned:
  fixes st :: workerState
  defines "st \<equiv> serveAll exIdle exQuery (serveAll exIdle exTask (newWorker 10))"
  shows "length (wk_contexts st) = 2" "\<not> IsDestroyed (wk_contexts st ! 1)" "runOf (wk_contexts st ! 1) = ''run''"
    "cachedContext (wk_cache st) ''run'' = Some 0" "c_removed (wk_cache st) = []"
  unfolding st_def by code_simp+

text \<open>
  The same happens to a query that overlaps a decision task.  The query comes first and gets a
  context that is not put into the cache; the decision task of the run, which finds nothing
  there, puts its own; on release the query finds that one under its run, and leaves the event
  handler it ran on open, with no task, no cache entry and no eviction to close it.
\<close>

definition exQueried :: "servedTask \<times> workerState" where
  "exQueried = (case findContext exIdle 0 exQuery None (newWorker 10) of (Inr (Inr t), st) \<Rightarrow> (t, st))"

definition exDecided :: "servedTask \<times> workerState" where
  "exDecided = (case findContext exIdle 0 exTask None (snd exQueried) of (Inr (Inr t), st) \<Rightarrow> (t, st))"

definition exAnswered :: workerState where
  "exAnswered = (case serveTask exIdle exOutside [] (fst exQueried) (snd exDecided) of Some (r, st) \<Rightarrow> st)"

definition exOverlapped :: workerState where
  "exOverlapped = (case serveTask exIdle exOutside [] (fst exDecided) exAnswered of Some (r, st) \<Rightarrow> st)"

lemma exOverlapped_reachable: "worker_reachable exIdle 10 exOverlapped []"
proof -
  have "case fst (findContext exIdle 0 exQuery None (newWorker 10)) of Inr (Inr _) \<Rightarrow> True | _ \<Rightarrow> False"
    by code_simp
  then have q: "findContext exIdle 0 exQuery None (newWorker 10) = (Inr (Inr (fst exQueried)), snd exQueried)"
    unfolding exQueried_def by (auto split: prod.splits sum.splits)
  have "case fst (findContext exIdle 0 exTask None (snd exQueried)) of Inr (Inr _) \<Rightarrow> True | _ \<Rightarrow> False"
    by code_simp
  then have d: "findContext exIdle 0 exTask None (snd exQueried) = (Inr (Inr (fst exDecided)), snd exDecided)"
    unfolding exDecided_def by (auto split: prod.splits sum.splits)
  have "\<not> Option.is_none (serveTask exIdle exOutside [] (fst exQueried) (snd exDecided))" by code_simp
  then obtain r where a: "serveTask exIdle exOutside [] (fst exQueried) (snd exDecided) = Some (r, exAnswered)"
    unfolding exAnswered_def by (auto simp: Option.is_none_def)
  have "\<not> Option.is_none (serveTask exIdle exOutside [] (fst exDecided) exAnswered)" by code_simp
  then obtain r' where o: "serveTask exIdle exOutside [] (fst exDecided) exAnswered = Some (r', exOverlapped)"
    unfolding exOverlapped_def by (auto simp: Option.is_none_def)
  have "sv_context (fst exQueried) \<noteq> sv_context (fst exDecided)" by code_simp
  then have "remove1 (fst exQueried) [fst exDecided, fst exQueried] = [fst exDecided]" by auto
  then have "worker_reachable exIdle 10 exAnswered [fst exDecided]"
    using worker_reachable.serve [OF reachable_find [OF reachable_find [OF worker_reachable.start q] d] _ a] by simp
  from worker_reachable.serve [OF this _ o] show ?thesis by simp
qed

lemma overlapping_query_orphaned:
  "length (wk_contexts exOverlapped) = 2" "\<not> IsDestroyed (wk_contexts exOverlapped ! 0)"
  "runOf (wk_contexts exOverlapped ! 0) = ''run''" "cachedContext (wk_cache exOverlapped) ''run'' = Some 1"
  "c_removed (wk_cache exOverlapped) = []"
  by code_simp+

text \<open>
  A context that is rebuilt keeps its \<open>workflowInfo\<close>, and the estimated size of the history,
  which is added up event by event, counts the replayed events once more.
\<close>

definition historyBytes :: "workerState \<Rightarrow> int" where
  "historyBytes st = sint (wi_TotalHistoryBytes (workflowInfoOf (wk_contexts st ! 0)))"

lemma rebuilt_history_counted_twice:
  "0 < historyBytes (serveAll exIdle exTask (newWorker 10))"
  "historyBytes (serveAll exIdle exTask (serveAll exIdle exTask (newWorker 10))) =
     2 * historyBytes (serveAll exIdle exTask (newWorker 10))"
  by code_simp+

end
