(* ===== verification/Workflow_Channels.thy ===== *)
theory Workflow_Channels
  imports Go_Prelude Cadence_Errors
begin

text \<open>
  Channels, futures, selectors and wait groups of workflow code,
  \<open>src/internal/internal_workflow.go\<close> with the constructors of \<open>src/internal/workflow.go\<close>.

  The user's code is a parameter: a possibly infinite tree of requests (\<open>code\<close>), whose
  continuations take the reply.  Coroutines of a workflow share variables, which are the
  memory \<open>'m\<close>; ordinary computation is the node \<open>Compute\<close>.  Methods that only combine
  others, such as \<open>Get\<close> of a future, are code in the same sense.

  Channels, futures, selectors and wait groups are objects of the \<open>runtime\<close>, referred to by
  their index.  Closures registered with a channel assign variables of the call that made
  them; these calls are objects too, and a closure is the reference to its call.  Names of
  channels and selectors only appear in stack traces and are left out.

  Three fields of a channel observe it and are never read by the code: \<open>ch_sends\<close>, the values
  in the order in which they were sent, \<open>ch_accepted\<close>, those whose sender was told that they were
  taken, and \<open>ch_delivered\<close>, the values handed to receivers.  \<open>rt_corrupted\<close> is the metric
  \<open>CorruptedSignalsCounter\<close>.

  The condition of \<open>Await\<close> reads the memory and does not change it.  A Go map has no order; the
  names of unhandled signals come in the order in which their channels were made.  Contexts
  only matter for the channel of a cancellation; a coroutine that blocks through the context
  of another one, which panics, is not modelled.
\<close>

section \<open>Values and pointers to them\<close>

datatype goPointer = NilPointer | NotPointer | PointerTo goType

definition interfaceType :: goType where
  "interfaceType = TOpaque ''interface {}''"

definition AssignableTo :: "goValue \<Rightarrow> goType \<Rightarrow> bool" where
  "AssignableTo v t \<longleftrightarrow> typeOf v = Some t \<or> t = interfaceType"

fun typeName :: "goType \<Rightarrow> string" where
  "typeName TString = ''string''"
| "typeName TInt = ''int''"
| "typeName TBytes = ''''"
| "typeName TStrings = ''''"
| "typeName TTimeoutType = ''TimeoutType''"
| "typeName TEncodedValues = ''EncodedValues''"
| "typeName TLocalActivityMarkerData = ''localActivityMarkerData''"
| "typeName (TOpaque n) = n"

definition decodeArg :: "DataConverter \<Rightarrow> nbytes \<Rightarrow> goType \<Rightarrow> string + goValue option" where
  "decodeArg dc data t = (case FromData dc data [t] of
      (_, Some err) \<Rightarrow> Inl err
    | (vs, None) \<Rightarrow> Inr (case vs of [] \<Rightarrow> None | v # _ \<Rightarrow> Some v))"

text \<open>The error, or the value stored through the pointer, if any.\<close>

definition decodeAndAssignValue :: "DataConverter \<Rightarrow> goValue \<Rightarrow> goPointer \<Rightarrow> string + goValue option" where
  "decodeAndAssignValue dc from toValuePtr = (case toValuePtr of
      NilPointer \<Rightarrow> Inr None
    | NotPointer \<Rightarrow> Inl ''value parameter provided is not a pointer''
    | PointerTo toType \<Rightarrow> (case from of
          GoBytes data \<Rightarrow> decodeArg dc data toType
        | _ \<Rightarrow> (case typeOf from of
            None \<Rightarrow> Inr None
          | Some fromType \<Rightarrow>
              if \<not> AssignableTo from toType
              then Inl (typeName fromType @ '' is not assignable to  '' @ typeName toType)
              else Inr (Some from))))"

section \<open>Code and objects\<close>

text \<open>One case of a selector; \<open>'c\<close> is the code of its function.  The function of a future case is
  dropped once it was called.\<close>

datatype 'c selectCase =
    ReceiveCase nat "bool \<Rightarrow> 'c"
  | SendCase nat goValue 'c
  | FutureCase nat "'c option"

text \<open>Requests that are answered at once.  \<open>ChannelOf\<close>, \<open>GetRest\<close>, \<open>WaitStart\<close> and \<open>WaitRest\<close>
  are parts of the methods \<open>Get\<close> and \<open>Wait\<close> between their blocking calls.\<close>

datatype request =
    NewBufferedChannel DataConverter int
  | SendAsync nat goValue
  | Close nat
  | NewFuture DataConverter
  | Set nat goValue "goError option"
  | SetValue nat goValue
  | SetError nat "goError option"
  | Chain nat nat
  | IsReady nat
  | ChannelOf nat
  | GetRest nat DataConverter goPointer bool
  | NewSelector
  | NewWaitGroup DataConverter
  | Add nat int
  | WaitStart nat
  | WaitRest nat DataConverter "goError option" "goValue option"
  | GetSignalChannel DataConverter string
  | GetUnhandledSignalNames
  | SetResult nbytes "goError option"

datatype reply =
    Nothing
  | Ref nat
  | Flag bool
  | Got "goError option" "goValue option"
  | Names "string list"

codatatype 'm code =
    Return
  | Fail string
  | Compute "'m \<Rightarrow> 'm code \<times> 'm"
  | Call request "reply \<Rightarrow> 'm code"
  | ReceiveAsync nat goPointer "bool \<Rightarrow> bool \<Rightarrow> goValue option \<Rightarrow> 'm code"
  | Receive nat goPointer "bool \<Rightarrow> goValue option \<Rightarrow> 'm code"
  | Send nat goValue "'m code"
  | AddCase nat "'m code selectCase" "'m code"
  | AddDefault nat "'m code" "'m code"
  | Select nat "'m code"
  | Await "'m \<Rightarrow> bool" "nat option" "goError option \<Rightarrow> 'm code"
  | Go "'m code" "'m code"

text \<open>Callbacks in the queues of a channel: of a call of \<open>Receive\<close> or \<open>Send\<close>, or of a case of a call
  of \<open>Select\<close>.\<close>

datatype receiveCallback = ReceiveCallback nat | SelectReceive nat nat

datatype sendCallback = SendCallback goValue nat | SelectSend goValue nat nat

fun callbackValue :: "sendCallback \<Rightarrow> goValue" where
  "callbackValue (SendCallback v _) = v"
| "callbackValue (SelectSend v _ _) = v"

record channelImpl =
  ch_size :: int
  ch_buffer :: "goValue list"
  ch_blockedSends :: "sendCallback list"
  ch_blockedReceives :: "receiveCallback list"
  ch_closed :: bool
  ch_recValue :: "goValue option"
  ch_dataConverter :: DataConverter
  ch_sends :: "goValue list"
  ch_accepted :: "goValue list"
  ch_delivered :: "goValue list"

record futureImpl =
  fu_value :: goValue
  fu_err :: "goError option"
  fu_ready :: bool
  fu_channel :: nat
  fu_chained :: "nat list"

record waitGroupImpl =
  wg_n :: int
  wg_waiting :: bool
  wg_future :: nat

record 'm selectorImpl =
  se_cases :: "'m code selectCase list"
  se_defaultFunc :: "'m code option"

text \<open>Variables of a call of \<open>Receive\<close>.\<close>

record receiveCall =
  rc_hasResult :: bool
  rc_result :: goValue
  rc_more :: bool

text \<open>Variables of a call of \<open>Select\<close>: the selector and its cases when it was called, the branch
  that is ready, and what has to be removed in the end.\<close>

datatype readyBranch = EmptyBranch | BranchOf nat goValue bool

datatype cleanup = RemoveReceive nat receiveCallback | RemoveSend nat sendCallback

record 'm selectCall =
  sc_selector :: nat
  sc_cases :: "'m code selectCase list"
  sc_readyBranch :: "readyBranch option"
  sc_cleanups :: "cleanup list"

text \<open>Where a coroutine is between two turns: about to execute code, or in a blocking call.\<close>

datatype 'm control =
    Executing "'m code"
  | AtReceive nat nat goPointer "bool \<Rightarrow> goValue option \<Rightarrow> 'm code"
  | AtSend nat nat "'m code"
  | AtSelect nat "'m code"
  | AtAwait "'m \<Rightarrow> bool" "nat option" "goError option \<Rightarrow> 'm code"
  | AtStart "'m code" \<comment> \<open>the root function, before its first call of \<open>yield\<close>\<close>
  | AtYield "'m code"

text \<open>A function of a selector case is running: the call of \<open>Select\<close>, whether it had blocked, and the
  code after the call.\<close>

datatype 'm selectFrame = SelectFrame nat bool "'m code"

record 'm coroutineState =
  co_control :: "'m control"
  co_frames :: "'m selectFrame list"
  co_keptBlocked :: bool
  co_closed :: bool
  co_panicError :: "string option"

record 'm runtime =
  rt_memory :: 'm
  rt_channels :: "channelImpl list"
  rt_futures :: "futureImpl list"
  rt_waitGroups :: "waitGroupImpl list"
  rt_selectors :: "'m selectorImpl list"
  rt_receives :: "receiveCall list"
  rt_sends :: "bool list" \<comment> \<open>\<open>valueConsumed\<close> of the calls of \<open>Send\<close>\<close>
  rt_selects :: "'m selectCall list"
  rt_signalChannels :: "(string \<times> nat) list"
  rt_result :: "(nbytes \<times> goError option) option"
  rt_corrupted :: nat
  d_sequence :: nat
  d_coroutines :: "'m coroutineState list"
  d_executing :: bool
  d_closed :: bool

type_synonym ('m, 'a) rgo = "('m runtime, string, 'a) go"

definition nilPointer :: string where
  "nilPointer = ''invalid memory address or nil pointer dereference''"

definition object :: "('m runtime \<Rightarrow> 'x list) \<Rightarrow> nat \<Rightarrow> ('m, 'x) rgo" where
  "object heap n rt = (if n < length (heap rt) then Inr (heap rt ! n) else Inl nilPointer, rt)"

definition updChannel :: "nat \<Rightarrow> (channelImpl \<Rightarrow> channelImpl) \<Rightarrow> 'm runtime \<Rightarrow> 'm runtime" where
  "updChannel c f rt = rt\<lparr>rt_channels := (rt_channels rt)[c := f (rt_channels rt ! c)]\<rparr>"

definition updFuture :: "nat \<Rightarrow> (futureImpl \<Rightarrow> futureImpl) \<Rightarrow> 'm runtime \<Rightarrow> 'm runtime" where
  "updFuture n f rt = rt\<lparr>rt_futures := (rt_futures rt)[n := f (rt_futures rt ! n)]\<rparr>"

definition updWaitGroup :: "nat \<Rightarrow> (waitGroupImpl \<Rightarrow> waitGroupImpl) \<Rightarrow> 'm runtime \<Rightarrow> 'm runtime" where
  "updWaitGroup n f rt = rt\<lparr>rt_waitGroups := (rt_waitGroups rt)[n := f (rt_waitGroups rt ! n)]\<rparr>"

definition updSelector :: "nat \<Rightarrow> ('m selectorImpl \<Rightarrow> 'm selectorImpl) \<Rightarrow> 'm runtime \<Rightarrow> 'm runtime" where
  "updSelector n f rt = rt\<lparr>rt_selectors := (rt_selectors rt)[n := f (rt_selectors rt ! n)]\<rparr>"

definition updReceive :: "nat \<Rightarrow> (receiveCall \<Rightarrow> receiveCall) \<Rightarrow> 'm runtime \<Rightarrow> 'm runtime" where
  "updReceive n f rt = rt\<lparr>rt_receives := (rt_receives rt)[n := f (rt_receives rt ! n)]\<rparr>"

definition updSelect :: "nat \<Rightarrow> ('m selectCall \<Rightarrow> 'm selectCall) \<Rightarrow> 'm runtime \<Rightarrow> 'm runtime" where
  "updSelect n f rt = rt\<lparr>rt_selects := (rt_selects rt)[n := f (rt_selects rt ! n)]\<rparr>"

lemmas upd_defs = updChannel_def updFuture_def updWaitGroup_def updSelector_def updReceive_def updSelect_def

section \<open>Channels\<close>

text \<open>Calling a callback; the answer is whether it took the value.\<close>

fun receiveFn :: "receiveCallback \<Rightarrow> goValue \<Rightarrow> bool \<Rightarrow> 'm runtime \<Rightarrow> bool \<times> 'm runtime" where
  "receiveFn (ReceiveCallback n) v m rt =
     (True, updReceive n (\<lambda>_. \<lparr>rc_hasResult = True, rc_result = v, rc_more = m\<rparr>) rt)"
| "receiveFn (SelectReceive n i) v m rt =
     (if sc_readyBranch (rt_selects rt ! n) \<noteq> None then (False, rt)
      else (True, updSelect n (sc_readyBranch_update (\<lambda>_. Some (BranchOf i v m))) rt))"

fun sendFn :: "sendCallback \<Rightarrow> 'm runtime \<Rightarrow> bool \<times> 'm runtime" where
  "sendFn (SendCallback v n) rt = (True, rt\<lparr>rt_sends := (rt_sends rt)[n := True]\<rparr>)"
| "sendFn (SelectSend v n i) rt =
     (if sc_readyBranch (rt_selects rt ! n) \<noteq> None then (False, rt)
      else (True, updSelect n (sc_readyBranch_update (\<lambda>_. Some (BranchOf i v True))) rt))"

text \<open>The loops that take callbacks from a queue until one accepts.\<close>

fun takeReceive :: "nat \<Rightarrow> goValue \<Rightarrow> receiveCallback list \<Rightarrow> 'm runtime \<Rightarrow> bool \<times> 'm runtime" where
  "takeReceive c v [] rt = (False, rt)"
| "takeReceive c v (b # bs) rt = (case receiveFn b v True (updChannel c (ch_blockedReceives_update (\<lambda>_. bs)) rt) of
      (ok, rt) \<Rightarrow> if ok then (True, rt) else takeReceive c v bs rt)"

fun takeSend :: "nat \<Rightarrow> sendCallback list \<Rightarrow> 'm runtime \<Rightarrow> goValue option \<times> 'm runtime" where
  "takeSend c [] rt = (None, rt)"
| "takeSend c (b # bs) rt = (case sendFn b (updChannel c (ch_blockedSends_update (\<lambda>_. bs)) rt) of
      (ok, rt) \<Rightarrow> if ok then (Some (callbackValue b), rt) else takeSend c bs rt)"

definition accept :: "nat \<Rightarrow> goValue \<Rightarrow> 'm runtime \<Rightarrow> 'm runtime" where
  "accept c v = updChannel c (ch_accepted_update (\<lambda>vs. vs @ [v]))"

definition deliver :: "nat \<Rightarrow> goValue \<Rightarrow> 'm runtime \<Rightarrow> 'm runtime" where
  "deliver c v = updChannel c (ch_delivered_update (\<lambda>vs. vs @ [v]))"

text \<open>The value, whether one was received, and whether more can come.\<close>

definition receiveAsyncImpl :: "nat \<Rightarrow> receiveCallback option \<Rightarrow> 'm runtime \<Rightarrow> (goValue \<times> bool \<times> bool) \<times> 'm runtime" where
  "receiveAsyncImpl c callback rt = (let ch = rt_channels rt ! c in
     case ch_recValue ch of
       Some r \<Rightarrow> ((r, True, True), updChannel c (ch_recValue_update (\<lambda>_. None)) rt)
     | None \<Rightarrow> (case ch_buffer ch of
         r # rs \<Rightarrow>
           (case takeSend c (ch_blockedSends ch) (deliver c r (updChannel c (ch_buffer_update (\<lambda>_. rs)) rt)) of
             (None, rt) \<Rightarrow> ((r, True, True), rt)
           | (Some v, rt) \<Rightarrow> ((r, True, True), updChannel c (ch_buffer_update (\<lambda>vs. vs @ [v])) (accept c v rt)))
       | [] \<Rightarrow>
           if ch_closed ch then ((GoNil, False, False), rt)
           else (case takeSend c (ch_blockedSends ch) rt of
               (Some v, rt) \<Rightarrow> ((v, True, True), deliver c v (accept c v rt))
             | (None, rt) \<Rightarrow> ((GoNil, False, True), (case callback of
                   None \<Rightarrow> rt
                 | Some b \<Rightarrow> updChannel c (ch_blockedReceives_update (\<lambda>bs. bs @ [b])) rt)))))"

definition noteSend :: "nat \<Rightarrow> goValue \<Rightarrow> 'm runtime \<Rightarrow> 'm runtime" where
  "noteSend c v = updChannel c (ch_sends_update (\<lambda>vs. vs @ [v]))"

definition sendAsyncImpl :: "nat \<Rightarrow> goValue \<Rightarrow> sendCallback option \<Rightarrow> ('m, bool) rgo" where
  "sendAsyncImpl c v pair rt = (
     if ch_closed (rt_channels rt ! c) then (Inl ''Closed channel'', rt)
     else case takeReceive c v (ch_blockedReceives (rt_channels rt ! c)) rt of
       (True, rt) \<Rightarrow> (Inr True, deliver c v (accept c v (noteSend c v rt)))
     | (False, rt) \<Rightarrow>
         if int (length (ch_buffer (rt_channels rt ! c))) < ch_size (rt_channels rt ! c)
         then (Inr True, updChannel c (ch_buffer_update (\<lambda>vs. vs @ [v])) (accept c v (noteSend c v rt)))
         else (Inr False, (case pair of
             None \<Rightarrow> rt
           | Some b \<Rightarrow> updChannel c (ch_blockedSends_update (\<lambda>bs. bs @ [b])) (noteSend c v rt))))"

fun notifyClosed :: "receiveCallback list \<Rightarrow> 'm runtime \<Rightarrow> 'm runtime" where
  "notifyClosed [] rt = rt"
| "notifyClosed (b # bs) rt = notifyClosed bs (snd (receiveFn b GoNil False rt))"

definition closeChannel :: "nat \<Rightarrow> 'm runtime \<Rightarrow> 'm runtime" where
  "closeChannel c rt = (let rt = updChannel c (ch_closed_update (\<lambda>_. True)) rt in
     notifyClosed (ch_blockedReceives (rt_channels rt ! c)) rt)"

definition removeReceiveCallback :: "nat \<Rightarrow> receiveCallback \<Rightarrow> 'm runtime \<Rightarrow> 'm runtime" where
  "removeReceiveCallback c b = updChannel c (ch_blockedReceives_update (remove1 b))"

definition removeSendCallback :: "nat \<Rightarrow> sendCallback \<Rightarrow> 'm runtime \<Rightarrow> 'm runtime" where
  "removeSendCallback c b = updChannel c (ch_blockedSends_update (remove1 b))"

definition assignValue :: "nat \<Rightarrow> goValue \<Rightarrow> goPointer \<Rightarrow> 'm runtime \<Rightarrow> (string + goValue option) \<times> 'm runtime" where
  "assignValue c from to rt = (case decodeAndAssignValue (ch_dataConverter (rt_channels rt ! c)) from to of
      Inl err \<Rightarrow> (Inl err, rt\<lparr>rt_corrupted := rt_corrupted rt + 1\<rparr>)
    | Inr a \<Rightarrow> (Inr a, rt))"

definition newChannel :: "DataConverter \<Rightarrow> int \<Rightarrow> 'm runtime \<Rightarrow> nat \<times> 'm runtime" where
  "newChannel dc sz rt = (length (rt_channels rt), rt\<lparr>rt_channels := rt_channels rt @
     [\<lparr>ch_size = sz, ch_buffer = [], ch_blockedSends = [], ch_blockedReceives = [], ch_closed = False,
       ch_recValue = None, ch_dataConverter = dc, ch_sends = [], ch_accepted = [], ch_delivered = []\<rparr>]\<rparr>)"

text \<open>\<open>ReceiveAsyncWithMoreFlag\<close>; the loop may run forever.\<close>

partial_function (option) ReceiveAsyncWithMoreFlag ::
    "nat \<Rightarrow> goPointer \<Rightarrow> 'm runtime \<Rightarrow> ((bool \<times> bool \<times> goValue option) \<times> 'm runtime) option" where
  "ReceiveAsyncWithMoreFlag c valuePtr rt = (case receiveAsyncImpl c None rt of
     ((v, ok, m), rt) \<Rightarrow>
       if \<not> ok \<and> \<not> m then Some ((ok, m, None), rt)
       else (case assignValue c v valuePtr rt of
           (Inl _, rt) \<Rightarrow> ReceiveAsyncWithMoreFlag c valuePtr rt
         | (Inr a, rt) \<Rightarrow> Some ((ok, m, a), rt)))"

declare ReceiveAsyncWithMoreFlag.simps [code]

section \<open>Futures and wait groups\<close>

definition newFuture :: "DataConverter \<Rightarrow> 'm runtime \<Rightarrow> nat \<times> 'm runtime" where
  "newFuture dc rt = (case newChannel dc 0 rt of (c, rt) \<Rightarrow>
     (length (rt_futures rt), rt\<lparr>rt_futures := rt_futures rt @
        [\<lparr>fu_value = GoNil, fu_err = None, fu_ready = False, fu_channel = c, fu_chained = []\<rparr>]\<rparr>))"

definition unset :: "'m runtime \<Rightarrow> nat" where
  "unset rt = length (filter (\<lambda>f. \<not> fu_ready f) (rt_futures rt))"

definition makeReady :: "nat \<Rightarrow> goValue \<Rightarrow> goError option \<Rightarrow> 'm runtime \<Rightarrow> 'm runtime" where
  "makeReady f v err rt = closeChannel (fu_channel (rt_futures rt ! f))
     (updFuture f (\<lambda>fu. fu\<lparr>fu_value := v, fu_err := err, fu_ready := True\<rparr>) rt)"

lemma rt_futures_receiveFn [simp]: "rt_futures (snd (receiveFn b v m rt)) = rt_futures rt"
  by (cases b) (simp_all add: upd_defs)

lemma rt_futures_notifyClosed [simp]: "rt_futures (notifyClosed bs rt) = rt_futures rt"
  by (induction bs arbitrary: rt) simp_all

lemma rt_futures_closeChannel [simp]: "rt_futures (closeChannel c rt) = rt_futures rt"
  by (simp add: closeChannel_def Let_def updChannel_def)

lemma filter_update_less:
  "i < length xs \<Longrightarrow> P (xs ! i) \<Longrightarrow> \<not> P y \<Longrightarrow> length (filter P (xs[i := y])) < length (filter P xs)"
  by (induction xs arbitrary: i) (auto split: nat.splits)

lemma unset_makeReady:
  "f < length (rt_futures rt) \<Longrightarrow> \<not> fu_ready (rt_futures rt ! f) \<Longrightarrow> unset (makeReady f v err rt) < unset rt"
  by (simp add: unset_def makeReady_def updFuture_def filter_update_less)

text \<open>\<open>Set\<close> of the futures of a list in turn, each followed by the futures chained to it.\<close>

function setAll :: "nat list \<Rightarrow> goValue \<Rightarrow> goError option \<Rightarrow> ('m, unit) rgo" where
  "setAll [] v err rt = (Inr (), rt)"
| "setAll (f # fs) v err rt = (
     if \<not> f < length (rt_futures rt) then (Inl nilPointer, rt)
     else if fu_ready (rt_futures rt ! f) then (Inl ''already set'', rt)
     else setAll (fu_chained (rt_futures rt ! f) @ fs) v err (makeReady f v err rt))"
  by pat_completeness auto

termination
  by (relation "measure (\<lambda>(_, _, _, rt). unset rt)") (simp_all add: unset_makeReady)

definition futureSet :: "nat \<Rightarrow> goValue \<Rightarrow> goError option \<Rightarrow> ('m, unit) rgo" where
  "futureSet f v err = setAll [f] v err"

definition futureChain :: "nat \<Rightarrow> nat \<Rightarrow> ('m, unit) rgo" where
  "futureChain f future = go_bind (object rt_futures f) (\<lambda>fu.
     if fu_ready fu then go_panic ''already set''
     else go_bind (object rt_futures future) (\<lambda>ch.
       if \<not> fu_ready ch then go_modify (updFuture future (fu_chained_update (\<lambda>fs. fs @ [f])))
       else go_modify (updFuture f (\<lambda>fu. fu\<lparr>fu_value := fu_value ch, fu_err := fu_err ch, fu_ready := True\<rparr>))))"

text \<open>\<open>Get\<close> after its channel was received from.\<close>

definition getRest :: "nat \<Rightarrow> DataConverter \<Rightarrow> goPointer \<Rightarrow> bool \<Rightarrow> ('m, goError option \<times> goValue option) rgo" where
  "getRest f dc valuePtr m = (
     if m then go_panic ''not closed''
     else go_bind (object rt_futures f) (\<lambda>fu.
       if \<not> fu_ready fu then go_panic ''not ready''
       else if fu_err fu \<noteq> None \<or> fu_value fu = GoNil \<or> valuePtr = NilPointer then go_return (fu_err fu, None)
       else (case valuePtr of
           PointerTo t \<Rightarrow> (case (fu_value fu, t = TBytes) of
               (GoBytes blob, False) \<Rightarrow> (case decodeArg dc blob t of
                   Inl e \<Rightarrow> go_return (Some (PlainError e), None)
                 | Inr a \<Rightarrow> go_return (fu_err fu, a))
             | _ \<Rightarrow> if AssignableTo (fu_value fu) t then go_return (fu_err fu, Some (fu_value fu))
                 else go_panic ''reflect.Set: value is not assignable'')
         | _ \<Rightarrow> go_return (Some (PlainError ''value parameter is not a pointer''), None))))"

text \<open>\<open>GetAsync\<close>: whether the future is ready; otherwise the callback is registered.\<close>

definition GetAsync :: "nat \<Rightarrow> receiveCallback \<Rightarrow> ('m, bool) rgo" where
  "GetAsync f callback = go_bind (object rt_futures f) (\<lambda>fu rt.
     case receiveAsyncImpl (fu_channel fu) (Some callback) rt of ((_, _, m), rt) \<Rightarrow>
       if m then (Inr False, rt)
       else if \<not> fu_ready fu then (Inl ''not ready'', rt)
       else (Inr True, rt))"

definition falseValue :: goValue where
  "falseValue = GoOpaque ''bool'' ''false''"

definition waitGroupAdd :: "nat \<Rightarrow> int \<Rightarrow> ('m, unit) rgo" where
  "waitGroupAdd w delta = go_bind (object rt_waitGroups w) (\<lambda>wg. let n = wg_n wg + delta in
     go_then (go_modify (updWaitGroup w (wg_n_update (\<lambda>_. n))))
       (if n < 0 then go_panic ''negative WaitGroup counter''
        else if n > 0 \<or> \<not> wg_waiting wg then go_return ()
        else futureSet (wg_future wg) falseValue None))"

text \<open>\<open>Wait\<close> before and after its future is waited for.\<close>

definition waitStart :: "nat \<Rightarrow> ('m, nat option) rgo" where
  "waitStart w = go_bind (object rt_waitGroups w) (\<lambda>wg.
     if wg_n wg \<le> 0 then go_return None
     else if wg_waiting wg then go_panic ''WaitGroup is reused before previous Wait has returned''
     else go_then (go_modify (updWaitGroup w (wg_waiting_update (\<lambda>_. True)))) (go_return (Some (wg_future wg))))"

definition waitRest :: "nat \<Rightarrow> DataConverter \<Rightarrow> goError option \<Rightarrow> goValue option \<Rightarrow> ('m, unit) rgo" where
  "waitRest w dc err a = go_then
     (go_modify (\<lambda>rt. if a = Some falseValue then updWaitGroup w (wg_waiting_update (\<lambda>_. False)) rt else rt))
     (if err \<noteq> None then go_panic ''error of a wait group's future''
      else go_modify (\<lambda>rt. case newFuture dc rt of (f, rt) \<Rightarrow> updWaitGroup w (wg_future_update (\<lambda>_. f)) rt))"

section \<open>Signal channels\<close>

definition defaultSignalChannelSize :: int where
  "defaultSignalChannelSize = 100000"

definition getSignalChannel :: "DataConverter \<Rightarrow> string \<Rightarrow> 'm runtime \<Rightarrow> nat \<times> 'm runtime" where
  "getSignalChannel dc signalName rt = (case map_of (rt_signalChannels rt) signalName of
      Some c \<Rightarrow> (c, rt)
    | None \<Rightarrow> (case newChannel dc defaultSignalChannelSize rt of (c, rt) \<Rightarrow>
        (c, rt\<lparr>rt_signalChannels := (signalName, c) # rt_signalChannels rt\<rparr>)))"

text \<open>The signal handler that \<open>Execute\<close> registers with the environment.\<close>

definition signalHandler :: "DataConverter \<Rightarrow> string \<Rightarrow> nbytes \<Rightarrow> ('m, unit) rgo" where
  "signalHandler dc name result rt = (case getSignalChannel dc name rt of (c, rt) \<Rightarrow>
     go_bind (sendAsyncImpl c (GoBytes result) None) (\<lambda>ok.
       if \<not> ok then go_panic (''Exceeded channel buffer size for signal: '' @ name) else go_return ()) rt)"

fun unhandledSignals :: "(string \<times> nat) list \<Rightarrow> 'm runtime \<Rightarrow> string list \<times> 'm runtime" where
  "unhandledSignals [] rt = ([], rt)"
| "unhandledSignals ((k, c) # cs) rt = (case receiveAsyncImpl c None rt of ((v, ok, _), rt) \<Rightarrow>
     if ok then (case unhandledSignals cs (updChannel c (ch_recValue_update (\<lambda>_. Some v)) rt) of (ks, rt) \<Rightarrow> (k # ks, rt))
     else unhandledSignals cs rt)"

definition getUnhandledSignalNames :: "('m, string list) rgo" where
  "getUnhandledSignalNames rt = (case unhandledSignals (rt_signalChannels rt) rt of (ks, rt) \<Rightarrow> (Inr ks, rt))"

section \<open>Selectors\<close>

definition dropFutureFunc :: "nat \<Rightarrow> nat \<Rightarrow> 'm runtime \<Rightarrow> 'm runtime" where
  "dropFutureFunc s i = updSelector s (se_cases_update (\<lambda>cs. cs[i := (case cs ! i of
     FutureCase f _ \<Rightarrow> FutureCase f None | c \<Rightarrow> c)]))"

definition setReady :: "nat \<Rightarrow> readyBranch \<Rightarrow> 'm runtime \<Rightarrow> 'm runtime" where
  "setReady n b = updSelect n (sc_readyBranch_update (\<lambda>_. Some b))"

definition addCleanup :: "nat \<Rightarrow> cleanup \<Rightarrow> 'm runtime \<Rightarrow> 'm runtime" where
  "addCleanup n cl = updSelect n (sc_cleanups_update (\<lambda>cls. cls @ [cl]))"

text \<open>
  The loop of \<open>Select\<close> over the cases, from the \<open>i\<close>th on, in the call \<open>n\<close>: the code of the first
  case that is ready, or none and the callbacks of all cases are registered.
\<close>

fun selectCases :: "nat \<Rightarrow> nat \<Rightarrow> nat \<Rightarrow> 'm code selectCase list \<Rightarrow> ('m, 'm code option) rgo" where
  "selectCases s n i [] = go_return None"
| "selectCases s n i (ReceiveCase c f # cs) = go_then (object rt_channels c) (\<lambda>rt.
     case receiveAsyncImpl c (Some (SelectReceive n i)) rt of ((v, ok, m), rt) \<Rightarrow>
       if ok \<or> \<not> m
       then (Inr (Some (f m)), (if m then updChannel c (ch_recValue_update (\<lambda>_. Some v)) else id) (setReady n EmptyBranch rt))
       else selectCases s n (Suc i) cs (addCleanup n (RemoveReceive c (SelectReceive n i)) rt))"
| "selectCases s n i (SendCase c v f # cs) = go_then (object rt_channels c)
     (go_bind (sendAsyncImpl c v (Some (SelectSend v n i))) (\<lambda>ok rt.
       if ok then (Inr (Some f), setReady n EmptyBranch rt)
       else selectCases s n (Suc i) cs (addCleanup n (RemoveSend c (SelectSend v n i)) rt)))"
| "selectCases s n i (FutureCase fu None # cs) = selectCases s n (Suc i) cs"
| "selectCases s n i (FutureCase fu (Some f) # cs) = go_bind (GetAsync fu (SelectReceive n i)) (\<lambda>ok rt.
     if ok then (Inr (Some f), dropFutureFunc s i (setReady n EmptyBranch rt))
     else selectCases s n (Suc i) cs
       (addCleanup n (RemoveReceive (fu_channel (rt_futures rt ! fu)) (SelectReceive n i)) rt))"

text \<open>The function \<open>readyBranch\<close> that a callback has set: its effect, and the code of the case.\<close>

definition branchCase :: "nat \<Rightarrow> nat \<Rightarrow> 'm runtime \<Rightarrow> 'm code selectCase option" where
  "branchCase n i rt = (if n < length (rt_selects rt) \<and> i < length (sc_cases (rt_selects rt ! n))
     then Some (sc_cases (rt_selects rt ! n) ! i) else None)"

definition runBranch :: "nat \<Rightarrow> readyBranch \<Rightarrow> 'm runtime \<Rightarrow> 'm code \<times> 'm runtime" where
  "runBranch n b rt = (case b of
      EmptyBranch \<Rightarrow> (Return, rt)
    | BranchOf i v m \<Rightarrow> (case branchCase n i rt of
        Some (ReceiveCase c f) \<Rightarrow> (f m, updChannel c (ch_recValue_update (\<lambda>_. Some v)) rt)
      | Some (SendCase c _ f) \<Rightarrow> (f, rt)
      | Some (FutureCase fu (Some f)) \<Rightarrow> (f, dropFutureFunc (sc_selector (rt_selects rt ! n)) i rt)
      | _ \<Rightarrow> (Return, rt)))"

fun runCleanup :: "cleanup \<Rightarrow> 'm runtime \<Rightarrow> 'm runtime" where
  "runCleanup (RemoveReceive c b) rt = removeReceiveCallback c b rt"
| "runCleanup (RemoveSend c b) rt = removeSendCallback c b rt"

definition cleanupSelect :: "nat \<Rightarrow> 'm runtime \<Rightarrow> 'm runtime" where
  "cleanupSelect n rt = fold runCleanup (sc_cleanups (rt_selects rt ! n)) rt"

definition newSelectCall :: "nat \<Rightarrow> 'm runtime \<Rightarrow> nat \<times> 'm runtime" where
  "newSelectCall s rt = (length (rt_selects rt), rt\<lparr>rt_selects := rt_selects rt @
     [\<lparr>sc_selector = s, sc_cases = se_cases (rt_selectors rt ! s), sc_readyBranch = None, sc_cleanups = []\<rparr>]\<rparr>)"

section \<open>Requests that are answered at once\<close>

definition alloc :: "('m runtime \<Rightarrow> nat \<times> 'm runtime) \<Rightarrow> ('m, reply) rgo" where
  "alloc new rt = (case new rt of (n, rt) \<Rightarrow> (Inr (Ref n), rt))"

definition silently :: "('m, 'a) rgo \<Rightarrow> ('m, reply) rgo" where
  "silently m = go_then m (go_return Nothing)"

definition newSelector :: "'m runtime \<Rightarrow> nat \<times> 'm runtime" where
  "newSelector rt = (length (rt_selectors rt),
     rt\<lparr>rt_selectors := rt_selectors rt @ [\<lparr>se_cases = [], se_defaultFunc = None\<rparr>]\<rparr>)"

definition newWaitGroup :: "DataConverter \<Rightarrow> 'm runtime \<Rightarrow> nat \<times> 'm runtime" where
  "newWaitGroup dc rt = (case newFuture dc rt of (f, rt) \<Rightarrow>
     (length (rt_waitGroups rt), rt\<lparr>rt_waitGroups := rt_waitGroups rt @
        [\<lparr>wg_n = 0, wg_waiting = False, wg_future = f\<rparr>]\<rparr>))"

fun serve :: "request \<Rightarrow> ('m, reply) rgo" where
  "serve (NewBufferedChannel dc sz) = alloc (newChannel dc sz)"
| "serve (SendAsync c v) = go_then (object rt_channels c)
     (go_bind (sendAsyncImpl c v None) (\<lambda>ok. go_return (Flag ok)))"
| "serve (Close c) = go_then (object rt_channels c) (silently (go_modify (closeChannel c)))"
| "serve (NewFuture dc) = alloc (newFuture dc)"
| "serve (Set f v err) = silently (futureSet f v err)"
| "serve (SetValue f v) = silently (futureSet f v None)"
| "serve (SetError f err) = silently (futureSet f GoNil err)"
| "serve (Chain f future) = silently (futureChain f future)"
| "serve (IsReady f) = go_bind (object rt_futures f) (\<lambda>fu. go_return (Flag (fu_ready fu)))"
| "serve (ChannelOf f) = go_bind (object rt_futures f) (\<lambda>fu. go_return (Ref (fu_channel fu)))"
| "serve (GetRest f dc p m) = go_bind (getRest f dc p m) (\<lambda>(err, a). go_return (Got err a))"
| "serve NewSelector = alloc newSelector"
| "serve (NewWaitGroup dc) = alloc (newWaitGroup dc)"
| "serve (Add w delta) = silently (waitGroupAdd w delta)"
| "serve (WaitStart w) = go_bind (waitStart w) (\<lambda>f. go_return (case f of None \<Rightarrow> Nothing | Some f \<Rightarrow> Ref f))"
| "serve (WaitRest w dc err a) = silently (waitRest w dc err a)"
| "serve (GetSignalChannel dc name) = alloc (getSignalChannel dc name)"
| "serve GetUnhandledSignalNames = go_bind getUnhandledSignalNames (\<lambda>ks. go_return (Names ks))"
| "serve (SetResult r err) = silently (go_modify (\<lambda>rt. rt\<lparr>rt_result := Some (r, err)\<rparr>))"

text \<open>\<open>Get\<close> of a future and \<open>Wait\<close> of a wait group, in terms of the blocking \<open>Receive\<close>.\<close>

definition futureGet :: "nat \<Rightarrow> DataConverter \<Rightarrow> goPointer \<Rightarrow> (goError option \<Rightarrow> goValue option \<Rightarrow> 'm code) \<Rightarrow> 'm code" where
  "futureGet f dc valuePtr k = Call (ChannelOf f) (\<lambda>r. case r of
      Ref c \<Rightarrow> Receive c NilPointer (\<lambda>m _. Call (GetRest f dc valuePtr m) (\<lambda>r. case r of
          Got err a \<Rightarrow> k err a
        | _ \<Rightarrow> Return))
    | _ \<Rightarrow> Return)"

definition waitGroupWait :: "nat \<Rightarrow> DataConverter \<Rightarrow> 'm code \<Rightarrow> 'm code" where
  "waitGroupWait w dc k = Call (WaitStart w) (\<lambda>r. case r of
      Ref f \<Rightarrow> futureGet f dc (PointerTo (TOpaque ''bool'')) (\<lambda>err a. Call (WaitRest w dc err a) (\<lambda>_. k))
    | _ \<Rightarrow> k)"

definition waitGroupDone :: "nat \<Rightarrow> 'm code \<Rightarrow> 'm code" where
  "waitGroupDone w k = Call (Add w (- 1)) (\<lambda>_. k)"

end
