(* ===== verification/Workflow_Coroutines.thy ===== *)
theory Workflow_Coroutines
  imports Workflow_Channels
begin

text \<open>
  The blocking calls of workflow code and the dispatcher that executes its coroutines one at a
  time, \<open>src/internal/internal_workflow.go\<close>: \<open>Receive\<close>, \<open>Send\<close>, \<open>Select\<close>, \<open>Await\<close>,
  \<open>coroutineState\<close>, \<open>dispatcherImpl\<close> and the parts of \<open>syncWorkflowDefinition\<close> that use it.

  The goroutine of a coroutine and the dispatcher pass control to each other through the
  channels \<open>unblock\<close> and \<open>aboutToBlock\<close>, so that only one of them runs.  A turn of a coroutine is
  the function \<open>callCoroutine\<close>; between two turns the coroutine is in one of its blocking
  calls, which is its \<open>co_control\<close>.  Not returning is the value \<open>None\<close>.  Stack traces, the
  tracing span, interceptors, context propagators and the mutex of the dispatcher are left out.
\<close>

section \<open>Blocking calls\<close>

type_synonym 'm turn = "((string + 'm coroutineState) \<times> 'm runtime) option"

definition goto :: "'m code \<Rightarrow> 'm coroutineState \<Rightarrow> 'm coroutineState" where
  "goto k self = self\<lparr>co_control := Executing k\<rparr>"

definition unblocked :: "'m coroutineState \<Rightarrow> 'm coroutineState" where
  "unblocked self = self\<lparr>co_keptBlocked := False\<rparr>"

definition block :: "'m control \<Rightarrow> 'm coroutineState \<Rightarrow> 'm coroutineState" where
  "block b self = self\<lparr>co_control := b\<rparr>"

text \<open>The outer loop of \<open>Receive\<close>, in the call \<open>n\<close>: whether \<open>unblocked\<close> is called, the result and the
  value assigned; or none if the call blocks.\<close>

partial_function (option) receiveLoop ::
    "nat \<Rightarrow> nat \<Rightarrow> goPointer \<Rightarrow> 'm runtime \<Rightarrow> ((bool \<times> bool \<times> goValue option) option \<times> 'm runtime) option" where
  "receiveLoop c n valuePtr rt =
     (case receiveAsyncImpl c (Some (ReceiveCallback n)) (updReceive n (rc_hasResult_update (\<lambda>_. False)) rt) of
       ((v, ok, m), rt) \<Rightarrow>
         if \<not> ok \<and> \<not> m then Some (Some (False, m, None), rt)
         else if ok \<or> \<not> m then (case assignValue c v valuePtr rt of
             (Inr a, rt) \<Rightarrow> Some (Some (True, m, a), rt)
           | (Inl _, rt) \<Rightarrow> receiveLoop c n valuePtr rt)
         else Some (None, rt))"

declare receiveLoop.simps [code]

definition receiveFrom :: "nat \<Rightarrow> nat \<Rightarrow> goPointer \<Rightarrow> (bool \<Rightarrow> goValue option \<Rightarrow> 'm code) \<Rightarrow>
    'm coroutineState \<Rightarrow> 'm runtime \<Rightarrow> 'm turn" where
  "receiveFrom c n valuePtr k self rt = Option.bind (receiveLoop c n valuePtr rt) (\<lambda>(r, rt). case r of
      None \<Rightarrow> Some (Inr (block (AtReceive c n valuePtr k) self), rt)
    | Some (u, m, a) \<Rightarrow> Some (Inr (goto (k m a) (if u then unblocked self else self)), rt))"

text \<open>The inner loop of \<open>Receive\<close>.\<close>

definition receiveWait :: "nat \<Rightarrow> nat \<Rightarrow> goPointer \<Rightarrow> (bool \<Rightarrow> goValue option \<Rightarrow> 'm code) \<Rightarrow>
    'm coroutineState \<Rightarrow> 'm runtime \<Rightarrow> 'm turn" where
  "receiveWait c n valuePtr k self rt = (let r = rt_receives rt ! n in
     if rc_hasResult r then (case assignValue c (rc_result r) valuePtr rt of
         (Inr a, rt) \<Rightarrow> Some (Inr (goto (k (rc_more r) a) (unblocked self)), rt)
       | (Inl _, rt) \<Rightarrow> receiveFrom c n valuePtr k self rt)
     else Some (Inr (block (AtReceive c n valuePtr k) self), rt))"

definition sendWait :: "nat \<Rightarrow> nat \<Rightarrow> 'm code \<Rightarrow> 'm coroutineState \<Rightarrow> 'm runtime \<Rightarrow> 'm turn" where
  "sendWait c n k self rt = Some (
     if rt_sends rt ! n then Inr (goto k (unblocked self))
     else if ch_closed (rt_channels rt ! c) then Inl ''Closed channel''
     else Inr (block (AtSend c n k) self), rt)"

definition callBranch :: "nat \<Rightarrow> bool \<Rightarrow> 'm code \<Rightarrow> 'm code \<Rightarrow> 'm coroutineState \<Rightarrow> 'm coroutineState" where
  "callBranch n blocked k f self =
     self\<lparr>co_frames := SelectFrame n blocked k # co_frames self, co_control := Executing f\<rparr>"

definition selectWait :: "nat \<Rightarrow> 'm code \<Rightarrow> 'm coroutineState \<Rightarrow> 'm runtime \<Rightarrow> 'm turn" where
  "selectWait n k self rt = Some (case sc_readyBranch (rt_selects rt ! n) of
      Some b \<Rightarrow> (case runBranch n b rt of (f, rt) \<Rightarrow> (Inr (callBranch n True k f self), rt))
    | None \<Rightarrow> (Inr (block (AtSelect n k) self), rt))"

definition awaitLoop :: "('m \<Rightarrow> bool) \<Rightarrow> nat option \<Rightarrow> (goError option \<Rightarrow> 'm code) \<Rightarrow>
    'm coroutineState \<Rightarrow> 'm runtime \<Rightarrow> 'm turn" where
  "awaitLoop condition doneCh k self rt = (
     if condition (rt_memory rt) then Some (Inr (goto (k None) (unblocked self)), rt)
     else case doneCh of
         None \<Rightarrow> Some (Inr (block (AtAwait condition doneCh k) self), rt)
       | Some c \<Rightarrow> if c < length (rt_channels rt)
           then Option.bind (ReceiveAsyncWithMoreFlag c NilPointer rt) (\<lambda>((_, m, _), rt).
             Some (Inr (if \<not> m
               then goto (k (Some (NewCanceledError [GoString ''Await context cancelled'']))) (unblocked self)
               else block (AtAwait condition doneCh k) self), rt))
           else Some (Inl nilPointer, rt))"

section \<open>Coroutines\<close>

definition newReceiveCall :: "'m runtime \<Rightarrow> nat \<times> 'm runtime" where
  "newReceiveCall rt = (length (rt_receives rt), rt\<lparr>rt_receives := rt_receives rt @
     [\<lparr>rc_hasResult = False, rc_result = GoNil, rc_more = False\<rparr>]\<rparr>)"

definition newSendCall :: "'m runtime \<Rightarrow> nat \<times> 'm runtime" where
  "newSendCall rt = (length (rt_sends rt), rt\<lparr>rt_sends := rt_sends rt @ [False]\<rparr>)"

definition newState :: "'m control \<Rightarrow> 'm coroutineState" where
  "newState f = \<lparr>co_control = f, co_frames = [], co_keptBlocked = False, co_closed = False, co_panicError = None\<rparr>"

definition newCoroutine :: "'m control \<Rightarrow> 'm runtime \<Rightarrow> 'm runtime" where
  "newCoroutine f rt = rt\<lparr>d_sequence := d_sequence rt + 1, d_coroutines := d_coroutines rt @ [newState f]\<rparr>"

definition checked :: "('m runtime \<Rightarrow> 'x list) \<Rightarrow> nat \<Rightarrow> 'm runtime \<Rightarrow> 'm turn \<Rightarrow> 'm turn" where
  "checked heap n rt t = (if n < length (heap rt) then t else Some (Inl nilPointer, rt))"

definition sendStart :: "nat \<Rightarrow> goValue \<Rightarrow> 'm code \<Rightarrow> 'm coroutineState \<Rightarrow> 'm runtime \<Rightarrow> 'm turn" where
  "sendStart c v k self rt = (case newSendCall rt of (n, rt) \<Rightarrow>
     (case sendAsyncImpl c v (Some (SendCallback v n)) rt of
        (Inl p, rt) \<Rightarrow> Some (Inl p, rt)
      | (Inr ok, rt) \<Rightarrow> if ok then Some (Inr (goto k (unblocked self)), rt) else sendWait c n k self rt))"

definition selectStart :: "nat \<Rightarrow> 'm code \<Rightarrow> 'm coroutineState \<Rightarrow> 'm runtime \<Rightarrow> 'm turn" where
  "selectStart s k self rt = (case newSelectCall s rt of (n, rt) \<Rightarrow>
     (case selectCases s n 0 (sc_cases (rt_selects rt ! n)) rt of
        (Inl p, rt) \<Rightarrow> Some (Inl p, cleanupSelect n rt)
      | (Inr (Some f), rt) \<Rightarrow> Some (Inr (callBranch n False k f self), rt)
      | (Inr None, rt) \<Rightarrow> (case se_defaultFunc (rt_selectors rt ! s) of
            Some f \<Rightarrow> Some (Inr (callBranch n False k f self), rt)
          | None \<Rightarrow> selectWait n k self rt)))"

text \<open>One step of the code of a coroutine.\<close>

definition perform :: "'m code \<Rightarrow> 'm coroutineState \<Rightarrow> 'm runtime \<Rightarrow> 'm turn" where
  "perform code self rt = (case code of
      Return \<Rightarrow> Some (case co_frames self of
          [] \<Rightarrow> (Inr (self\<lparr>co_closed := True\<rparr>), rt)
        | SelectFrame n blocked k # frames \<Rightarrow>
            (Inr (goto k ((if blocked then unblocked self else self)\<lparr>co_frames := frames\<rparr>)), cleanupSelect n rt))
    | Fail p \<Rightarrow> Some (Inl p, rt)
    | Compute f \<Rightarrow> (case f (rt_memory rt) of (k, mem) \<Rightarrow> Some (Inr (goto k self), rt\<lparr>rt_memory := mem\<rparr>))
    | Call r k \<Rightarrow> Some (case serve r rt of
          (Inl p, rt) \<Rightarrow> (Inl p, rt)
        | (Inr x, rt) \<Rightarrow> (Inr (goto (k x) self), rt))
    | ReceiveAsync c p k \<Rightarrow> checked rt_channels c rt
        (Option.bind (ReceiveAsyncWithMoreFlag c p rt) (\<lambda>((ok, m, a), rt). Some (Inr (goto (k ok m a) self), rt)))
    | Receive c p k \<Rightarrow> checked rt_channels c rt
        (case newReceiveCall rt of (n, rt) \<Rightarrow> receiveFrom c n p k self rt)
    | Send c v k \<Rightarrow> checked rt_channels c rt (sendStart c v k self rt)
    | AddCase s cs k \<Rightarrow> checked rt_selectors s rt
        (Some (Inr (goto k self), updSelector s (se_cases_update (\<lambda>css. css @ [cs])) rt))
    | AddDefault s f k \<Rightarrow> checked rt_selectors s rt
        (Some (Inr (goto k self), updSelector s (se_defaultFunc_update (\<lambda>_. Some f)) rt))
    | Select s k \<Rightarrow> checked rt_selectors s rt (selectStart s k self rt)
    | Await condition doneCh k \<Rightarrow> awaitLoop condition doneCh k self rt
    | Go f k \<Rightarrow> Some (Inr (goto k self), newCoroutine (Executing f) rt))"

text \<open>A coroutine continues after \<open>yield\<close>, which sets \<open>keptBlocked\<close>.\<close>

definition resume :: "'m coroutineState \<Rightarrow> 'm runtime \<Rightarrow> 'm turn" where
  "resume self rt = (let kept = self\<lparr>co_keptBlocked := True\<rparr> in case co_control self of
      Executing _ \<Rightarrow> Some (Inr self, rt)
    | AtReceive c n p k \<Rightarrow> receiveWait c n p k kept rt
    | AtSend c n k \<Rightarrow> sendWait c n k kept rt
    | AtSelect n k \<Rightarrow> selectWait n k kept rt
    | AtAwait condition doneCh k \<Rightarrow> awaitLoop condition doneCh k kept rt
    | AtStart k \<Rightarrow> Some (Inr (block (AtYield k) self), rt)
    | AtYield k \<Rightarrow> Some (Inr (goto k kept), rt))"

text \<open>A panic ends the coroutine; the deferred clean-up of calls of \<open>Select\<close> still runs.\<close>

definition cleanupFrames :: "'m selectFrame list \<Rightarrow> 'm runtime \<Rightarrow> 'm runtime" where
  "cleanupFrames frames rt = fold (\<lambda>fr. case fr of SelectFrame n _ _ \<Rightarrow> cleanupSelect n) frames rt"

definition panicked :: "string \<Rightarrow> 'm coroutineState \<Rightarrow> 'm coroutineState" where
  "panicked p self = self\<lparr>co_closed := True, co_panicError := Some p\<rparr>"

text \<open>Blocked in a call of \<open>Select\<close>, its own clean-up runs as well.\<close>

definition pendingFrames :: "'m coroutineState \<Rightarrow> 'm selectFrame list" where
  "pendingFrames self = (case co_control self of
      AtSelect n k \<Rightarrow> SelectFrame n True k # co_frames self
    | _ \<Rightarrow> co_frames self)"

text \<open>The code of a coroutine, until it blocks or ends.\<close>

partial_function (option) runCoroutine :: "'m coroutineState \<Rightarrow> 'm runtime \<Rightarrow> ('m coroutineState \<times> 'm runtime) option" where
  "runCoroutine self rt = (case co_control self of
      Executing code \<Rightarrow>
        if co_closed self then Some (self, rt)
        else Option.bind (perform code self rt) (\<lambda>(r, rt). case r of
            Inl p \<Rightarrow> Some (panicked p self, cleanupFrames (co_frames self) rt)
          | Inr self \<Rightarrow> runCoroutine self rt)
    | _ \<Rightarrow> Some (self, rt))"

declare runCoroutine.simps [code]

text \<open>A turn of the \<open>i\<close>th coroutine, \<open>coroutineState.call\<close>.\<close>

definition callCoroutine :: "nat \<Rightarrow> 'm runtime \<Rightarrow> 'm runtime option" where
  "callCoroutine i rt = (let self = d_coroutines rt ! i in
     Option.bind
       (Option.bind (resume self rt) (\<lambda>(r, rt). case r of
           Inl p \<Rightarrow> Some (panicked p self, cleanupFrames (pendingFrames self) rt)
         | Inr self \<Rightarrow> runCoroutine self rt))
       (\<lambda>(self, rt). Some (rt\<lparr>d_coroutines := (d_coroutines rt)[i := self]\<rparr>)))"

section \<open>The dispatcher\<close>

definition removeAt :: "nat \<Rightarrow> 'a list \<Rightarrow> 'a list" where
  "removeAt i xs = take i xs @ drop (Suc i) xs"

text \<open>The inner loop of \<open>ExecuteUntilAllBlocked\<close>, from the \<open>i\<close>th coroutine: the panic of a coroutine,
  if any, and \<open>allBlocked\<close>.\<close>

partial_function (option) executeRound ::
    "nat \<Rightarrow> bool \<Rightarrow> 'm runtime \<Rightarrow> ((string option \<times> bool) \<times> 'm runtime) option" where
  "executeRound i allBlocked rt = (
     if \<not> i < length (d_coroutines rt) then Some ((None, allBlocked), rt)
     else Option.bind (if co_closed (d_coroutines rt ! i) then Some rt else callCoroutine i rt) (\<lambda>rt.
       let c = d_coroutines rt ! i in
       if co_closed c then
         (let rt = rt\<lparr>d_coroutines := removeAt i (d_coroutines rt)\<rparr> in
          case co_panicError c of
            Some p \<Rightarrow> Some ((Some p, allBlocked), rt)
          | None \<Rightarrow> executeRound i False rt)
       else executeRound (Suc i) (allBlocked \<and> co_keptBlocked c) rt))"

declare executeRound.simps [code]

partial_function (option) executeLoop :: "'m runtime \<Rightarrow> (string option \<times> 'm runtime) option" where
  "executeLoop rt = Option.bind (executeRound 0 True rt) (\<lambda>((err, allBlocked), rt'). case err of
      Some p \<Rightarrow> Some (Some p, rt')
    | None \<Rightarrow>
        if allBlocked \<and> d_sequence rt = d_sequence rt' \<or> d_coroutines rt' = [] then Some (None, rt')
        else executeLoop rt')"

declare executeLoop.simps [code]

text \<open>A panic of the call itself, or the panic of a coroutine, if any.\<close>

definition ExecuteUntilAllBlocked :: "'m runtime \<Rightarrow> ((string + string option) \<times> 'm runtime) option" where
  "ExecuteUntilAllBlocked rt = (
     if d_closed rt then Some (Inl ''dispatcher is closed'', rt)
     else if d_executing rt
     then Some (Inl ''call to ExecuteUntilAllBlocked (possibly from a coroutine) while it is already running'', rt)
     else Option.bind (executeLoop (rt\<lparr>d_executing := True\<rparr>)) (\<lambda>(err, rt).
       Some (Inr err, rt\<lparr>d_executing := False\<rparr>)))"

definition IsDone :: "'m runtime \<Rightarrow> bool" where
  "IsDone rt \<longleftrightarrow> d_coroutines rt = []"

text \<open>\<open>Close\<close> of the dispatcher: every coroutine leaves its blocking call and ends.\<close>

definition exitCoroutine :: "'m coroutineState \<Rightarrow> 'm coroutineState" where
  "exitCoroutine self = self\<lparr>co_closed := True\<rparr>"

definition closeDispatcher :: "'m runtime \<Rightarrow> 'm runtime" where
  "closeDispatcher rt = (if d_closed rt then rt
     else fold cleanupFrames (map pendingFrames (filter (\<lambda>self. \<not> co_closed self) (d_coroutines rt)))
       (rt\<lparr>d_closed := True, d_coroutines := map exitCoroutine (d_coroutines rt)\<rparr>))"

text \<open>\<open>newDispatcher\<close> with the root function of \<open>syncWorkflowDefinition.Execute\<close>: it yields once, and
  then executes the workflow function, which ends by storing its result.\<close>

definition newDispatcher :: "'m code \<Rightarrow> 'm \<Rightarrow> 'm runtime" where
  "newDispatcher workflow mem = newCoroutine (AtStart workflow)
     \<lparr>rt_memory = mem, rt_channels = [], rt_futures = [], rt_waitGroups = [], rt_selectors = [], rt_receives = [],
      rt_sends = [], rt_selects = [], rt_signalChannels = [], rt_result = None, rt_corrupted = 0, d_sequence = 0, d_coroutines = [],
      d_executing = False, d_closed = False\<rparr>"

text \<open>\<open>executeDispatcher\<close>: what the environment's \<open>Complete\<close> is called with, if at all.  The panic of a
  coroutine becomes a workflow panic; its stack trace is not modelled.\<close>

definition executeDispatcher :: "'m runtime \<Rightarrow> ((string + (nbytes \<times> goError option) option) \<times> 'm runtime) option" where
  "executeDispatcher rt = Option.bind (ExecuteUntilAllBlocked rt) (\<lambda>(r, rt). Some (case r of
      Inl p \<Rightarrow> (Inl p, rt)
    | Inr (Some p) \<Rightarrow> (Inr (Some (None, Some (workflowPanicError (RecoveredString p) []))), rt)
    | Inr None \<Rightarrow> (case rt_result rt of
        None \<Rightarrow> (Inr None, rt)
      | Some r \<Rightarrow> (Inr (Some r), snd (getUnhandledSignalNames rt)))))"

end
