(* ===== verification/Runtime_Steps.thy ===== *)
theory Runtime_Steps
  imports Workflow_Coroutines "HOL-Library.Sublist"
begin

text \<open>
  What the steps of the workflow runtime keep.  The locale \<open>runtime_steps\<close> lifts a relation
  between states from the operations of channels to turns of coroutines and to whole executions
  of the dispatcher.
\<close>

section \<open>Frames\<close>

text \<open>All that the operations of channels leave alone.\<close>

definition others :: "'m runtime \<Rightarrow> _" where
  "others rt = (rt_memory rt, rt_futures rt, rt_waitGroups rt, rt_selectors rt,
     map sc_selector (rt_selects rt), map sc_cases (rt_selects rt), rt_signalChannels rt, rt_result rt,
     rt_corrupted rt, d_sequence rt, d_coroutines rt, d_executing rt, d_closed rt)"

named_theorems runtime_frames \<open>what an operation leaves alone, from its result\<close>

lemma rt_channels_upd [simp]:
  "rt_channels (updChannel c f rt) = (rt_channels rt)[c := f (rt_channels rt ! c)]"
  "rt_channels (updFuture n g rt) = rt_channels rt"
  "rt_channels (updWaitGroup n h rt) = rt_channels rt"
  "rt_channels (updSelector n i rt) = rt_channels rt"
  "rt_channels (updReceive n j rt) = rt_channels rt"
  "rt_channels (updSelect n k rt) = rt_channels rt"
  by (simp_all add: upd_defs)

lemma map_update_same: "(\<And>x. g (f x) = g x) \<Longrightarrow> map g (xs[n := f (xs ! n)]) = map g xs"
  by (cases "n < length xs") (simp_all add: map_update list_update_same_conv list_update_beyond)

lemma others_upd [simp]:
  "others (updChannel c f rt) = others rt"
  "others (updReceive n g rt) = others rt"
  "others (rt\<lparr>rt_sends := bs\<rparr>) = others rt"
  by (simp_all add: others_def updChannel_def updReceive_def)

lemma others_updSelect:
  "(\<And>x. sc_selector (f x) = sc_selector x) \<Longrightarrow> (\<And>x. sc_cases (f x) = sc_cases x) \<Longrightarrow>
   others (updSelect n f rt) = others rt"
  by (simp add: others_def updSelect_def map_update_same)

lemma receiveFn_frame [runtime_frames]:
  "receiveFn b v m rt = (ok, rt') \<Longrightarrow> others rt' = others rt \<and> rt_channels rt' = rt_channels rt"
  by (cases b) (auto simp: others_updSelect split: if_splits)

lemma sendFn_frame [runtime_frames]:
  "sendFn b rt = (ok, rt') \<Longrightarrow> others rt' = others rt \<and> rt_channels rt' = rt_channels rt"
  by (cases b) (auto simp: others_updSelect split: if_splits)

lemma takeReceive_others: "takeReceive c v bs rt = (ok, rt') \<Longrightarrow> others rt' = others rt"
  by (induction bs arbitrary: rt) (auto dest: runtime_frames split: prod.splits if_splits)

lemma takeSend_others: "takeSend c bs rt = (r, rt') \<Longrightarrow> others rt' = others rt"
  by (induction bs arbitrary: rt) (auto dest: runtime_frames split: prod.splits if_splits)

lemma receiveAsyncImpl_others [runtime_frames]: "receiveAsyncImpl c cb rt = (r, rt') \<Longrightarrow> others rt' = others rt"
  by (auto simp: receiveAsyncImpl_def Let_def deliver_def accept_def dest!: takeSend_others
      split: option.splits list.splits prod.splits if_splits)

lemma sendAsyncImpl_others [runtime_frames]: "sendAsyncImpl c v p rt = (r, rt') \<Longrightarrow> others rt' = others rt"
  by (auto simp: sendAsyncImpl_def deliver_def accept_def noteSend_def dest!: takeReceive_others
      split: option.splits prod.splits bool.splits if_splits)

lemma notifyClosed_frame [simp]:
  "others (notifyClosed bs rt) = others rt" "rt_channels (notifyClosed bs rt) = rt_channels rt"
proof (induction bs arbitrary: rt)
  case (Cons b bs)
  { case 1 then show ?case using Cons by (cases "receiveFn b GoNil False rt") (auto dest: runtime_frames) }
  { case 2 then show ?case using Cons by (cases "receiveFn b GoNil False rt") (auto dest: runtime_frames) }
qed simp_all

lemma closeChannel_frame [simp]:
  "others (closeChannel c rt) = others rt"
  "rt_channels (closeChannel c rt) = (rt_channels rt)[c := (rt_channels rt ! c)\<lparr>ch_closed := True\<rparr>]"
  by (simp_all add: closeChannel_def Let_def)

lemma getRest_state [simp]: "snd (getRest f dc p m rt) = rt"
  by (auto simp: getRest_def go_bind_def go_return_def go_panic_def object_def
      split: goPointer.split goValue.split sum.split prod.split bool.split)

text \<open>The queues that the loops of channels leave behind.\<close>

lemma queue_unchanged:
  "ch_blockedReceives ch = bs \<Longrightarrow> ch\<lparr>ch_blockedReceives := bs\<rparr> = ch"
  "ch_blockedSends ch = cs \<Longrightarrow> ch\<lparr>ch_blockedSends := cs\<rparr> = ch"
  by auto

lemma channel_append:
  "ch_delivered_update (\<lambda>vs. vs @ ws) ch = ch\<lparr>ch_delivered := ch_delivered ch @ ws\<rparr>"
  "ch_accepted_update (\<lambda>vs. vs @ ws) ch = ch\<lparr>ch_accepted := ch_accepted ch @ ws\<rparr>"
  "ch_sends_update (\<lambda>vs. vs @ ws) ch = ch\<lparr>ch_sends := ch_sends ch @ ws\<rparr>"
  "ch_buffer_update (\<lambda>vs. vs @ ws) ch = ch\<lparr>ch_buffer := ch_buffer ch @ ws\<rparr>"
  "ch_blockedReceives_update (\<lambda>bs. bs @ bs') ch = ch\<lparr>ch_blockedReceives := ch_blockedReceives ch @ bs'\<rparr>"
  "ch_blockedSends_update (\<lambda>bs. bs @ cs') ch = ch\<lparr>ch_blockedSends := ch_blockedSends ch @ cs'\<rparr>"
  by simp_all

lemma channel_update_eq: "(ch :: channelImpl) = ch' \<Longrightarrow> xs[c := ch] = xs[c := ch']"
  by simp

lemma takeReceive_channels:
  assumes "takeReceive c v bs rt = (ok, rt')" and "c < length (rt_channels rt)" and "ch_blockedReceives (rt_channels rt ! c) = bs"
  shows "\<exists>bs'. rt_channels rt' = (rt_channels rt)[c := (rt_channels rt ! c)\<lparr>ch_blockedReceives := bs'\<rparr>]
    \<and> (if ok then bs \<noteq> [] else bs' = [])"
  using assms
proof (induction bs arbitrary: rt)
  case Nil
  then show ?case by (auto intro!: exI [of _ "[]"] simp: queue_unchanged)
next
  case (Cons b bs)
  define rt1 where "rt1 = updChannel c (ch_blockedReceives_update (\<lambda>_. bs)) rt"
  obtain ok1 rt2 where fn: "receiveFn b v True rt1 = (ok1, rt2)" by (cases "receiveFn b v True rt1") auto
  have ch: "rt_channels rt2 = (rt_channels rt)[c := (rt_channels rt ! c)\<lparr>ch_blockedReceives := bs\<rparr>]"
    using receiveFn_frame [OF fn] by (simp add: rt1_def)
  show ?case
  proof (cases ok1)
    case True
    then show ?thesis using Cons.prems(1) fn ch by (auto simp: rt1_def intro!: exI [of _ bs])
  next
    case False
    then have "takeReceive c v bs rt2 = (ok, rt')" using Cons.prems(1) fn by (simp add: rt1_def)
    with Cons.IH [of rt2] ch Cons.prems(2) show ?thesis by (auto split: if_splits)
  qed
qed

lemma takeSend_channels:
  assumes "takeSend c bs rt = (r, rt')" and "c < length (rt_channels rt)" and "ch_blockedSends (rt_channels rt ! c) = bs"
  shows "\<exists>bs'. rt_channels rt' = (rt_channels rt)[c := (rt_channels rt ! c)\<lparr>ch_blockedSends := bs'\<rparr>]
    \<and> (case r of None \<Rightarrow> bs' = [] | Some v \<Rightarrow> \<exists>bs1 b. bs = bs1 @ b # bs' \<and> v = callbackValue b)"
  using assms
proof (induction bs arbitrary: rt)
  case Nil
  then show ?case by (auto intro!: exI [of _ "[]"] simp: queue_unchanged)
next
  case (Cons b bs)
  define rt1 where "rt1 = updChannel c (ch_blockedSends_update (\<lambda>_. bs)) rt"
  obtain ok1 rt2 where fn: "sendFn b rt1 = (ok1, rt2)" by (cases "sendFn b rt1") auto
  have ch: "rt_channels rt2 = (rt_channels rt)[c := (rt_channels rt ! c)\<lparr>ch_blockedSends := bs\<rparr>]"
    using sendFn_frame [OF fn] by (simp add: rt1_def)
  show ?case
  proof (cases ok1)
    case True
    then have "r = Some (callbackValue b)" "rt' = rt2" using Cons.prems(1) fn by (simp_all add: rt1_def)
    moreover have "\<exists>bs1 b'. b # bs = bs1 @ b' # bs \<and> callbackValue b = callbackValue b'"
      by (intro exI [of _ "[]"] exI [of _ b]) simp
    ultimately show ?thesis using ch by (intro exI [of _ bs]) simp
  next
    case False
    then have "takeSend c bs rt2 = (r, rt')" using Cons.prems(1) fn by (simp add: rt1_def)
    with Cons.IH [of rt2] ch Cons.prems(2) obtain bs' where
      "rt_channels rt' = (rt_channels rt)[c := (rt_channels rt ! c)\<lparr>ch_blockedSends := bs'\<rparr>]"
      "case r of None \<Rightarrow> bs' = [] | Some v \<Rightarrow> \<exists>bs1 b. bs = bs1 @ b # bs' \<and> v = callbackValue b" by auto
    moreover from this(2) have "case r of None \<Rightarrow> bs' = []
        | Some v \<Rightarrow> \<exists>bs1 b'. b # bs = bs1 @ b' # bs' \<and> v = callbackValue b'"
    proof (cases r)
      case (Some v)
      with \<open>case r of None \<Rightarrow> _ | Some v \<Rightarrow> _ v\<close> obtain bs1 b' where "bs = bs1 @ b' # bs'" "v = callbackValue b'" by auto
      then show ?thesis by (simp add: Some exI [of _ "b # bs1"])
    qed simp
    ultimately show ?thesis by blast
  qed
qed

text \<open>What a receive does to the channel: it takes the prefetched value, or the first buffered one with or
  without a blocked sender moving up, or the value of a blocked sender, or it finds nothing.\<close>

definition drained :: "channelImpl \<Rightarrow> goValue \<Rightarrow> channelImpl" where
  "drained ch v = ch\<lparr>ch_buffer := tl (ch_buffer ch), ch_blockedSends := [], ch_delivered := ch_delivered ch @ [v]\<rparr>"

definition refilled :: "channelImpl \<Rightarrow> goValue \<Rightarrow> goValue \<Rightarrow> sendCallback list \<Rightarrow> channelImpl" where
  "refilled ch v w bs = ch\<lparr>ch_buffer := tl (ch_buffer ch) @ [w], ch_blockedSends := bs,
     ch_accepted := ch_accepted ch @ [w], ch_delivered := ch_delivered ch @ [v]\<rparr>"

definition passed :: "channelImpl \<Rightarrow> goValue \<Rightarrow> sendCallback list \<Rightarrow> channelImpl" where
  "passed ch w bs = ch\<lparr>ch_blockedSends := bs, ch_accepted := ch_accepted ch @ [w], ch_delivered := ch_delivered ch @ [w]\<rparr>"

definition waiting :: "channelImpl \<Rightarrow> receiveCallback option \<Rightarrow> channelImpl" where
  "waiting ch cb = ch\<lparr>ch_blockedSends := [],
     ch_blockedReceives := ch_blockedReceives ch @ (case cb of None \<Rightarrow> [] | Some b \<Rightarrow> [b])\<rparr>"

lemmas receive_effects = drained_def refilled_def passed_def waiting_def

lemma receive_cases:
  assumes r: "receiveAsyncImpl c cb rt = (r, rt')" and c: "c < length (rt_channels rt)"
  obtains (prefetched) v where "ch_recValue (rt_channels rt ! c) = Some v" "r = (v, True, True)"
      "rt_channels rt' = (rt_channels rt)[c := (rt_channels rt ! c)\<lparr>ch_recValue := None\<rparr>]"
  | (drained) v vs where "ch_recValue (rt_channels rt ! c) = None" "ch_buffer (rt_channels rt ! c) = v # vs" "r = (v, True, True)"
      "rt_channels rt' = (rt_channels rt)[c := drained (rt_channels rt ! c) v]"
  | (refilled) v vs as b bs where "ch_recValue (rt_channels rt ! c) = None" "ch_buffer (rt_channels rt ! c) = v # vs" "r = (v, True, True)"
      "ch_blockedSends (rt_channels rt ! c) = as @ b # bs"
      "rt_channels rt' = (rt_channels rt)[c := refilled (rt_channels rt ! c) v (callbackValue b) bs]"
  | (closed) "ch_recValue (rt_channels rt ! c) = None" "ch_buffer (rt_channels rt ! c) = []" "ch_closed (rt_channels rt ! c)"
      "r = (GoNil, False, False)" "rt' = rt"
  | (passed) as b bs where "ch_recValue (rt_channels rt ! c) = None" "ch_buffer (rt_channels rt ! c) = []"
      "\<not> ch_closed (rt_channels rt ! c)" "r = (callbackValue b, True, True)"
      "ch_blockedSends (rt_channels rt ! c) = as @ b # bs"
      "rt_channels rt' = (rt_channels rt)[c := passed (rt_channels rt ! c) (callbackValue b) bs]"
  | (waiting) "ch_recValue (rt_channels rt ! c) = None" "ch_buffer (rt_channels rt ! c) = []"
      "\<not> ch_closed (rt_channels rt ! c)" "r = (GoNil, False, True)"
      "rt_channels rt' = (rt_channels rt)[c := waiting (rt_channels rt ! c) cb]"
proof -
  define ch where "ch = rt_channels rt ! c"
  note cases = that [unfolded ch_def [symmetric]]
  note body = r [unfolded receiveAsyncImpl_def Let_def, folded ch_def]
  show thesis
  proof (cases "ch_recValue ch")
    case (Some v)
    with body show thesis by (intro cases(1)) (auto simp: ch_def)
  next
    case None
    note fresh = None
    show thesis
    proof (cases "ch_buffer ch")
      case (Cons v vs)
      define rt0 where "rt0 = deliver c v (updChannel c (ch_buffer_update (\<lambda>_. vs)) rt)"
      have rt0: "rt_channels rt0 = (rt_channels rt)[c := ch\<lparr>ch_buffer := vs, ch_delivered := ch_delivered ch @ [v]\<rparr>]"
        using c by (simp add: rt0_def deliver_def ch_def channel_append)
      obtain x rt1 where t: "takeSend c (ch_blockedSends ch) rt0 = (x, rt1)" by (cases "takeSend c (ch_blockedSends ch) rt0")
      from takeSend_channels [OF t] c rt0 obtain bs where
        bs: "rt_channels rt1 = (rt_channels rt)[c := ch\<lparr>ch_buffer := vs, ch_delivered := ch_delivered ch @ [v], ch_blockedSends := bs\<rparr>]"
        and x: "case x of None \<Rightarrow> bs = [] | Some w \<Rightarrow> \<exists>as b. ch_blockedSends ch = as @ b # bs \<and> w = callbackValue b"
        by auto
      show thesis
      proof (cases x)
        case None
        with body fresh Cons t bs x show thesis by (intro cases(2)) (auto simp: rt0_def [symmetric] drained_def intro!: channel_update_eq channelImpl.equality)
      next
        case (Some w)
        with x obtain as b where q: "ch_blockedSends ch = as @ b # bs" "w = callbackValue b" by auto
        with Some body fresh Cons t bs c show thesis
          by (intro cases(3)) (auto simp: rt0_def [symmetric] refilled_def accept_def channel_append intro!: channel_update_eq channelImpl.equality)
      qed
    next
      case Nil
      obtain x rt1 where t: "takeSend c (ch_blockedSends ch) rt = (x, rt1)" by (cases "takeSend c (ch_blockedSends ch) rt")
      from takeSend_channels [OF t c] obtain bs where
        bs: "rt_channels rt1 = (rt_channels rt)[c := ch\<lparr>ch_blockedSends := bs\<rparr>]"
        and x: "case x of None \<Rightarrow> bs = [] | Some w \<Rightarrow> \<exists>as b. ch_blockedSends ch = as @ b # bs \<and> w = callbackValue b"
        by (auto simp: ch_def)
      show thesis
      proof (cases "ch_closed ch")
        case True
        with body fresh Nil show thesis by (intro cases(4)) auto
      next
        case False
        show thesis
        proof (cases x)
          case None
          with False body fresh Nil t bs c x show thesis
            by (intro cases(6)) (auto simp: waiting_def channel_append intro!: channel_update_eq channelImpl.equality split: option.splits)
        next
          case (Some w)
          with x obtain as b where q: "ch_blockedSends ch = as @ b # bs" "w = callbackValue b" by auto
          with False Some body fresh Nil t bs c show thesis
            by (intro cases(5)) (auto simp: passed_def accept_def deliver_def channel_append intro!: channel_update_eq channelImpl.equality)
        qed
      qed
    qed
  qed
qed

text \<open>What a send does: a blocked receiver takes the value, or it is buffered, or the sender has to wait.\<close>

definition handed :: "channelImpl \<Rightarrow> goValue \<Rightarrow> receiveCallback list \<Rightarrow> channelImpl" where
  "handed ch v bs = ch\<lparr>ch_blockedReceives := bs, ch_sends := ch_sends ch @ [v], ch_accepted := ch_accepted ch @ [v],
     ch_delivered := ch_delivered ch @ [v]\<rparr>"

definition buffered :: "channelImpl \<Rightarrow> goValue \<Rightarrow> channelImpl" where
  "buffered ch v = ch\<lparr>ch_blockedReceives := [], ch_sends := ch_sends ch @ [v], ch_accepted := ch_accepted ch @ [v],
     ch_buffer := ch_buffer ch @ [v]\<rparr>"

definition refused :: "channelImpl \<Rightarrow> goValue \<Rightarrow> sendCallback option \<Rightarrow> channelImpl" where
  "refused ch v p = (case p of None \<Rightarrow> ch\<lparr>ch_blockedReceives := []\<rparr>
     | Some b \<Rightarrow> ch\<lparr>ch_blockedReceives := [], ch_sends := ch_sends ch @ [v], ch_blockedSends := ch_blockedSends ch @ [b]\<rparr>)"

lemmas send_effects = handed_def buffered_def refused_def

lemma send_cases:
  assumes r: "sendAsyncImpl c v p rt = (r, rt')" and c: "c < length (rt_channels rt)"
  obtains (closed) "ch_closed (rt_channels rt ! c)" "r = Inl ''Closed channel''" "rt' = rt"
  | (handed) bs where "\<not> ch_closed (rt_channels rt ! c)" "ch_blockedReceives (rt_channels rt ! c) \<noteq> []" "r = Inr True"
      "rt_channels rt' = (rt_channels rt)[c := handed (rt_channels rt ! c) v bs]"
  | (buffered) "\<not> ch_closed (rt_channels rt ! c)" "r = Inr True"
      "int (length (ch_buffer (rt_channels rt ! c))) < ch_size (rt_channels rt ! c)"
      "rt_channels rt' = (rt_channels rt)[c := buffered (rt_channels rt ! c) v]"
  | (refused) "\<not> ch_closed (rt_channels rt ! c)" "r = Inr False"
      "ch_size (rt_channels rt ! c) \<le> int (length (ch_buffer (rt_channels rt ! c)))"
      "rt_channels rt' = (rt_channels rt)[c := refused (rt_channels rt ! c) v p]"
proof -
  define ch where "ch = rt_channels rt ! c"
  note cases = that [unfolded ch_def [symmetric]]
  obtain x rt1 where t: "takeReceive c v (ch_blockedReceives ch) rt = (x, rt1)"
    by (cases "takeReceive c v (ch_blockedReceives ch) rt")
  obtain bs where bs: "rt_channels rt1 = (rt_channels rt)[c := ch\<lparr>ch_blockedReceives := bs\<rparr>]"
    and x: "if x then ch_blockedReceives ch \<noteq> [] else bs = []"
    using takeReceive_channels [OF t c] by (auto simp: ch_def)
  note body = r [unfolded sendAsyncImpl_def, folded ch_def, unfolded t]
  note defs = deliver_def accept_def noteSend_def channel_append
  show thesis
  proof (cases "ch_closed ch")
    case True
    with body show thesis by (intro cases(1)) auto
  next
    case False
    show thesis
    proof (cases x)
      case True
      with False body bs x c show thesis
        by (intro cases(2)) (auto simp: handed_def defs intro!: channel_update_eq channelImpl.equality)
    next
      case notTaken: False
      with x bs have bs': "rt_channels rt1 = (rt_channels rt)[c := ch\<lparr>ch_blockedReceives := []\<rparr>]" by simp
      show thesis
      proof (cases "int (length (ch_buffer ch)) < ch_size ch")
        case True
        with False notTaken body bs' c show thesis
          by (intro cases(3)) (auto simp: buffered_def defs intro!: channel_update_eq channelImpl.equality)
      next
        case full: False
        with False notTaken body bs' c show thesis
          by (intro cases(4)) (auto simp: refused_def defs intro!: channel_update_eq channelImpl.equality split: option.splits)
      qed
    qed
  qed
qed

text \<open>On a dangling reference nothing happens to channels.\<close>

lemma takeSend_dangling: "takeSend c bs rt = (r, rt') \<Longrightarrow> \<not> c < length (rt_channels rt) \<Longrightarrow> rt_channels rt' = rt_channels rt"
  by (induction bs arbitrary: rt) (auto simp: list_update_beyond dest: runtime_frames split: prod.splits if_splits)

lemma takeReceive_dangling: "takeReceive c v bs rt = (r, rt') \<Longrightarrow> \<not> c < length (rt_channels rt) \<Longrightarrow> rt_channels rt' = rt_channels rt"
  by (induction bs arbitrary: rt) (auto simp: list_update_beyond dest: runtime_frames split: prod.splits if_splits)

lemma receiveAsyncImpl_dangling:
  "receiveAsyncImpl c cb rt = (r, rt') \<Longrightarrow> \<not> c < length (rt_channels rt) \<Longrightarrow> rt_channels rt' = rt_channels rt"
  by (auto simp: receiveAsyncImpl_def Let_def deliver_def accept_def list_update_beyond dest!: takeSend_dangling
      split: option.splits list.splits prod.splits if_splits)

lemma sendAsyncImpl_dangling:
  "sendAsyncImpl c v p rt = (r, rt') \<Longrightarrow> \<not> c < length (rt_channels rt) \<Longrightarrow> rt_channels rt' = rt_channels rt"
  by (auto simp: sendAsyncImpl_def deliver_def accept_def noteSend_def list_update_beyond dest!: takeReceive_dangling
      split: option.splits prod.splits bool.splits if_splits)


section \<open>Induction on runs\<close>

text \<open>Rules for the loops that may not end, when they do: one case for each way through the body.\<close>

lemma ReceiveAsync_induct [consumes 1, case_names stop drop]:
  assumes "ReceiveAsyncWithMoreFlag c p rt = Some (x, rt')"
    and stop: "\<And>rt v ok m rt1. receiveAsyncImpl c None rt = ((v, ok, m), rt1) \<Longrightarrow> \<not> ok \<and> \<not> m \<and> x = (ok, m, None) \<and> rt' = rt1 \<or>
        (ok \<or> m) \<and> (\<exists>a. assignValue c v p rt1 = (Inr a, rt') \<and> x = (ok, m, a)) \<Longrightarrow> P rt"
    and drop: "\<And>rt v ok m rt1 e rt2. receiveAsyncImpl c None rt = ((v, ok, m), rt1) \<Longrightarrow> ok \<or> m \<Longrightarrow>
        assignValue c v p rt1 = (Inl e, rt2) \<Longrightarrow> P rt2 \<Longrightarrow> P rt"
  shows "P rt"
proof -
  have "c' = c \<longrightarrow> p' = p \<longrightarrow> y = (x, rt') \<longrightarrow> P rt" if "ReceiveAsyncWithMoreFlag c' p' rt = Some y" for c' p' rt y
  proof (rule ReceiveAsyncWithMoreFlag.raw_induct [where P = "\<lambda>c' p' rt y. c' = c \<longrightarrow> p' = p \<longrightarrow> y = (x, rt') \<longrightarrow> P rt", OF _ that])
    fix F c' p' rt y
    assume IH: "\<And>c' p' rt y. F c' p' rt = Some y \<Longrightarrow> c' = c \<longrightarrow> p' = p \<longrightarrow> y = (x, rt') \<longrightarrow> P rt"
      and body: "(case receiveAsyncImpl c' None rt of ((v, ok, m), rt) \<Rightarrow>
          if \<not> ok \<and> \<not> m then Some ((ok, m, None), rt)
          else case assignValue c' v p' rt of (Inl x, rt) \<Rightarrow> F c' p' rt | (Inr a, rt) \<Rightarrow> Some ((ok, m, a), rt)) = Some y"
    show "c' = c \<longrightarrow> p' = p \<longrightarrow> y = (x, rt') \<longrightarrow> P rt"
    proof (intro impI)
      assume eqs: "c' = c" "p' = p" "y = (x, rt')"
      obtain v ok m rt1 where recv: "receiveAsyncImpl c None rt = ((v, ok, m), rt1)"
        by (cases "receiveAsyncImpl c None rt") auto
      obtain z rt2 where assign: "assignValue c v p rt1 = (z, rt2)" by (cases "assignValue c v p rt1") auto
      show "P rt"
      proof (cases "(ok \<or> m) \<and> (\<exists>e. z = Inl e)")
        case True
        then have "F c p rt2 = Some (x, rt')" using body eqs recv assign by (auto split: if_splits)
        then have "P rt2" using IH by blast
        with True assign show ?thesis by (auto intro: drop [OF recv])
      next
        case False
        then show ?thesis using body eqs assign by (intro stop [OF recv]) (cases z; auto simp: recv split: if_splits)
      qed
    qed
  qed
  then show ?thesis using assms(1) by blast
qed

lemma receiveLoop_induct [consumes 1, case_names stop drop]:
  assumes "receiveLoop c n p rt = Some (x, rt')"
    and stop: "\<And>rt v ok m rt1.
        receiveAsyncImpl c (Some (ReceiveCallback n)) (updReceive n (rc_hasResult_update (\<lambda>_. False)) rt) = ((v, ok, m), rt1) \<Longrightarrow>
        \<not> ok \<and> \<not> m \<and> x = Some (False, m, None) \<and> rt' = rt1 \<or> \<not> ok \<and> m \<and> x = None \<and> rt' = rt1 \<or>
        ok \<and> (\<exists>a. assignValue c v p rt1 = (Inr a, rt') \<and> x = Some (True, m, a)) \<Longrightarrow> P rt"
    and drop: "\<And>rt v m rt1 e rt2.
        receiveAsyncImpl c (Some (ReceiveCallback n)) (updReceive n (rc_hasResult_update (\<lambda>_. False)) rt) = ((v, True, m), rt1) \<Longrightarrow>
        assignValue c v p rt1 = (Inl e, rt2) \<Longrightarrow> P rt2 \<Longrightarrow> P rt"
  shows "P rt"
proof -
  have "c' = c \<longrightarrow> n' = n \<longrightarrow> p' = p \<longrightarrow> y = (x, rt') \<longrightarrow> P rt" if "receiveLoop c' n' p' rt = Some y" for c' n' p' rt y
  proof (rule receiveLoop.raw_induct
      [where P = "\<lambda>c' n' p' rt y. c' = c \<longrightarrow> n' = n \<longrightarrow> p' = p \<longrightarrow> y = (x, rt') \<longrightarrow> P rt", OF _ that])
    fix F c' n' p' rt y
    assume IH: "\<And>c' n' p' rt y. F c' n' p' rt = Some y \<Longrightarrow> c' = c \<longrightarrow> n' = n \<longrightarrow> p' = p \<longrightarrow> y = (x, rt') \<longrightarrow> P rt"
      and body: "(case receiveAsyncImpl c' (Some (ReceiveCallback n')) (updReceive n' (rc_hasResult_update (\<lambda>_. False)) rt) of
          ((v, ok, m), rt) \<Rightarrow>
            if \<not> ok \<and> \<not> m then Some (Some (False, m, None), rt)
            else if ok \<or> \<not> m then (case assignValue c' v p' rt of
                (Inl x, rt) \<Rightarrow> F c' n' p' rt | (Inr a, rt) \<Rightarrow> Some (Some (True, m, a), rt))
            else Some (None, rt)) = Some y"
    show "c' = c \<longrightarrow> n' = n \<longrightarrow> p' = p \<longrightarrow> y = (x, rt') \<longrightarrow> P rt"
    proof (intro impI)
      assume eqs: "c' = c" "n' = n" "p' = p" "y = (x, rt')"
      define rt0 where "rt0 = updReceive n (rc_hasResult_update (\<lambda>_. False)) rt"
      obtain v ok m rt1 where recv: "receiveAsyncImpl c (Some (ReceiveCallback n)) rt0 = ((v, ok, m), rt1)"
        by (cases "receiveAsyncImpl c (Some (ReceiveCallback n)) rt0") auto
      obtain z rt2 where assign: "assignValue c v p rt1 = (z, rt2)" by (cases "assignValue c v p rt1") auto
      show "P rt"
      proof (cases "ok \<and> (\<exists>e. z = Inl e)")
        case True
        then have "F c n p rt2 = Some (x, rt')" using body eqs recv assign by (auto simp: rt0_def split: if_splits)
        then have "P rt2" using IH by blast
        with True assign recv show ?thesis unfolding rt0_def by (auto intro: drop)
      next
        case False
        then show ?thesis
          using body eqs assign by (intro stop [OF recv [unfolded rt0_def]]) (cases z; auto simp: recv rt0_def [symmetric] split: if_splits)
      qed
    qed
  qed
  then show ?thesis using assms(1) by blast
qed

lemma runCoroutine_induct [consumes 1, case_names stop panic step]:
  assumes "runCoroutine self rt = Some (self', rt')"
    and stop: "(\<nexists>code. co_control self' = Executing code) \<or> co_closed self' \<Longrightarrow> P self' rt'"
    and panic: "\<And>code self rt p rt1. co_control self = Executing code \<Longrightarrow> \<not> co_closed self \<Longrightarrow>
        perform code self rt = Some (Inl p, rt1) \<Longrightarrow> self' = panicked p self \<Longrightarrow> rt' = cleanupFrames (co_frames self) rt1 \<Longrightarrow> P self rt"
    and step: "\<And>code self rt self1 rt1. co_control self = Executing code \<Longrightarrow> \<not> co_closed self \<Longrightarrow>
        perform code self rt = Some (Inr self1, rt1) \<Longrightarrow> runCoroutine self1 rt1 = Some (self', rt') \<Longrightarrow> P self1 rt1 \<Longrightarrow> P self rt"
  shows "P self rt"
proof -
  have "y = (self', rt') \<longrightarrow> runCoroutine self rt = Some y \<and> P self rt" if "runCoroutine self rt = Some y" for self rt y
  proof (rule runCoroutine.raw_induct [where P = "\<lambda>self rt y. y = (self', rt') \<longrightarrow> runCoroutine self rt = Some y \<and> P self rt", OF _ that])
    fix F self rt y
    assume IH: "\<And>self rt y. F self rt = Some y \<Longrightarrow> y = (self', rt') \<longrightarrow> runCoroutine self rt = Some y \<and> P self rt"
      and body: "(case co_control self of
          Executing code \<Rightarrow> if co_closed self then Some (self, rt)
            else Option.bind (perform code self rt) (\<lambda>(r, rt). case r of
                Inl p \<Rightarrow> Some (panicked p self, cleanupFrames (co_frames self) rt)
              | Inr self \<Rightarrow> F self rt)
        | _ \<Rightarrow> Some (self, rt)) = Some y"
    show "y = (self', rt') \<longrightarrow> runCoroutine self rt = Some y \<and> P self rt"
    proof
      assume y: "y = (self', rt')"
      show "runCoroutine self rt = Some y \<and> P self rt"
      proof (cases "\<exists>code. co_control self = Executing code \<and> \<not> co_closed self")
        case True
        then obtain code r rt1 where t: "co_control self = Executing code" "\<not> co_closed self"
          "perform code self rt = Some (r, rt1)" using body by (auto simp: bind_eq_Some_conv)
        show ?thesis
        proof (cases r)
          case (Inl p)
          then show ?thesis using t body y by (auto simp: runCoroutine.simps intro: panic)
        next
          case (Inr self1)
          then have "F self1 rt1 = Some y" using body t by simp
          then have "runCoroutine self1 rt1 = Some (self', rt')" "P self1 rt1" using IH y by auto
          then show ?thesis using t Inr y by (auto simp: runCoroutine.simps [of self] intro: step)
        qed
      next
        case False
        then show ?thesis using body y stop by (auto simp: runCoroutine.simps split: control.splits if_splits)
      qed
    qed
  qed
  then show ?thesis using assms(1) by blast
qed

lemma call_cases:
  assumes "callCoroutine i rt = Some rt'"
  obtains (panic) p rt1 where "resume (d_coroutines rt ! i) rt = Some (Inl p, rt1)"
      "rt' = (let rt2 = cleanupFrames (pendingFrames (d_coroutines rt ! i)) rt1 in
        rt2\<lparr>d_coroutines := (d_coroutines rt2)[i := panicked p (d_coroutines rt ! i)]\<rparr>)"
  | (run) self1 rt1 self2 rt2 where "resume (d_coroutines rt ! i) rt = Some (Inr self1, rt1)"
      "runCoroutine self1 rt1 = Some (self2, rt2)" "rt' = rt2\<lparr>d_coroutines := (d_coroutines rt2)[i := self2]\<rparr>"
proof -
  obtain r rt1 where r: "resume (d_coroutines rt ! i) rt = Some (r, rt1)"
    using assms by (auto simp: callCoroutine_def Let_def bind_eq_Some_conv)
  show thesis
  proof (cases r)
    case (Inl p)
    with r assms show thesis by (intro panic) (auto simp: callCoroutine_def Let_def)
  next
    case (Inr self1)
    with r assms show thesis by (auto simp: callCoroutine_def Let_def bind_eq_Some_conv intro: run)
  qed
qed

text \<open>A coroutine that is already closed has no turn.\<close>

definition turnOf :: "nat \<Rightarrow> 'm runtime \<Rightarrow> 'm runtime option" where
  "turnOf i rt = (if co_closed (d_coroutines rt ! i) then Some rt else callCoroutine i rt)"

definition dropCoroutine :: "nat \<Rightarrow> 'm runtime \<Rightarrow> 'm runtime" where
  "dropCoroutine i rt = rt\<lparr>d_coroutines := removeAt i (d_coroutines rt)\<rparr>"

lemma executeRound_unfold: "executeRound i b rt = (
     if \<not> i < length (d_coroutines rt) then Some ((None, b), rt)
     else Option.bind (turnOf i rt) (\<lambda>rt.
       if co_closed (d_coroutines rt ! i) then (case co_panicError (d_coroutines rt ! i) of
           Some p \<Rightarrow> Some ((Some p, b), dropCoroutine i rt)
         | None \<Rightarrow> executeRound i False (dropCoroutine i rt))
       else executeRound (Suc i) (b \<and> co_keptBlocked (d_coroutines rt ! i)) rt))"
  by (subst executeRound.simps) (simp only: turnOf_def dropCoroutine_def Let_def)

lemma executeRound_induct [consumes 1, case_names stop panic closed blocked]:
  assumes "executeRound i b rt = Some ((err, b'), rt')"
    and stop: "\<And>i. \<not> i < length (d_coroutines rt') \<Longrightarrow> err = None \<Longrightarrow> P i b' rt'"
    and panic: "\<And>i rt rt1. i < length (d_coroutines rt) \<Longrightarrow> turnOf i rt = Some rt1 \<Longrightarrow> co_closed (d_coroutines rt1 ! i) \<Longrightarrow>
        co_panicError (d_coroutines rt1 ! i) = err \<Longrightarrow> err \<noteq> None \<Longrightarrow> rt' = dropCoroutine i rt1 \<Longrightarrow> P i b' rt"
    and closed: "\<And>i b rt rt1. i < length (d_coroutines rt) \<Longrightarrow> turnOf i rt = Some rt1 \<Longrightarrow> co_closed (d_coroutines rt1 ! i) \<Longrightarrow>
        executeRound i False (dropCoroutine i rt1) = Some ((err, b'), rt') \<Longrightarrow> P i False (dropCoroutine i rt1) \<Longrightarrow> P i b rt"
    and blocked: "\<And>i b rt rt1. i < length (d_coroutines rt) \<Longrightarrow> turnOf i rt = Some rt1 \<Longrightarrow> \<not> co_closed (d_coroutines rt1 ! i) \<Longrightarrow>
        executeRound (Suc i) (b \<and> co_keptBlocked (d_coroutines rt1 ! i)) rt1 = Some ((err, b'), rt') \<Longrightarrow>
        P (Suc i) (b \<and> co_keptBlocked (d_coroutines rt1 ! i)) rt1 \<Longrightarrow> P i b rt"
  shows "P i b rt"
proof -
  have "y = ((err, b'), rt') \<longrightarrow> executeRound i b rt = Some y \<and> P i b rt" if "executeRound i b rt = Some y" for i b rt y
  proof (rule executeRound.raw_induct
      [where P = "\<lambda>i b rt y. y = ((err, b'), rt') \<longrightarrow> executeRound i b rt = Some y \<and> P i b rt", OF _ that])
    fix F i b rt y
    assume IH: "\<And>i b rt y. F i b rt = Some y \<Longrightarrow> y = ((err, b'), rt') \<longrightarrow> executeRound i b rt = Some y \<and> P i b rt"
      and body: "(if \<not> i < length (d_coroutines rt) then Some ((None, b), rt)
        else Option.bind (if co_closed (d_coroutines rt ! i) then Some rt else callCoroutine i rt) (\<lambda>rt.
          let c = d_coroutines rt ! i in
          if co_closed c then
            (let rt = rt\<lparr>d_coroutines := removeAt i (d_coroutines rt)\<rparr> in
             case co_panicError c of Some p \<Rightarrow> Some ((Some p, b), rt) | None \<Rightarrow> F i False rt)
          else F (Suc i) (b \<and> co_keptBlocked c) rt)) = Some y"
    show "y = ((err, b'), rt') \<longrightarrow> executeRound i b rt = Some y \<and> P i b rt"
    proof
      assume y: "y = ((err, b'), rt')"
      show "executeRound i b rt = Some y \<and> P i b rt"
      proof (cases "i < length (d_coroutines rt)")
        case True
        then obtain rt1 where t: "turnOf i rt = Some rt1" using body by (auto simp: bind_eq_Some_conv turnOf_def)
        note body' = body [folded turnOf_def, unfolded t]
        show ?thesis
        proof (cases "co_closed (d_coroutines rt1 ! i)")
          case c: True
          show ?thesis
          proof (cases "co_panicError (d_coroutines rt1 ! i)")
            case (Some p)
            then have res: "err = Some p" "b' = b" "rt' = dropCoroutine i rt1"
              using True c y body' by (simp_all add: Let_def dropCoroutine_def)
            have "executeRound i b rt = Some y" using True t c Some y res by (simp add: executeRound_unfold [of i b])
            moreover have "P i b' rt" using Some res by (intro panic [OF True t c]) simp_all
            ultimately show ?thesis using res by simp
          next
            case None
            then have "F i False (dropCoroutine i rt1) = Some y" using True c body' by (simp add: Let_def dropCoroutine_def)
            then show ?thesis using IH True t c y None by (auto simp: executeRound_unfold [of i b] intro: closed)
          qed
        next
          case False
          then have "F (Suc i) (b \<and> co_keptBlocked (d_coroutines rt1 ! i)) rt1 = Some y" using True body' by (simp add: Let_def)
          then show ?thesis using IH True t False y by (auto simp: executeRound_unfold [of i b] intro: blocked)
        qed
      next
        case False
        then have "err = None" "b' = b" "rt' = rt" using body y by simp_all
        then show ?thesis using False y stop [of i] by (simp add: executeRound_unfold)
      qed
    qed
  qed
  then show ?thesis using assms(1) by blast
qed

lemma executeLoop_induct [consumes 1, case_names panic stop again]:
  assumes "executeLoop rt = Some (err, rt')"
    and panic: "\<And>rt b p. executeRound 0 True rt = Some ((Some p, b), rt') \<Longrightarrow> err = Some p \<Longrightarrow> P rt"
    and stop: "\<And>rt b. executeRound 0 True rt = Some ((None, b), rt') \<Longrightarrow> err = None \<Longrightarrow>
        b \<and> d_sequence rt = d_sequence rt' \<or> d_coroutines rt' = [] \<Longrightarrow> P rt"
    and again: "\<And>rt b rt1. executeRound 0 True rt = Some ((None, b), rt1) \<Longrightarrow>
        \<not> (b \<and> d_sequence rt = d_sequence rt1) \<Longrightarrow> d_coroutines rt1 \<noteq> [] \<Longrightarrow>
        executeLoop rt1 = Some (err, rt') \<Longrightarrow> P rt1 \<Longrightarrow> P rt"
  shows "P rt"
proof -
  have "y = (err, rt') \<longrightarrow> executeLoop rt = Some y \<and> P rt" if "executeLoop rt = Some y" for rt y
  proof (rule executeLoop.raw_induct [where P = "\<lambda>rt y. y = (err, rt') \<longrightarrow> executeLoop rt = Some y \<and> P rt", OF _ that])
    fix F rt y
    assume IH: "\<And>rt y. F rt = Some y \<Longrightarrow> y = (err, rt') \<longrightarrow> executeLoop rt = Some y \<and> P rt"
      and body: "Option.bind (executeRound 0 True rt) (\<lambda>((err, allBlocked), rt'). case err of
          Some p \<Rightarrow> Some (Some p, rt')
        | None \<Rightarrow> if allBlocked \<and> d_sequence rt = d_sequence rt' \<or> d_coroutines rt' = [] then Some (None, rt') else F rt') = Some y"
    show "y = (err, rt') \<longrightarrow> executeLoop rt = Some y \<and> P rt"
    proof
      assume y: "y = (err, rt')"
      obtain e b rt1 where r: "executeRound 0 True rt = Some ((e, b), rt1)" using body by (auto simp: bind_eq_Some_conv)
      note unfold = executeLoop.simps [of rt, unfolded r]
      show "executeLoop rt = Some y \<and> P rt"
      proof (cases e)
        case (Some p)
        with r body y show ?thesis by (auto simp: unfold intro: panic)
      next
        case None
        show ?thesis
        proof (cases "b \<and> d_sequence rt = d_sequence rt1 \<or> d_coroutines rt1 = []")
          case True
          with r None body y show ?thesis by (auto simp: unfold intro: stop)
        next
          case False
          then have "F rt1 = Some y" using r None body by auto
          then have "executeLoop rt1 = Some (err, rt')" "P rt1" using IH y by auto
          with r None False y show ?thesis by (auto simp: unfold intro: again)
        qed
      qed
    qed
  qed
  then show ?thesis using assms(1) by blast
qed

section \<open>Relations kept by all steps\<close>

definition selected :: "nat \<Rightarrow> 'm runtime \<Rightarrow> bool" where
  "selected c rt \<longleftrightarrow> list_ex (\<lambda>call. list_ex (\<lambda>sc. case sc of ReceiveCase d f \<Rightarrow> d = c | _ \<Rightarrow> False) (sc_cases call)) (rt_selects rt)"

lemma selected_iff: "selected c (rt :: 'm runtime) \<longleftrightarrow> (\<exists>call \<in> set (rt_selects rt). \<exists>f. ReceiveCase c f \<in> set (sc_cases call))"
proof -
  have "list_ex (\<lambda>sc. case sc of ReceiveCase d f \<Rightarrow> d = c | _ \<Rightarrow> False) scs \<longleftrightarrow> (\<exists>f. ReceiveCase c f \<in> set scs)"
    for scs :: "'m code selectCase list"
    by (induction scs) (auto split: selectCase.splits)
  then show ?thesis by (simp add: selected_def list_ex_iff)
qed

lemma selected_in: "n < length (rt_selects rt) \<Longrightarrow> ReceiveCase c f \<in> set (sc_cases (rt_selects rt ! n)) \<Longrightarrow> selected c rt"
  by (auto simp: selected_iff)

definition knows :: "nat \<Rightarrow> 'm code selectCase list \<Rightarrow> 'm runtime \<Rightarrow> bool" where
  "knows n cs rt \<longleftrightarrow> n < length (rt_selects rt) \<and> set cs \<subseteq> set (sc_cases (rt_selects rt ! n))"

lemma knows_cong: "others rt' = others rt \<Longrightarrow> knows n cs rt' \<longleftrightarrow> knows n cs rt"
  by (auto simp: knows_def others_def dest: map_eq_imp_length_eq) (metis length_map nth_map subsetD)+

lemma others_setReady [simp]: "others (setReady n b rt) = others rt"
  by (simp add: setReady_def others_updSelect)

lemma others_addCleanup [simp]: "others (addCleanup n cl rt) = others rt"
  by (simp add: addCleanup_def others_updSelect)

lemma GetAsync_others [runtime_frames]: "GetAsync f b rt = (x, rt') \<Longrightarrow> others rt' = others rt"
  by (auto simp: GetAsync_def go_bind_def object_def dest!: receiveAsyncImpl_others split: prod.splits if_splits)

lemma updChannel_dangling: "\<not> c < length (rt_channels rt) \<Longrightarrow> updChannel c f rt = rt"
  by (simp add: updChannel_def list_update_beyond)

locale runtime_steps =
  fixes G :: "'m runtime \<Rightarrow> 'm runtime \<Rightarrow> bool"
  assumes step_refl: "G rt rt"
    and step_trans: "G rt rt1 \<Longrightarrow> G rt1 rt2 \<Longrightarrow> G rt rt2"
    and step_outside: "rt_channels rt' = rt_channels rt \<Longrightarrow> rt_corrupted rt' = rt_corrupted rt \<Longrightarrow>
        map sc_cases (rt_selects rt') = map sc_cases (rt_selects rt) \<Longrightarrow> d_sequence rt' = d_sequence rt \<Longrightarrow>
        d_coroutines rt' = d_coroutines rt \<Longrightarrow> d_executing rt' = d_executing rt \<Longrightarrow> d_closed rt' = d_closed rt \<Longrightarrow> G rt rt'"
    and step_corrupted: "G rt (rt\<lparr>rt_corrupted := Suc (rt_corrupted rt)\<rparr>)"
    and step_newSelectCall: "G rt (snd (newSelectCall s rt))"
    and step_fork: "G rt (newCoroutine (Executing k) rt)"
    and step_newChannel: "G rt (snd (newChannel dc sz rt))"
    and step_receive: "c < length (rt_channels rt) \<Longrightarrow> receiveAsyncImpl c cb rt = (r, rt') \<Longrightarrow> G rt rt'"
    and step_put_back: "c < length (rt_channels rt) \<Longrightarrow> receiveAsyncImpl c None rt = ((v, True, m), rt') \<Longrightarrow>
        G rt (updChannel c (ch_recValue_update (\<lambda>_. Some v)) rt')"
    and step_send: "c < length (rt_channels rt) \<Longrightarrow> sendAsyncImpl c v p rt = (x, rt') \<Longrightarrow>
        p = None \<or> callbackValue (the p) = v \<Longrightarrow> G rt rt'"
    and step_close: "c < length (rt_channels rt) \<Longrightarrow> G rt (updChannel c (ch_closed_update (\<lambda>_. True)) rt)"
    and step_removeReceive: "c < length (rt_channels rt) \<Longrightarrow> G rt (removeReceiveCallback c b rt)"
    and step_removeSend: "c < length (rt_channels rt) \<Longrightarrow> G rt (removeSendCallback c b' rt)"
    and step_prefetch: "c < length (rt_channels rt) \<Longrightarrow> selected c rt \<Longrightarrow>
        G rt (updChannel c (ch_recValue_update (\<lambda>_. Some v)) rt)"
begin

lemma step_others: "rt_channels rt' = rt_channels rt \<Longrightarrow> others rt' = others rt \<Longrightarrow> G rt rt'"
  by (rule step_outside) (simp_all add: others_def)

abbreviation kept :: "('m, 'a) rgo \<Rightarrow> bool" where
  "kept m \<equiv> \<forall>rt. G rt (snd (m rt))"

lemma kept_bind: "kept m \<Longrightarrow> (\<And>a. kept (f a)) \<Longrightarrow> kept (go_bind m f)"
  by (auto simp: go_bind_def split: prod.splits sum.splits) (metis snd_conv step_trans)+

lemma kept_then: "kept m \<Longrightarrow> kept k \<Longrightarrow> kept (go_then m k)"
  by (simp add: go_then_def kept_bind)

lemma kept_basic [simp]: "kept (go_return a)" "kept (go_panic p)" "kept (go_get g)" "kept (object h n)"
  by (simp_all add: go_return_def go_panic_def go_get_def object_def step_refl)

lemma kept_modify: "(\<And>rt. G rt (f rt)) \<Longrightarrow> kept (go_modify f)"
  by (simp add: go_modify_def)

lemma kept_receive: "receiveAsyncImpl c cb rt = (r, rt') \<Longrightarrow> G rt rt'"
  by (cases "c < length (rt_channels rt)")
    (auto intro: step_receive step_others dest: receiveAsyncImpl_dangling receiveAsyncImpl_others)

lemma kept_send: "p = None \<or> callbackValue (the p) = v \<Longrightarrow> kept (sendAsyncImpl c v p)"
proof
  fix rt :: "'m runtime" assume "p = None \<or> callbackValue (the p) = v" then show "G rt (snd (sendAsyncImpl c v p rt))"
    by (cases "sendAsyncImpl c v p rt"; cases "c < length (rt_channels rt)")
      (auto intro: step_send step_others dest: sendAsyncImpl_dangling sendAsyncImpl_others)
qed

lemma kept_closeChannel: "G rt (closeChannel c rt)"
proof -
  have "G rt (updChannel c (ch_closed_update (\<lambda>_. True)) rt)"
    by (cases "c < length (rt_channels rt)") (simp_all add: step_close updChannel_dangling step_refl)
  then show ?thesis
    by (rule step_trans) (simp add: closeChannel_def Let_def step_others)
qed

lemma kept_runCleanup: "G rt (runCleanup cl rt)"
proof (cases cl)
  case (RemoveReceive c b)
  then show ?thesis
    by (cases "c < length (rt_channels rt)")
      (simp_all add: step_removeReceive removeReceiveCallback_def [of c b] updChannel_dangling step_refl del: step_removeReceive,
       metis removeReceiveCallback_def step_removeReceive)
next
  case (RemoveSend c b)
  then show ?thesis
    by (cases "c < length (rt_channels rt)")
      (simp_all add: removeSendCallback_def updChannel_dangling step_refl, metis removeSendCallback_def step_removeSend)
qed

lemma kept_fold: "(\<And>x rt. G rt (f x rt)) \<Longrightarrow> G rt (fold f xs rt)"
  by (induction xs arbitrary: rt) (auto intro: step_refl step_trans)

lemma kept_cleanupSelect: "G rt (cleanupSelect n rt)"
  by (simp add: cleanupSelect_def kept_fold kept_runCleanup)

lemma kept_cleanupFrames: "G rt (cleanupFrames frs rt)"
  unfolding cleanupFrames_def by (rule kept_fold) (simp add: kept_cleanupSelect split: selectFrame.split)

lemma kept_assignValue: "assignValue c v p rt = (x, rt') \<Longrightarrow> G rt rt'"
  using step_corrupted [of rt] by (auto simp: assignValue_def intro: step_refl split: sum.splits)

lemma kept_ReceiveAsync: "ReceiveAsyncWithMoreFlag c p rt = Some (x, rt') \<Longrightarrow> G rt rt'"
proof (induction rule: ReceiveAsync_induct)
  case (stop rt v ok m rt1)
  with kept_receive [OF stop(1)] show ?case by (auto dest!: kept_assignValue intro: step_trans)
next
  case (drop rt v ok m rt1 e rt2)
  then show ?case using kept_receive [OF drop(1)] kept_assignValue [OF drop(3)] by (blast intro: step_trans)
qed

lemma kept_receiveLoop: "receiveLoop c n p rt = Some (x, rt') \<Longrightarrow> G rt rt'"
proof (induction rule: receiveLoop_induct)
  case (stop rt v ok m rt1)
  have "G rt (updReceive n (rc_hasResult_update (\<lambda>_. False)) rt)" by (rule step_others) simp_all
  with kept_receive [OF stop(1)] stop(2) show ?case by (auto dest!: kept_assignValue intro: step_trans)
next
  case (drop rt v m rt1 e rt2)
  have "G rt (updReceive n (rc_hasResult_update (\<lambda>_. False)) rt)" by (rule step_others) simp_all
  with drop(3) show ?case using kept_receive [OF drop(1)] kept_assignValue [OF drop(2)] by (blast intro: step_trans)
qed

lemma kept_newFuture: "G rt (snd (newFuture dc rt))"
proof (cases "newChannel dc 0 rt")
  case (Pair c rt1)
  have "G rt rt1" using step_newChannel [of rt dc 0] by (simp add: Pair)
  then show ?thesis by (rule step_trans) (rule step_outside; simp add: newFuture_def Pair)
qed

lemma kept_updFuture: "G rt (updFuture n f rt)"
  by (rule step_outside) (simp_all add: updFuture_def)

lemma kept_updWaitGroup: "G rt (updWaitGroup n f rt)"
  by (rule step_outside) (simp_all add: updWaitGroup_def)

lemma kept_updSelector: "G rt (updSelector n f rt)"
  by (rule step_outside) (simp_all add: updSelector_def)

lemma kept_setAll: "kept (setAll fs v err)"
proof
  fix rt :: "'m runtime" show "G rt (snd (setAll fs v err rt))"
  proof (induction fs v err rt rule: setAll.induct)
    case (2 f fs v err rt)
    have "G rt (makeReady f v err rt)"
      unfolding makeReady_def by (rule step_trans [OF kept_updFuture kept_closeChannel])
    with 2 show ?case by (auto intro: step_refl step_trans)
  qed (simp add: step_refl)
qed

lemma kept_futureSet: "kept (futureSet f v err)"
  unfolding futureSet_def by (rule kept_setAll)

lemma kept_getSignalChannel: "G rt (snd (getSignalChannel dc name rt))"
proof (cases "newChannel dc defaultSignalChannelSize rt")
  case (Pair c rt1)
  have "G rt rt1" using step_newChannel [of rt dc defaultSignalChannelSize] by (simp add: Pair)
  moreover have "G rt1 (rt1\<lparr>rt_signalChannels := x\<rparr>)" for x by (rule step_outside) simp_all
  ultimately show ?thesis by (auto simp: getSignalChannel_def Pair step_refl intro: step_trans split: option.split)
qed

lemma kept_signalHandler: "kept (signalHandler dc name result)"
proof
  fix rt :: "'m runtime"
  obtain c rt1 where ch: "getSignalChannel dc name rt = (c, rt1)" by (cases "getSignalChannel dc name rt") auto
  have "kept (go_bind (sendAsyncImpl c (GoBytes result) None) (\<lambda>ok.
      if \<not> ok then go_panic (''Exceeded channel buffer size for signal: '' @ name) else go_return ()))"
    by (rule kept_bind [OF kept_send]) simp_all
  then show "G rt (snd (signalHandler dc name result rt))"
    using kept_getSignalChannel [of rt dc name] by (simp add: signalHandler_def ch) (blast intro: step_trans)
qed

lemma kept_unhandledSignals: "G rt (snd (unhandledSignals ks rt))"
proof (induction ks arbitrary: rt)
  case (Cons k ks)
  obtain name c where k: "k = (name, c)" by (cases k)
  obtain v ok m rt1 where recv: "receiveAsyncImpl c None rt = ((v, ok, m), rt1)"
    by (cases "receiveAsyncImpl c None rt") auto
  have "ok \<Longrightarrow> G rt (updChannel c (ch_recValue_update (\<lambda>_. Some v)) rt1)"
    using recv receiveAsyncImpl_dangling [OF recv]
    by (cases "c < length (rt_channels rt)")
      (auto intro: step_put_back kept_receive simp: updChannel_dangling)
  moreover have "G rt rt1" by (rule kept_receive [OF recv])
  ultimately show ?case
    using Cons [of rt1] Cons [of "updChannel c (ch_recValue_update (\<lambda>_. Some v)) rt1"]
    by (auto simp: k recv split: prod.splits intro: step_trans)
qed (simp add: step_refl)

lemma kept_getUnhandledSignalNames: "kept getUnhandledSignalNames"
proof
  fix rt :: "'m runtime" show "G rt (snd (getUnhandledSignalNames rt))"
    using kept_unhandledSignals [of rt "rt_signalChannels rt"] by (auto simp: getUnhandledSignalNames_def split: prod.split)
qed

lemma kept_alloc: "(\<And>rt. G rt (snd (new rt))) \<Longrightarrow> kept (alloc new)"
  by (auto simp: alloc_def split: prod.splits) (metis snd_conv)

lemma kept_silently: "kept m \<Longrightarrow> kept (silently m)"
  by (simp add: silently_def kept_then)

lemma kept_serve: "kept (serve r)"
proof (cases r)
  case (Set f v err) then show ?thesis using kept_silently [OF kept_futureSet] by simp
next
  case (SetValue f v) then show ?thesis using kept_silently [OF kept_futureSet] by simp
next
  case (SetError f err) then show ?thesis using kept_silently [OF kept_futureSet] by simp
next
  case (SendAsync c v) then show ?thesis by (simp add: kept_then kept_bind kept_send)
next
  case (Close c) then show ?thesis by (simp add: kept_then kept_silently kept_modify kept_closeChannel)
next
  case (Chain f g)
  then show ?thesis by (simp add: futureChain_def kept_silently kept_bind kept_modify kept_updFuture)
next
  case (GetRest f dc p m)
  have "kept (getRest f dc p m)"
    by (simp add: step_refl)
  then show ?thesis by (simp add: GetRest kept_bind split: prod.split)
next
  case (Add w d)
  then show ?thesis
    by (simp add: waitGroupAdd_def Let_def kept_silently kept_bind kept_then kept_modify kept_updWaitGroup kept_futureSet)
next
  case (WaitStart w)
  have "kept (waitStart w)" by (simp add: waitStart_def kept_bind kept_then kept_modify kept_updWaitGroup)
  then show ?thesis by (simp add: WaitStart kept_bind)
next
  case (WaitRest w dc err a)
  have "G rt (case newFuture dc rt of (f, rt) \<Rightarrow> updWaitGroup w (wg_future_update (\<lambda>_. f)) rt)" for rt
    using kept_newFuture [of rt dc] by (auto split: prod.split intro: step_trans kept_updWaitGroup)
  then show ?thesis
    by (simp add: WaitRest waitRest_def kept_silently kept_then kept_modify kept_updWaitGroup step_refl)
next
  case (NewWaitGroup dc)
  have "G rt (snd (newWaitGroup dc rt))" for rt
  proof (cases "newFuture dc rt")
    case (Pair f rt1)
    have "G rt rt1" using kept_newFuture [of rt dc] by (simp add: Pair)
    then show ?thesis by (rule step_trans) (rule step_outside; simp add: newWaitGroup_def Pair)
  qed
  then show ?thesis by (simp add: NewWaitGroup kept_alloc)
next
  case NewSelector
  have "G rt (snd (newSelector rt))" for rt by (rule step_outside) (simp_all add: newSelector_def)
  then show ?thesis by (simp add: NewSelector kept_alloc)
next
  case GetUnhandledSignalNames
  then show ?thesis by (simp add: kept_bind kept_getUnhandledSignalNames)
next
  case (SetResult x err)
  have "G rt (rt\<lparr>rt_result := Some (x, err)\<rparr>)" for rt by (rule step_outside) simp_all
  then show ?thesis by (simp add: SetResult kept_silently kept_modify)
qed (simp_all add: kept_alloc kept_bind step_newChannel kept_newFuture kept_getSignalChannel)

lemma kept_prefetch: "selected c rt \<Longrightarrow> G rt (updChannel c (ch_recValue_update (\<lambda>_. Some v)) rt)"
  by (cases "c < length (rt_channels rt)") (simp_all add: step_prefetch updChannel_dangling step_refl)

lemma kept_GetAsync: "kept (GetAsync f b)"
  unfolding GetAsync_def
  by (rule kept_bind) (auto split: prod.split dest: kept_receive)

lemma kept_setReady: "G rt (setReady n b rt)"
  by (rule step_others) (simp_all add: setReady_def others_updSelect)

lemma kept_addCleanup: "G rt (addCleanup n cl rt)"
  by (rule step_others) (simp_all add: addCleanup_def others_updSelect)

lemma kept_dropFutureFunc: "G rt (dropFutureFunc s i rt)"
  by (simp add: dropFutureFunc_def kept_updSelector)

lemma kept_selectCases: "knows n cs rt \<Longrightarrow> G rt (snd (selectCases s n i cs rt))"
proof (induction s n i cs arbitrary: rt rule: selectCases.induct)
  case (2 s n i c f cs)
  obtain v ok m rt1 where recv: "receiveAsyncImpl c (Some (SelectReceive n i)) rt = ((v, ok, m), rt1)"
    by (cases "receiveAsyncImpl c (Some (SelectReceive n i)) rt") auto
  have same: "others rt1 = others rt" by (rule receiveAsyncImpl_others [OF recv])
  define rt2 where "rt2 = setReady n EmptyBranch rt1"
  define rt3 where "rt3 = addCleanup n (RemoveReceive c (SelectReceive n i)) rt1"
  have kn: "knows n (ReceiveCase c f # cs) rt2" "knows n cs rt3"
    using 2(2) same knows_cong [of rt2 rt] knows_cong [of rt3 rt] by (auto simp: rt2_def rt3_def knows_def)
  have "selected c rt2" using kn(1) by (auto simp: knows_def intro: selected_in)
  then have "G rt2 ((if m then updChannel c (ch_recValue_update (\<lambda>_. Some v)) else id) rt2)"
    by (simp add: kept_prefetch step_refl)
  moreover have "G rt rt1" "G rt1 rt2" "G rt1 rt3"
    using kept_receive [OF recv] by (simp_all add: rt2_def rt3_def kept_setReady kept_addCleanup)
  ultimately show ?case
    using 2(1) [OF recv [symmetric] refl refl _ kn(2)]
    by (auto simp: go_then_def go_bind_def object_def recv rt2_def [symmetric] rt3_def [symmetric]
        intro: step_refl step_trans split: if_splits)
next
  case (3 s n i c v f cs)
  obtain x rt1 where send: "sendAsyncImpl c v (Some (SelectSend v n i)) rt = (x, rt1)"
    by (cases "sendAsyncImpl c v (Some (SelectSend v n i)) rt") auto
  define rt3 where "rt3 = addCleanup n (RemoveSend c (SelectSend v n i)) rt1"
  have kn: "knows n cs rt3"
    using 3(2) sendAsyncImpl_others [OF send] knows_cong [of rt3 rt] by (auto simp: rt3_def knows_def)
  have g: "G rt rt1" "G rt1 rt3" "G rt1 (setReady n EmptyBranch rt1)"
    using spec [OF kept_send [of "Some (SelectSend v n i)" v c], of rt]
    by (simp_all add: send rt3_def kept_setReady kept_addCleanup)
  then show ?case
    using 3(1) [OF _ kn]
    by (auto simp: go_then_def go_bind_def object_def send rt3_def [symmetric]
        intro: step_refl step_trans split: sum.splits)
next
  case (4 s n i fu cs)
  then show ?case by (auto simp: knows_def)
next
  case (5 s n i fu f cs)
  obtain x rt1 where get: "GetAsync fu (SelectReceive n i) rt = (x, rt1)"
    by (cases "GetAsync fu (SelectReceive n i) rt") auto
  define rt3 where "rt3 = addCleanup n (RemoveReceive (fu_channel (rt_futures rt1 ! fu)) (SelectReceive n i)) rt1"
  have kn: "knows n cs rt3"
    using 5(2) GetAsync_others [OF get] knows_cong [of rt3 rt] by (auto simp: rt3_def knows_def)
  have g: "G rt rt1" "G rt1 rt3" "G rt1 (dropFutureFunc s i (setReady n EmptyBranch rt1))"
    using spec [OF kept_GetAsync, of rt fu "SelectReceive n i"]
    by (auto simp: get rt3_def kept_addCleanup intro: step_trans kept_setReady kept_dropFutureFunc)
  then show ?case
    using 5(1) [OF _ kn]
    by (auto simp: go_bind_def get rt3_def [symmetric] intro: step_refl step_trans split: sum.splits)
qed (simp add: go_return_def step_refl)

lemma kept_runBranch: "G rt (snd (runBranch n b rt))"
proof (cases b)
  case (BranchOf i v m)
  show ?thesis
  proof (cases "branchCase n i rt")
    case (Some cs)
    then have "cs \<in> set (sc_cases (rt_selects rt ! n))" "n < length (rt_selects rt)"
      by (auto simp: branchCase_def split: if_splits)
    then show ?thesis
      by (auto simp: runBranch_def BranchOf Some step_refl kept_dropFutureFunc intro: kept_prefetch selected_in
          split: selectCase.split option.split)
  qed (simp add: runBranch_def BranchOf step_refl)
qed (simp add: runBranch_def step_refl)

lemma kept_receiveFrom: "receiveFrom c n p k self rt = Some (r, rt') \<Longrightarrow> G rt rt'"
  by (auto simp: receiveFrom_def bind_eq_Some_conv dest!: kept_receiveLoop split: option.splits prod.splits)

lemma kept_receiveWait: "receiveWait c n p k self rt = Some (r, rt') \<Longrightarrow> G rt rt'"
  by (auto simp: receiveWait_def Let_def step_refl dest!: kept_assignValue kept_receiveFrom
      intro: step_trans split: if_splits prod.splits sum.splits)

lemma kept_selectWait: "selectWait n k self rt = Some (r, rt') \<Longrightarrow> G rt rt'"
  using kept_runBranch [of rt n] by (auto simp: selectWait_def step_refl split: option.splits prod.splits) (metis snd_conv)

lemma kept_awaitLoop: "awaitLoop cond d k self rt = Some (r, rt') \<Longrightarrow> G rt rt'"
  by (auto simp: awaitLoop_def bind_eq_Some_conv step_refl dest!: kept_ReceiveAsync split: if_splits option.splits prod.splits)

lemma kept_sendStart: "sendStart c v k self rt = Some (r, rt') \<Longrightarrow> G rt rt'"
proof -
  assume t: "sendStart c v k self rt = Some (r, rt')"
  define rt0 where "rt0 = snd (newSendCall rt)"
  have "G rt rt0" by (rule step_others) (simp_all add: rt0_def newSendCall_def)
  moreover have "G rt0 rt'"
    using t spec [OF kept_send [of "Some (SendCallback v (fst (newSendCall rt)))" v c], of rt0]
    by (auto simp: sendStart_def sendWait_def rt0_def split: prod.splits sum.splits if_splits)
  ultimately show "G rt rt'" by (rule step_trans)
qed

lemma kept_selectStart: "selectStart s k self rt = Some (r, rt') \<Longrightarrow> G rt rt'"
proof -
  assume t: "selectStart s k self rt = Some (r, rt')"
  obtain n rt0 where new: "newSelectCall s rt = (n, rt0)" by (cases "newSelectCall s rt") auto
  have "G rt rt0" using step_newSelectCall [of rt s] by (simp add: new)
  moreover have "G rt0 (snd (selectCases s n 0 (sc_cases (rt_selects rt0 ! n)) rt0))"
    by (rule kept_selectCases) (use new in \<open>auto simp: newSelectCall_def knows_def\<close>)
  moreover have "G (snd (selectCases s n 0 (sc_cases (rt_selects rt0 ! n)) rt0)) rt'"
    using t by (auto simp: selectStart_def new step_refl kept_cleanupSelect dest!: kept_selectWait
        split: prod.splits sum.splits option.splits)
  ultimately show "G rt rt'" by (blast intro: step_trans)
qed

lemma kept_perform: "perform code self rt = Some (r, rt') \<Longrightarrow> G rt rt'"
proof (cases code)
  case (Call q k)
  assume "perform code self rt = Some (r, rt')"
  with spec [OF kept_serve, of rt q] show ?thesis
    by (auto simp: perform_def Call split: prod.splits sum.splits)
next
  case (Receive c p k)
  assume t: "perform code self rt = Some (r, rt')"
  have "G rt (snd (newReceiveCall rt))" by (rule step_others) (simp_all add: newReceiveCall_def others_def)
  with t show ?thesis
    by (auto simp: perform_def Receive checked_def step_refl dest!: kept_receiveFrom intro: step_trans
        split: prod.splits if_splits)
next
  case (Compute f)
  assume t: "perform code self rt = Some (r, rt')"
  have "G rt (rt\<lparr>rt_memory := x\<rparr>)" for x by (rule step_outside) simp_all
  with t show ?thesis by (auto simp: perform_def Compute split: prod.splits)
next
  case (Go f k)
  assume t: "perform code self rt = Some (r, rt')"
  with step_fork [of rt] show ?thesis by (auto simp: perform_def Go)
qed (auto simp: perform_def checked_def bind_eq_Some_conv step_refl kept_cleanupSelect kept_updSelector
    dest!: kept_ReceiveAsync kept_sendStart kept_selectStart kept_awaitLoop
    split: list.splits selectFrame.splits if_splits prod.splits)

lemma kept_resume: "resume self rt = Some (r, rt') \<Longrightarrow> G rt rt'"
  by (auto simp: resume_def Let_def sendWait_def step_refl dest!: kept_receiveWait kept_selectWait kept_awaitLoop
      split: control.splits)

lemma kept_runCoroutine: "runCoroutine self rt = Some (self', rt') \<Longrightarrow> G rt rt'"
proof (induction rule: runCoroutine_induct)
  case (panic code self rt p rt1)
  then show ?case using kept_perform [OF panic(3)] kept_cleanupFrames by (blast intro: step_trans)
next
  case (step code self rt self1 rt1)
  then show ?case using kept_perform [OF step(3)] by (blast intro: step_trans)
qed (simp add: step_refl)

end

text \<open>Relations that do not look at the coroutines either.\<close>

locale dispatcher_steps = runtime_steps +
  assumes step_coroutines: "G rt (rt\<lparr>d_coroutines := cs\<rparr>)"
    and step_executing: "G rt (rt\<lparr>d_executing := e\<rparr>)"
begin

lemma kept_callCoroutine: "callCoroutine i rt = Some rt' \<Longrightarrow> G rt rt'"
proof (erule call_cases)
  fix p rt1 assume "resume (d_coroutines rt ! i) rt = Some (Inl p, rt1)"
    and "rt' = (let rt2 = cleanupFrames (pendingFrames (d_coroutines rt ! i)) rt1 in
      rt2\<lparr>d_coroutines := (d_coroutines rt2)[i := panicked p (d_coroutines rt ! i)]\<rparr>)"
  then show "G rt rt'"
    unfolding Let_def by (metis kept_cleanupFrames kept_resume step_coroutines step_trans)
next
  fix self1 rt1 self2 rt2 assume "resume (d_coroutines rt ! i) rt = Some (Inr self1, rt1)"
    and "runCoroutine self1 rt1 = Some (self2, rt2)" and "rt' = rt2\<lparr>d_coroutines := (d_coroutines rt2)[i := self2]\<rparr>"
  then show "G rt rt'" by (metis kept_runCoroutine kept_resume step_coroutines step_trans)
qed

lemma kept_turnOf: "turnOf i rt = Some rt' \<Longrightarrow> G rt rt'"
  by (auto simp: turnOf_def step_refl split: if_splits intro: kept_callCoroutine)

lemma kept_dropCoroutine: "G rt (dropCoroutine i rt)"
  by (simp add: dropCoroutine_def step_coroutines)

lemma kept_executeRound: "executeRound i b rt = Some ((err, b'), rt') \<Longrightarrow> G rt rt'"
proof (induction rule: executeRound_induct)
  case (panic i rt rt1)
  then show ?case using kept_turnOf [OF panic(2)] kept_dropCoroutine by (blast intro: step_trans)
next
  case (closed i b rt rt1)
  then show ?case using kept_turnOf [OF closed(2)] kept_dropCoroutine by (blast intro: step_trans)
next
  case (blocked i b rt rt1)
  then show ?case using kept_turnOf [OF blocked(2)] by (blast intro: step_trans)
qed (simp add: step_refl)

lemma kept_executeLoop: "executeLoop rt = Some (err, rt') \<Longrightarrow> G rt rt'"
  by (induction rule: executeLoop_induct) (blast intro: step_trans kept_executeRound)+

lemma kept_ExecuteUntilAllBlocked:
  assumes "ExecuteUntilAllBlocked rt = Some (r, rt')"
  shows "G rt rt'"
proof -
  have "rt' = rt \<or> (\<exists>err rt1. executeLoop (rt\<lparr>d_executing := True\<rparr>) = Some (err, rt1) \<and> rt' = rt1\<lparr>d_executing := False\<rparr>)"
    using assms by (auto simp: ExecuteUntilAllBlocked_def bind_eq_Some_conv split: if_splits)
  then show ?thesis
  proof
    assume "\<exists>err rt1. executeLoop (rt\<lparr>d_executing := True\<rparr>) = Some (err, rt1) \<and> rt' = rt1\<lparr>d_executing := False\<rparr>"
    then obtain err rt1 where l: "executeLoop (rt\<lparr>d_executing := True\<rparr>) = Some (err, rt1)" and rt': "rt' = rt1\<lparr>d_executing := False\<rparr>"
      by blast
    have "G (rt\<lparr>d_executing := True\<rparr>) rt1" using kept_executeLoop [OF l] by simp
    then show ?thesis unfolding rt' using step_executing by (blast intro: step_trans)
  qed (simp add: step_refl)
qed

lemma kept_executeDispatcher:
  assumes "executeDispatcher rt = Some (r, rt')"
  shows "G rt rt'"
proof -
  obtain x rt1 where e: "ExecuteUntilAllBlocked rt = Some (x, rt1)"
    using assms by (auto simp: executeDispatcher_def bind_eq_Some_conv)
  then have "rt' = rt1 \<or> rt' = snd (getUnhandledSignalNames rt1)"
    using assms by (auto simp: executeDispatcher_def split: sum.splits option.splits)
  then show ?thesis
    using kept_ExecuteUntilAllBlocked [OF e] spec [OF kept_getUnhandledSignalNames, of rt1] by (auto intro: step_trans)
qed

end

locale runtime_invariant = dispatcher_steps +
  assumes step_closed: "G rt (rt\<lparr>d_closed := b\<rparr>)"
begin

lemma kept_closeDispatcher: "G rt (closeDispatcher rt)"
proof (cases "d_closed rt")
  case False
  have "G (rt\<lparr>d_closed := True\<rparr>) (rt\<lparr>d_closed := True, d_coroutines := map exitCoroutine (d_coroutines rt)\<rparr>)"
    using step_coroutines [of "rt\<lparr>d_closed := True\<rparr>"] by simp
  with step_closed have "G rt (rt\<lparr>d_closed := True, d_coroutines := map exitCoroutine (d_coroutines rt)\<rparr>)"
    by (rule step_trans)
  then show ?thesis
    using False by (simp add: closeDispatcher_def step_trans [OF _ kept_fold [OF kept_cleanupFrames]])
qed (simp add: closeDispatcher_def step_refl)

end

end
