(* ===== verification/Runtime_Examples.thy ===== *)
theory Runtime_Examples
  imports Workflow_Coroutines
begin

text \<open>
  Small workflows, run to see what the runtime of channels, futures and selectors does with
  them.  Their memory is the list of values they have noted.
\<close>

type_synonym noted = "goValue list"

definition exConverter :: DataConverter where
  "exConverter = \<lparr>ToData = \<lambda>_. Inr None, FromData = \<lambda>_ _. ([], None)\<rparr>"

definition jot :: "goValue \<Rightarrow> noted code \<Rightarrow> noted code" where
  "jot v k = Compute (\<lambda>vs. (k, vs @ [v]))"

definition noteFlag :: "bool \<Rightarrow> noted code \<Rightarrow> noted code" where
  "noteFlag b = jot (GoInt (if b then 1 else 0))"

definition noteValue :: "goValue option \<Rightarrow> noted code \<Rightarrow> noted code" where
  "noteValue a k = (case a of None \<Rightarrow> k | Some v \<Rightarrow> jot v k)"

definition withRef :: "request \<Rightarrow> (nat \<Rightarrow> noted code) \<Rightarrow> noted code" where
  "withRef r k = Call r (\<lambda>x. case x of Ref n \<Rightarrow> k n | _ \<Rightarrow> Return)"

definition silent :: "request \<Rightarrow> noted code \<Rightarrow> noted code" where
  "silent r k = Call r (\<lambda>_. k)"

text \<open>The values noted after an execution, and how many coroutines are left.\<close>

definition observed :: "((string + string option) \<times> noted runtime) option \<Rightarrow> ((string + string option) \<times> noted \<times> nat) option" where
  "observed = map_option (\<lambda>(r, rt). (r, rt_memory rt, length (d_coroutines rt)))"

definition observe :: "noted code \<Rightarrow> ((string + string option) \<times> noted \<times> nat) option" where
  "observe workflow = observed (ExecuteUntilAllBlocked (newDispatcher workflow []))"

text \<open>Four values are sent through a channel of size one; two of them are received.\<close>

definition exQueue :: "noted code" where
  "exQueue = withRef (NewBufferedChannel exConverter 1) (\<lambda>c.
     Go (Send c (GoInt 1) (Send c (GoInt 2) (Send c (GoInt 3) (Send c (GoInt 4) Return))))
       (Receive c (PointerTo TInt) (\<lambda>_ a. noteValue a (Receive c (PointerTo TInt) (\<lambda>_ b. noteValue b Return)))))"

lemma queue_run: "observe exQueue = Some (Inr None, [GoInt 1, GoInt 2], 1)"
  by code_simp

definition exQueueState :: "noted runtime" where
  "exQueueState = snd (the (ExecuteUntilAllBlocked (newDispatcher exQueue [])))"

lemma queue_executed: "ExecuteUntilAllBlocked (newDispatcher exQueue []) = Some (Inr None, exQueueState)"
  using queue_run by (auto simp: observe_def observed_def exQueueState_def)

lemma queue_channel:
  "length (rt_channels exQueueState) = 1"
  "ch_sends (rt_channels exQueueState ! 0) = map GoInt [1, 2, 3, 4]"
  "ch_delivered (rt_channels exQueueState ! 0) = map GoInt [1, 2]"
  "map callbackValue (ch_blockedSends (rt_channels exQueueState ! 0)) = [GoInt 4]"
  by code_simp+

text \<open>A future that is chained to one already set is ready, but its \<open>Get\<close> blocks.\<close>

definition exChained :: "noted code" where
  "exChained = withRef (NewFuture exConverter) (\<lambda>f. withRef (NewFuture exConverter) (\<lambda>g.
     silent (Set f (GoInt 7) None) (silent (Chain g f) (Call (IsReady g) (\<lambda>r.
       noteFlag (r = Flag True) (futureGet g exConverter (PointerTo TInt) (\<lambda>_ a. noteValue a Return)))))))"

lemma chained_future_blocks: "observe exChained = Some (Inr None, [GoInt 1], 1)"
  by code_simp

text \<open>Chained before it is set, it does not.\<close>

definition exChainedEarly :: "noted code" where
  "exChainedEarly = withRef (NewFuture exConverter) (\<lambda>f. withRef (NewFuture exConverter) (\<lambda>g.
     silent (Chain g f) (silent (Set f (GoInt 7) None) (Call (IsReady g) (\<lambda>r.
       noteFlag (r = Flag True) (futureGet g exConverter (PointerTo TInt) (\<lambda>_ a. noteValue a Return)))))))"

lemma chained_early: "observe exChainedEarly = Some (Inr None, [GoInt 1, GoInt 7], 0)"
  by code_simp

text \<open>A blocked selector is told that its channel was closed; the next \<open>Receive\<close> then reports that more can come.\<close>

definition exClosedSelect :: "noted code" where
  "exClosedSelect = withRef (NewBufferedChannel exConverter 0) (\<lambda>c. withRef NewSelector (\<lambda>s.
     AddCase s (ReceiveCase c (\<lambda>m. noteFlag m (Receive c NilPointer (\<lambda>m _. noteFlag m (Receive c NilPointer (\<lambda>m _. noteFlag m Return))))))
       (Go (silent (Close c) Return) (Select s Return))))"

lemma closed_channel_reports_more: "observe exClosedSelect = Some (Inr None, [GoInt 0, GoInt 1, GoInt 0], 0)"
  by code_simp

text \<open>Two selectors wait for the same channel, their functions leave the values in it; only one
  of the two values is there.\<close>

definition exTwoSelects :: "noted code" where
  "exTwoSelects = withRef (NewBufferedChannel exConverter 5) (\<lambda>c. withRef (NewBufferedChannel exConverter 0) (\<lambda>d.
     withRef NewSelector (\<lambda>s. withRef NewSelector (\<lambda>t.
     AddCase s (ReceiveCase c (\<lambda>_. Return)) (AddCase t (ReceiveCase c (\<lambda>_. Return))
       (Go (Select s Return)
       (Go (Select t (silent (Close d) Return))
       (Go (silent (SendAsync c (GoInt 1)) (silent (SendAsync c (GoInt 2)) Return))
       (Receive d NilPointer (\<lambda>_ _. ReceiveAsync c (PointerTo TInt) (\<lambda>ok _ a. noteFlag ok (noteValue a
         (ReceiveAsync c (PointerTo TInt) (\<lambda>ok _ a. noteFlag ok (noteValue a Return)))))))))))))))"

lemma selected_value_lost: "observe exTwoSelects = Some (Inr None, [GoInt 1, GoInt 2, GoInt 0], 0)"
  by code_simp

text \<open>A selector with a case for sending and one for receiving on the same channel sends to itself: the
  value is accepted, the function of the send case is called, and nothing was received.\<close>

definition exSelfSend :: "noted code" where
  "exSelfSend = withRef (NewBufferedChannel exConverter 0) (\<lambda>c. withRef NewSelector (\<lambda>s.
     AddCase s (ReceiveCase c (\<lambda>_. noteFlag True Return)) (AddCase s (SendCase c (GoInt 9) (noteFlag False Return))
       (Select s (ReceiveAsync c (PointerTo TInt) (\<lambda>ok _ a. noteFlag ok Return))))))"

lemma select_sends_to_itself: "observe exSelfSend = Some (Inr None, [GoInt 0, GoInt 0], 0)"
  by code_simp

text \<open>Two coroutines wait for the same wait group: the second panics.\<close>

definition exTwoWaits :: "noted code" where
  "exTwoWaits = withRef (NewWaitGroup exConverter) (\<lambda>w. silent (Add w 1)
     (Go (waitGroupWait w exConverter Return) (Go (waitGroupWait w exConverter Return) (Go (waitGroupDone w Return) (waitGroupWait w exConverter Return)))))"

lemma second_wait_panics:
  "observe exTwoWaits = Some (Inr (Some ''WaitGroup is reused before previous Wait has returned''), [], 3)"
  by code_simp

text \<open>
  A wake-up that is missed.  The first coroutine awaits a condition on the memory, the second selects on a
  signal channel; the function of its case makes the condition true and then blocks.  After the
  signal, the execution stops although the condition holds; the next execution finds it.
\<close>

definition exMissed :: "noted code" where
  "exMissed = withRef (NewBufferedChannel exConverter 0) (\<lambda>d. withRef (GetSignalChannel exConverter ''go'') (\<lambda>c. withRef NewSelector (\<lambda>s.
     AddCase s (ReceiveCase c (\<lambda>_. noteFlag True (Receive d NilPointer (\<lambda>_ _. Return))))
       (Go (Select s Return) (Await (\<lambda>vs. vs \<noteq> []) None (\<lambda>_. noteFlag False Return))))))"

definition signalled :: "((string + string option) \<times> noted runtime) option \<Rightarrow> noted runtime" where
  "signalled x = snd (signalHandler exConverter ''go'' None (snd (the x)))"

definition exMissedRun :: "((string + string option) \<times> noted runtime) option" where
  "exMissedRun = ExecuteUntilAllBlocked (signalled (ExecuteUntilAllBlocked (newDispatcher exMissed [])))"

lemma missed_wakeup:
  "observed exMissedRun = Some (Inr None, [GoInt 1], 2)"
  "observed (ExecuteUntilAllBlocked (snd (the exMissedRun))) = Some (Inr None, [GoInt 1, GoInt 0], 1)"
  by code_simp+

end
