(* ===== verification/Channel_Order.thy ===== *)
theory Channel_Order
  imports Runtime_Steps Runtime_Examples
begin

text \<open>
  Channels deliver in order: the values accepted by a channel are those delivered and, after
  them, those in its buffer, all in the order in which they were sent.
\<close>

section \<open>Runs of a workflow\<close>

text \<open>
  States of the runtime of a workflow.  Between executions the environment delivers signals,
  sets futures and closes the channels of cancelled contexts.
\<close>

inductive runtime_reachable :: "'m code \<Rightarrow> 'm runtime \<Rightarrow> bool" for workflow where
  start: "runtime_reachable workflow (newDispatcher workflow mem)"
| execute: "runtime_reachable workflow rt \<Longrightarrow> ExecuteUntilAllBlocked rt = Some (r, rt') \<Longrightarrow> runtime_reachable workflow rt'"
| dispatch: "runtime_reachable workflow rt \<Longrightarrow> executeDispatcher rt = Some (x, rt') \<Longrightarrow> runtime_reachable workflow rt'"
| signal: "runtime_reachable workflow rt \<Longrightarrow> runtime_reachable workflow (snd (signalHandler dc name v rt))"
| set: "runtime_reachable workflow rt \<Longrightarrow> runtime_reachable workflow (snd (futureSet f u err rt))"
| cancel: "runtime_reachable workflow rt \<Longrightarrow> runtime_reachable workflow (closeChannel c rt)"
| close: "runtime_reachable workflow rt \<Longrightarrow> runtime_reachable workflow (closeDispatcher rt)"

section \<open>Order\<close>

definition channel_ok :: "channelImpl \<Rightarrow> bool" where
  "channel_ok ch \<longleftrightarrow> ch_accepted ch = ch_delivered ch @ ch_buffer ch
     \<and> subseq (ch_accepted ch @ map callbackValue (ch_blockedSends ch)) (ch_sends ch)
     \<and> int (length (ch_buffer ch)) \<le> max 0 (ch_size ch)
     \<and> (ch_blockedSends ch \<noteq> [] \<longrightarrow> ch_size ch \<le> int (length (ch_buffer ch)))
     \<and> (ch_blockedReceives ch \<noteq> [] \<longrightarrow> ch_buffer ch = [] \<and> ch_blockedSends ch = [])"

definition channels_ok :: "'m runtime \<Rightarrow> bool" where
  "channels_ok rt \<longleftrightarrow> (\<forall>ch \<in> set (rt_channels rt). channel_ok ch)"

lemma channels_okD: "channels_ok rt \<Longrightarrow> c < length (rt_channels rt) \<Longrightarrow> channel_ok (rt_channels rt ! c)"
  by (simp add: channels_ok_def)

lemma channels_ok_update:
  "channels_ok rt \<Longrightarrow> rt_channels rt' = (rt_channels rt)[c := ch] \<Longrightarrow> channel_ok ch \<Longrightarrow> channels_ok rt'"
  by (auto simp: channels_ok_def dest!: subsetD [OF set_update_subset_insert])

lemma channels_ok_cong: "channels_ok rt \<Longrightarrow> rt_channels rt' = rt_channels rt \<Longrightarrow> channels_ok rt'"
  by (simp add: channels_ok_def)

text \<open>A blocked sender leaves the queue; those before it have left unserved.\<close>

lemma subseq_taken:
  assumes "subseq (xs @ map f (as @ b # bs)) ys"
  shows "subseq (xs @ f b # map f bs) ys"
proof -
  have "subseq (xs @ f b # map f bs) (xs @ map f as @ f b # map f bs)"
    by (intro list_emb_append_mono list_emb_append2) simp_all
  then show ?thesis using assms by (simp add: subseq_order.order_trans)
qed

lemma subseq_dropped: "subseq (xs @ ys) zs \<Longrightarrow> subseq xs zs"
  using subseq_order.order_trans [of xs "xs @ ys" zs] by (simp add: list_emb_append2 prefix_imp_subseq)

lemma receive_order:
  assumes ok: "channels_ok rt" and c: "c < length (rt_channels rt)" and r: "receiveAsyncImpl c cb rt = (r, rt')"
  shows "channels_ok rt'"
proof -
  define ch where "ch = rt_channels rt ! c"
  have chok: "channel_ok ch" using channels_okD [OF ok c] by (simp add: ch_def)
  show ?thesis
  proof (rule receive_cases [OF r c], unfold ch_def [symmetric])
    fix v vs w bs as b
    assume "ch_buffer ch = v # vs" "ch_blockedSends ch = as @ b # bs"
      and rt': "rt_channels rt' = (rt_channels rt)[c := refilled ch v (callbackValue b) bs]"
    then show ?thesis
      using chok subseq_taken [of "ch_accepted ch" callbackValue as b bs "ch_sends ch"]
      by (intro channels_ok_update [OF ok rt']) (auto simp: channel_ok_def refilled_def)
  next
    fix bs as b
    assume "ch_buffer ch = []" "ch_blockedSends ch = as @ b # bs"
      and rt': "rt_channels rt' = (rt_channels rt)[c := passed ch (callbackValue b) bs]"
    then show ?thesis
      using chok subseq_taken [of "ch_accepted ch" callbackValue as b bs "ch_sends ch"]
      by (intro channels_ok_update [OF ok rt']) (auto simp: channel_ok_def passed_def)
  next
    fix v vs
    assume "ch_buffer ch = v # vs" and rt': "rt_channels rt' = (rt_channels rt)[c := drained ch v]"
    then show ?thesis
      using chok by (intro channels_ok_update [OF ok rt']) (auto simp: channel_ok_def drained_def dest: subseq_dropped)
  next
    assume "ch_buffer ch = []" and rt': "rt_channels rt' = (rt_channels rt)[c := waiting ch cb]"
    then show ?thesis
      using chok by (intro channels_ok_update [OF ok rt'])
        (auto simp: channel_ok_def waiting_def dest: subseq_dropped split: option.split)
  next
    assume rt': "rt_channels rt' = (rt_channels rt)[c := ch\<lparr>ch_recValue := None\<rparr>]"
    then show ?thesis using chok by (intro channels_ok_update [OF ok rt']) (auto simp: channel_ok_def)
  qed (use ok in simp)
qed

lemma channel_update_order:
  assumes "channels_ok rt" and "\<And>ch. channel_ok ch \<Longrightarrow> channel_ok (f ch)"
  shows "channels_ok (updChannel c f rt)"
proof (cases "c < length (rt_channels rt)")
  case True
  show ?thesis
    by (rule channels_ok_update [OF assms(1), where c = c]) (simp, rule assms(2) [OF channels_okD [OF assms(1) True]])
qed (simp add: assms(1) updChannel_def list_update_beyond)

lemma channel_ok_flags [simp]:
  "channel_ok (ch\<lparr>ch_closed := b\<rparr>) \<longleftrightarrow> channel_ok ch" "channel_ok (ch\<lparr>ch_recValue := x\<rparr>) \<longleftrightarrow> channel_ok ch"
  by (simp_all add: channel_ok_def)

lemma subseq_sent: "subseq xs ys \<Longrightarrow> subseq (xs @ [v]) (ys @ [v])"
  by (simp add: list_emb_append_mono)

lemma subseq_more: "subseq xs ys \<Longrightarrow> subseq xs (ys @ zs)"
  by (metis append_Nil2 list_emb_Nil list_emb_append_mono)

lemma send_order:
  assumes ok: "channels_ok rt" and c: "c < length (rt_channels rt)" and r: "sendAsyncImpl c v p rt = (r, rt')"
    and p: "p = None \<or> callbackValue (the p) = v"
  shows "channels_ok rt'"
proof -
  define ch where "ch = rt_channels rt ! c"
  have chok: "channel_ok ch" using channels_okD [OF ok c] by (simp add: ch_def)
  then have sent: "subseq ((ch_accepted ch @ map callbackValue (ch_blockedSends ch)) @ [v]) (ch_sends ch @ [v])"
    unfolding channel_ok_def by (blast intro: subseq_sent)
  show ?thesis
  proof (rule send_cases [OF r c], unfold ch_def [symmetric])
    fix bs assume "ch_blockedReceives ch \<noteq> []" and rt': "rt_channels rt' = (rt_channels rt)[c := handed ch v bs]"
    then show ?thesis
      using chok sent by (intro channels_ok_update [OF ok rt']) (auto simp: channel_ok_def handed_def)
  next
    assume "int (length (ch_buffer ch)) < ch_size ch" and rt': "rt_channels rt' = (rt_channels rt)[c := buffered ch v]"
    then show ?thesis
      using chok sent by (intro channels_ok_update [OF ok rt']) (auto simp: channel_ok_def buffered_def)
  next
    assume "ch_size ch \<le> int (length (ch_buffer ch))" and rt': "rt_channels rt' = (rt_channels rt)[c := refused ch v p]"
    then show ?thesis
      using chok sent p by (intro channels_ok_update [OF ok rt']) (auto simp: channel_ok_def refused_def split: option.split)
  qed (use ok in simp)
qed

lemma remove_order:
  "channel_ok ch \<Longrightarrow> channel_ok (ch_blockedReceives_update (remove1 b) ch)"
  "channel_ok ch \<Longrightarrow> channel_ok (ch_blockedSends_update (remove1 b') ch)"
proof -
  assume ok: "channel_ok ch"
  then show "channel_ok (ch_blockedReceives_update (remove1 b) ch)"
    by (auto simp: channel_ok_def)
  have "subseq (map callbackValue (remove1 b' bs)) (map callbackValue bs)" for bs
    by (induction bs) auto
  then have "subseq (ch_accepted ch @ map callbackValue (remove1 b' (ch_blockedSends ch)))
      (ch_accepted ch @ map callbackValue (ch_blockedSends ch))"
    by (intro list_emb_append_mono) simp_all
  with ok show "channel_ok (ch_blockedSends_update (remove1 b') ch)"
    by (auto simp: channel_ok_def elim: subseq_order.order_trans)
qed

interpretation order: runtime_invariant "\<lambda>rt rt'. channels_ok rt \<longrightarrow> channels_ok rt'"
proof
  fix rt rt' :: "'m runtime" and c v m dc sz
  show "channels_ok rt \<longrightarrow> channels_ok (snd (newChannel dc sz rt))"
    by (auto simp: newChannel_def channels_ok_def channel_ok_def)
  assume c: "c < length (rt_channels rt)"
  { assume r: "receiveAsyncImpl c None rt = ((v, True, m), rt')"
    then show "channels_ok rt \<longrightarrow> channels_ok (updChannel c (ch_recValue_update (\<lambda>_. Some v)) rt')"
      using receive_order [OF _ c r] by (auto intro!: channel_update_order) }
qed (auto simp: removeReceiveCallback_def removeSendCallback_def newSelectCall_def newCoroutine_def intro: receive_order send_order
    intro!: channel_update_order remove_order elim: channels_ok_cong)

lemmas order_kept = order.kept_ExecuteUntilAllBlocked order.kept_executeDispatcher order.kept_signalHandler
  order.kept_futureSet order.kept_closeChannel order.kept_closeDispatcher

lemma reachable_channels_ok: "runtime_reachable workflow rt \<Longrightarrow> channels_ok rt"
proof (induction rule: runtime_reachable.induct)
  case (start mem)
  then show ?case by (simp add: newDispatcher_def newCoroutine_def channels_ok_def)
qed (use order_kept in blast)+

text \<open>
  (C39) Channels are queues.  In every state a workflow can reach, whatever its coroutines do with
  channels, selectors and signals, the values a channel accepted are exactly the values it
  delivered followed by those in its buffer; together with the values of blocked senders they
  appear in the order in which they were sent; the buffer does not exceed its size; and
  while receivers are blocked nothing is buffered and no sender is blocked.
\<close>

theorem channels_are_queues:
  assumes "runtime_reachable workflow rt" and "c < length (rt_channels rt)"
  shows "let ch = rt_channels rt ! c in
      ch_accepted ch = ch_delivered ch @ ch_buffer ch
    \<and> subseq (ch_accepted ch @ map callbackValue (ch_blockedSends ch)) (ch_sends ch)
    \<and> int (length (ch_buffer ch)) \<le> max 0 (ch_size ch)
    \<and> (ch_blockedReceives ch \<noteq> [] \<longrightarrow> ch_buffer ch = [] \<and> ch_blockedSends ch = [])"
  using channels_okD [OF reachable_channels_ok [OF assms(1)] assms(2)] unfolding channel_ok_def Let_def by blast

lemma queue_reachable: "runtime_reachable exQueue exQueueState"
  by (rule runtime_reachable.execute [OF runtime_reachable.start queue_executed])

theorem channels_are_queues_witness:
  "runtime_reachable exQueue exQueueState \<and> (let ch = rt_channels exQueueState ! 0 in
     ch_sends ch = map GoInt [1, 2, 3, 4] \<and> ch_accepted ch = map GoInt [1, 2] @ ch_buffer ch
     \<and> subseq (ch_accepted ch @ [GoInt 4]) (map GoInt [1, 2, 3, 4]))"
proof -
  have "0 < length (rt_channels exQueueState)" by (simp add: queue_channel)
  from channels_are_queues [OF queue_reachable this] queue_reachable show ?thesis unfolding Let_def queue_channel by blast
qed

end
