(* ===== verification/Coroutine_Progress.thy ===== *)
theory Coroutine_Progress
  imports Channel_Order
begin

text \<open>
  The dispatcher stops when all coroutines are blocked.  It decides this by the flags
  \<open>keptBlocked\<close>; here it is shown when that decision is right: nothing a coroutine waits for
  has happened, and executing again would change nothing.
\<close>

section \<open>What grows\<close>

definition prefetch_ok :: "'m runtime \<Rightarrow> bool" where
  "prefetch_ok rt \<longleftrightarrow> channels_ok rt \<and> (\<forall>c < length (rt_channels rt). ch_recValue (rt_channels rt ! c) \<noteq> None \<longrightarrow>
     selected c rt \<or> ch_sends (rt_channels rt ! c) \<noteq> [])"

definition grows :: "'m runtime \<Rightarrow> 'm runtime \<Rightarrow> bool" where
  "grows rt rt' \<longleftrightarrow> length (rt_channels rt) \<le> length (rt_channels rt') \<and> rt_corrupted rt \<le> rt_corrupted rt'
     \<and> (\<forall>c < length (rt_channels rt). ch_sends (rt_channels rt ! c) \<noteq> [] \<longrightarrow> ch_sends (rt_channels rt' ! c) \<noteq> [])
     \<and> (\<forall>c. selected c rt \<longrightarrow> selected c rt')
     \<and> d_closed rt' = d_closed rt
     \<and> (prefetch_ok rt \<longrightarrow> prefetch_ok rt')"

lemma grows_trans: "grows rt rt1 \<Longrightarrow> grows rt1 rt2 \<Longrightarrow> grows rt rt2"
  by (auto simp: grows_def)

lemma selected_cong: "map sc_cases (rt_selects rt') = map sc_cases (rt_selects rt) \<Longrightarrow> selected c rt' = selected c rt"
proof -
  have eq: "selected c rt \<longleftrightarrow> (\<exists>cs \<in> set (map sc_cases (rt_selects rt)). \<exists>f. ReceiveCase c f \<in> set cs)" for rt :: "'m runtime"
    by (simp add: selected_iff)
  assume "map sc_cases (rt_selects rt') = map sc_cases (rt_selects rt)"
  then show ?thesis by (simp add: eq)
qed

text \<open>A step that changes one channel.\<close>

lemma grows_channel:
  assumes "rt_channels rt' = (rt_channels rt)[c := ch]" and "c < length (rt_channels rt)"
    and "others rt' = others rt" and "ch_sends (rt_channels rt ! c) \<noteq> [] \<longrightarrow> ch_sends ch \<noteq> []"
    and "channels_ok rt \<Longrightarrow> channels_ok rt'"
    and "prefetch_ok rt \<Longrightarrow> ch_recValue ch \<noteq> None \<Longrightarrow> selected c rt \<or> ch_sends ch \<noteq> []"
  shows "grows rt rt'"
proof -
  have sel: "selected d rt' = selected d rt" for d
    using assms(3) by (intro selected_cong) (simp add: others_def)
  have "prefetch_ok rt'" if "prefetch_ok rt"
    using that assms(1,2,5,6) unfolding prefetch_ok_def by (auto simp: sel nth_list_update)
  then show ?thesis
    using assms(1-4) by (auto simp: grows_def sel nth_list_update others_def)
qed

lemma grows_receive:
  assumes r: "receiveAsyncImpl c cb rt = (r, rt')" and c: "c < length (rt_channels rt)"
  shows "grows rt rt'"
proof -
  have "rt_channels rt' = (rt_channels rt)[c := rt_channels rt' ! c] \<and> ch_sends (rt_channels rt' ! c) = ch_sends (rt_channels rt ! c)
      \<and> ch_recValue (rt_channels rt' ! c) = None"
    by (rule receive_cases [OF r c]) (use c in \<open>simp_all add: receive_effects\<close>)
  then show ?thesis
    using c receive_order [OF _ c r] receiveAsyncImpl_others [OF r] by (intro grows_channel [where c = c]) auto
qed

lemma grows_send:
  assumes r: "sendAsyncImpl c v p rt = (r, rt')" and c: "c < length (rt_channels rt)" and p: "p = None \<or> callbackValue (the p) = v"
  shows "grows rt rt'"
proof -
  have "rt_channels rt' = (rt_channels rt)[c := rt_channels rt' ! c]
      \<and> (ch_sends (rt_channels rt ! c) \<noteq> [] \<longrightarrow> ch_sends (rt_channels rt' ! c) \<noteq> [])
      \<and> ch_recValue (rt_channels rt' ! c) = ch_recValue (rt_channels rt ! c)"
    by (rule send_cases [OF r c]) (use c in \<open>simp_all add: send_effects split: option.split\<close>)
  then show ?thesis
    using c send_order [OF _ c r p] sendAsyncImpl_others [OF r]
    by (intro grows_channel [where c = c]) (auto simp: prefetch_ok_def)
qed

text \<open>A value that was received and is put back had been sent.\<close>

lemma grows_put_back:
  assumes r: "receiveAsyncImpl c None rt = ((v, True, m), rt')" and c: "c < length (rt_channels rt)"
  shows "grows rt (updChannel c (ch_recValue_update (\<lambda>_. Some v)) rt')"
proof -
  define ch where "ch = rt_channels rt' ! c"
  have ch: "rt_channels rt' = (rt_channels rt)[c := ch] \<and> ch_sends ch = ch_sends (rt_channels rt ! c)
      \<and> (ch_recValue (rt_channels rt ! c) = None \<longrightarrow> ch_delivered ch \<noteq> [])"
    unfolding ch_def by (rule receive_cases [OF r c]) (use c in \<open>simp_all add: receive_effects\<close>)
  have ok: "channels_ok rt'" if "channels_ok rt" using that by (rule receive_order [OF _ c r])
  have sent: "selected c rt \<or> ch_sends ch \<noteq> []" if pre: "prefetch_ok rt"
  proof (cases "ch_recValue (rt_channels rt ! c)")
    case None
    have "channel_ok ch" using ok pre c ch channels_okD [of rt' c] by (simp add: prefetch_ok_def)
    then show ?thesis using ch None by (auto simp: channel_ok_def)
  qed (use pre c ch in \<open>simp add: prefetch_ok_def\<close>)
  let ?rt = "updChannel c (ch_recValue_update (\<lambda>_. Some v)) rt'"
  have "rt_channels ?rt = (rt_channels rt)[c := ch\<lparr>ch_recValue := Some v\<rparr>]" using ch c by simp
  moreover have "channels_ok ?rt" if "channels_ok rt" by (rule channel_update_order [OF ok [OF that]]) simp
  ultimately show ?thesis
    using c ch sent receiveAsyncImpl_others [OF r]
    by (intro grows_channel [where c = c and ch = "ch\<lparr>ch_recValue := Some v\<rparr>"]) simp_all
qed

lemma grows_same:
  assumes "rt_channels rt' = rt_channels rt" and "rt_corrupted rt \<le> rt_corrupted rt'" and "d_closed rt' = d_closed rt"
    and "\<And>c. selected c rt \<Longrightarrow> selected c rt'"
  shows "grows rt rt'"
  using assms by (auto simp: grows_def prefetch_ok_def channels_ok_def)

interpretation growth: dispatcher_steps "grows :: 'm runtime \<Rightarrow> 'm runtime \<Rightarrow> bool"
proof
  fix rt rt1 rt2 rt' :: "'m runtime" and s dc sz cs e k c v b b'
  show "grows rt rt" by (rule grows_same) simp_all
  show "grows rt rt1 \<Longrightarrow> grows rt1 rt2 \<Longrightarrow> grows rt rt2" by (rule grows_trans)
  show "grows rt (rt\<lparr>rt_corrupted := Suc (rt_corrupted rt)\<rparr>)" by (rule grows_same) (simp_all add: selected_iff)
  show "grows rt (rt\<lparr>d_coroutines := cs\<rparr>)" by (rule grows_same) (simp_all add: selected_iff)
  show "grows rt (rt\<lparr>d_executing := e\<rparr>)" by (rule grows_same) (simp_all add: selected_iff)
  show "grows rt (newCoroutine (Executing k) rt)" by (rule grows_same) (simp_all add: selected_iff newCoroutine_def)
  show "grows rt (snd (newSelectCall s rt))" by (rule grows_same) (auto simp: selected_iff newSelectCall_def)
  show "grows rt (snd (newChannel dc sz rt))"
    by (auto simp: grows_def newChannel_def prefetch_ok_def channels_ok_def channel_ok_def selected_iff nth_append)
  show "rt_channels rt' = rt_channels rt \<Longrightarrow> rt_corrupted rt' = rt_corrupted rt \<Longrightarrow>
      map sc_cases (rt_selects rt') = map sc_cases (rt_selects rt) \<Longrightarrow> d_closed rt' = d_closed rt \<Longrightarrow> grows rt rt'"
    by (rule grows_same) (simp_all add: selected_cong [of rt' rt])
  assume c: "c < length (rt_channels rt)"
  show "receiveAsyncImpl c cb rt = (r, rt') \<Longrightarrow> grows rt rt'" for cb r by (rule grows_receive [OF _ c])
  show "receiveAsyncImpl c None rt = ((v, True, m), rt') \<Longrightarrow> grows rt (updChannel c (ch_recValue_update (\<lambda>_. Some v)) rt')" for m
    by (rule grows_put_back [OF _ c])
  show "sendAsyncImpl c v p rt = (x, rt') \<Longrightarrow> p = None \<or> callbackValue (the p) = v \<Longrightarrow> grows rt rt'" for p x
    by (rule grows_send [OF _ c])
  show "grows rt (updChannel c (ch_closed_update (\<lambda>_. True)) rt)"
    using c by (intro grows_channel [where c = c, OF rt_channels_upd(1)]) (simp_all add: channel_update_order prefetch_ok_def)
  show "selected c rt \<Longrightarrow> grows rt (updChannel c (ch_recValue_update (\<lambda>_. Some v)) rt)"
    using c by (intro grows_channel [where c = c, OF rt_channels_upd(1)]) (simp_all add: channel_update_order)
  show "grows rt (removeReceiveCallback c b rt)" "grows rt (removeSendCallback c b' rt)"
    unfolding removeReceiveCallback_def removeSendCallback_def
    using c by (intro grows_channel [where c = c, OF rt_channels_upd(1)]; simp add: channel_update_order remove_order prefetch_ok_def)+
qed

text \<open>The code of a coroutine changes the coroutines only by starting new ones.\<close>

definition forks :: "'m runtime \<Rightarrow> 'm runtime \<Rightarrow> bool" where
  "forks rt rt' \<longleftrightarrow> (\<exists>new. d_coroutines rt' = d_coroutines rt @ new \<and> d_sequence rt' = d_sequence rt + length new
     \<and> (\<forall>self \<in> set new. \<exists>k. self = newState (Executing k))) \<and> d_executing rt' = d_executing rt"

lemma forks_same: "d_coroutines rt' = d_coroutines rt \<Longrightarrow> d_sequence rt' = d_sequence rt \<Longrightarrow>
    d_executing rt' = d_executing rt \<Longrightarrow> forks rt rt'"
  by (simp add: forks_def)

lemma forks_others: "others rt' = others rt \<Longrightarrow> forks rt rt'"
  by (rule forks_same) (simp_all add: others_def)

interpretation forking: runtime_steps "forks :: 'm runtime \<Rightarrow> 'm runtime \<Rightarrow> bool"
proof
  fix rt rt1 rt2 rt' :: "'m runtime" and k c v m
  show "forks rt rt1 \<Longrightarrow> forks rt1 rt2 \<Longrightarrow> forks rt rt2"
    unfolding forks_def by fastforce
  show "forks rt (newCoroutine (Executing k) rt)"
    by (auto simp: forks_def newCoroutine_def)
  show "receiveAsyncImpl c None rt = ((v, True, m), rt') \<Longrightarrow> forks rt (updChannel c (ch_recValue_update (\<lambda>_. Some v)) rt')"
    by (rule forks_others) (auto dest: runtime_frames)
qed (auto intro: forks_same forks_others simp: newSelectCall_def newChannel_def removeReceiveCallback_def removeSendCallback_def
    dest: runtime_frames)

section \<open>Blocked coroutines\<close>

definition idle :: "channelImpl \<Rightarrow> bool" where
  "idle ch \<longleftrightarrow> ch_recValue ch = None \<and> ch_buffer ch = [] \<and> ch_blockedSends ch = [] \<and> \<not> ch_closed ch"

text \<open>Nothing that the blocking call of the coroutine waits for has happened.\<close>

definition stuck :: "'m runtime \<Rightarrow> 'm coroutineState \<Rightarrow> bool" where
  "stuck rt self \<longleftrightarrow> (case co_control self of
      AtReceive c n p k \<Rightarrow> \<not> rc_hasResult (rt_receives rt ! n)
    | AtSend c n k \<Rightarrow> \<not> rt_sends rt ! n \<and> \<not> ch_closed (rt_channels rt ! c)
    | AtSelect n k \<Rightarrow> sc_readyBranch (rt_selects rt ! n) = None
    | AtAwait condition doneCh k \<Rightarrow> \<not> condition (rt_memory rt) \<and>
        (case doneCh of None \<Rightarrow> True | Some c \<Rightarrow> c < length (rt_channels rt) \<and> idle (rt_channels rt ! c))
    | _ \<Rightarrow> False)"

lemma receive_idle: "idle (rt_channels rt ! c) \<Longrightarrow> receiveAsyncImpl c None rt = ((GoNil, False, True), rt)"
  by (simp add: receiveAsyncImpl_def idle_def)

text \<open>With something that is not a pointer, the loop of \<open>ReceiveAsync\<close> never ends on an empty open channel: there
  is no value to drop, and assigning nothing is an error as well.\<close>

lemma receive_async_never_returns:
  assumes "idle (rt_channels rt ! c)"
  shows "ReceiveAsyncWithMoreFlag c NotPointer rt = None"
proof (rule ccontr)
  assume "ReceiveAsyncWithMoreFlag c NotPointer rt \<noteq> None"
  then obtain x rt' where "ReceiveAsyncWithMoreFlag c NotPointer rt = Some (x, rt')" by auto
  then have "\<not> idle (rt_channels rt ! c)"
    by (induction rule: ReceiveAsync_induct) (auto simp: receive_idle assignValue_def decodeAndAssignValue_def)
  with assms show False by simp
qed

lemma ReceiveAsync_idle:
  "idle (rt_channels rt ! c) \<Longrightarrow> ReceiveAsyncWithMoreFlag c NilPointer rt = Some ((False, True, None), rt)"
  by (subst ReceiveAsyncWithMoreFlag.simps) (simp add: receive_idle assignValue_def decodeAndAssignValue_def)

lemma stuck_resume: "stuck rt self \<Longrightarrow> resume self rt = Some (Inr (self\<lparr>co_keptBlocked := True\<rparr>), rt)"
  by (auto simp: stuck_def resume_def Let_def receiveWait_def sendWait_def selectWait_def awaitLoop_def block_def ReceiveAsync_idle
      split: control.splits option.splits)

text \<open>A function of a selector case that was waited for has not returned.\<close>

definition inBranch :: "'m coroutineState \<Rightarrow> bool" where
  "inBranch self \<longleftrightarrow> list_ex (\<lambda>fr. case fr of SelectFrame n blocked k \<Rightarrow> blocked) (co_frames self)"

definition progressed :: "'m coroutineState \<Rightarrow> bool" where
  "progressed self \<longleftrightarrow> \<not> co_keptBlocked self \<or> inBranch self"

lemma progressed_simps [simp]:
  "progressed (goto k self) = progressed self" "progressed (block b self) = progressed self"
  "progressed (unblocked self)" "progressed (self\<lparr>co_closed := x\<rparr>) = progressed self"
  "progressed (panicked p self) = progressed self"
  "progressed self \<Longrightarrow> progressed (callBranch n x k f self)" "progressed (callBranch n True k f self)"
  by (auto simp: progressed_def goto_def block_def unblocked_def panicked_def callBranch_def inBranch_def)

lemma receiveFrom_progressed:
  "receiveFrom c n p k self rt = Some (Inr self', rt') \<Longrightarrow> progressed self \<Longrightarrow> progressed self'"
  by (auto simp: receiveFrom_def bind_eq_Some_conv split: option.splits prod.splits)

lemma perform_progressed:
  assumes "perform code self rt = Some (Inr self', rt')" and "progressed self"
  shows "progressed self'"
proof (cases code)
  case Return
  then show ?thesis
    using assms by (auto simp: perform_def progressed_def inBranch_def goto_def unblocked_def
        split: list.splits selectFrame.splits if_splits)
next
  case (Receive c p k)
  then show ?thesis
    using assms by (auto simp: perform_def checked_def dest: receiveFrom_progressed split: if_splits prod.splits)
qed (use assms in \<open>auto simp: perform_def checked_def bind_eq_Some_conv sendStart_def sendWait_def selectStart_def selectWait_def
    awaitLoop_def split: if_splits prod.splits sum.splits option.splits\<close>)

lemma runCoroutine_progressed: "runCoroutine self rt = Some (self', rt') \<Longrightarrow> progressed self \<Longrightarrow> progressed self'"
  by (induction rule: runCoroutine_induct) (auto dest: perform_progressed)

text \<open>A coroutine that has just blocked is stuck.\<close>

lemma sendFn_receives: "sendFn b rt = (ok, rt') \<Longrightarrow> rt_receives rt' = rt_receives rt"
  by (cases b) (auto simp: upd_defs split: if_splits)

lemma updChannel_receives [simp]: "rt_receives (updChannel c f rt) = rt_receives rt"
  by (simp add: upd_defs)

lemma takeSend_receives: "takeSend c bs rt = (r, rt') \<Longrightarrow> rt_receives rt' = rt_receives rt"
  by (induction bs arbitrary: rt) (auto dest: sendFn_receives split: prod.splits if_splits)

lemma receive_receives: "receiveAsyncImpl c cb rt = (r, rt') \<Longrightarrow> rt_receives rt' = rt_receives rt"
  by (auto simp: receiveAsyncImpl_def Let_def deliver_def accept_def dest!: takeSend_receives
      split: option.splits list.splits prod.splits if_splits)

lemma receiveLoop_blocked:
  "receiveLoop c n p rt = Some (None, rt') \<Longrightarrow> n < length (rt_receives rt) \<Longrightarrow> \<not> rc_hasResult (rt_receives rt' ! n)"
proof (induction rule: receiveLoop_induct)
  case (stop rt v ok m rt1)
  then show ?case using receive_receives [OF stop(1)] by (auto simp: updReceive_def)
next
  case (drop rt v m rt1 e rt2)
  then show ?case
    using receive_receives [OF drop(1)] by (auto simp: updReceive_def assignValue_def split: sum.splits)
qed

definition awaitsClosing :: "'m runtime \<Rightarrow> 'm coroutineState \<Rightarrow> bool" where
  "awaitsClosing rt self \<longleftrightarrow> (case co_control self of
      AtAwait condition (Some c) k \<Rightarrow>
        c < length (rt_channels rt) \<longrightarrow> ch_sends (rt_channels rt ! c) = [] \<and> \<not> selected c rt
    | _ \<Rightarrow> True)"

lemma awaited_idle:
  assumes "prefetch_ok rt" and "c < length (rt_channels rt)" and "ch_sends (rt_channels rt ! c) = []" and "\<not> selected c rt"
  shows "ch_recValue (rt_channels rt ! c) = None" "ch_buffer (rt_channels rt ! c) = []" "ch_blockedSends (rt_channels rt ! c) = []"
  using assms channels_okD [of rt c] by (auto simp: prefetch_ok_def channel_ok_def)

lemma awaitLoop_blocked:
  assumes t: "awaitLoop condition doneCh k self rt = Some (Inr self', rt')" and b: "co_control self' = AtAwait condition' doneCh' k'"
    and pre: "prefetch_ok rt" and calm: "awaitsClosing rt' self'"
  shows "stuck rt' self' \<and> rt' = rt"
proof (cases doneCh)
  case None
  with t b show ?thesis
    by (auto simp: awaitLoop_def goto_def block_def unblocked_def stuck_def split: if_splits)
next
  case (Some c)
  with t b obtain ok a where c: "c < length (rt_channels rt)" "\<not> condition (rt_memory rt)"
    "ReceiveAsyncWithMoreFlag c NilPointer rt = Some ((ok, True, a), rt')" "self' = block (AtAwait condition doneCh k) self"
    by (auto simp: awaitLoop_def bind_eq_Some_conv goto_def split: if_splits)
  have g: "grows rt rt'" by (rule growth.kept_ReceiveAsync [OF c(3)])
  then have still: "ch_sends (rt_channels rt ! c) = []" "\<not> selected c rt"
    using calm c(1,4) Some by (auto simp: awaitsClosing_def block_def grows_def)
  note idle = awaited_idle [OF pre c(1) still]
  have "\<not> ch_closed (rt_channels rt ! c)"
  proof
    assume "ch_closed (rt_channels rt ! c)"
    then have "receiveAsyncImpl c None rt = ((GoNil, False, False), rt)" using idle by (simp add: receiveAsyncImpl_def)
    then show False using c(3) by (subst (asm) ReceiveAsyncWithMoreFlag.simps) simp
  qed
  with idle have "idle (rt_channels rt ! c)" by (simp add: idle_def)
  moreover from this have "rt' = rt" using ReceiveAsync_idle c(3) by fastforce
  ultimately show ?thesis using c Some by (simp add: stuck_def block_def)
qed

lemma receiveFrom_result:
  assumes "receiveFrom c n p k self rt = Some (r, rt')"
  obtains x where "receiveLoop c n p rt = Some (x, rt')" and "r = Inr (case x of None \<Rightarrow> block (AtReceive c n p k) self
      | Some (u, m, a) \<Rightarrow> goto (k m a) (if u then unblocked self else self))"
  using assms by (auto simp: receiveFrom_def bind_eq_Some_conv split: option.splits)

lemma perform_blocked:
  assumes t: "perform code self rt = Some (Inr self', rt')" and "\<not> co_closed self'" and b: "\<nexists>code. co_control self' = Executing code"
    and pre: "prefetch_ok rt" and calm: "awaitsClosing rt' self'"
  shows "stuck rt' self'"
proof (cases code)
  case Return
  then show ?thesis using assms by (auto simp: perform_def goto_def split: list.splits selectFrame.splits)
next
  case (Receive c p k)
  then obtain rt1 where "receiveFrom c (length (rt_receives rt)) p k self rt1 = Some (Inr self', rt')"
    and n: "length (rt_receives rt) < length (rt_receives rt1)"
    using t by (auto simp: perform_def checked_def newReceiveCall_def split: if_splits)
  then obtain x where x: "receiveLoop c (length (rt_receives rt)) p rt1 = Some (x, rt')"
    and self': "self' = (case x of None \<Rightarrow> block (AtReceive c (length (rt_receives rt)) p k) self
      | Some (u, m, a) \<Rightarrow> goto (k m a) (if u then unblocked self else self))"
    by (blast elim: receiveFrom_result)
  show ?thesis
    using self' b x receiveLoop_blocked [OF _ n] by (cases x) (auto simp: goto_def block_def stuck_def)
next
  case (Await condition doneCh k)
  then show ?thesis
    using assms awaitLoop_blocked [of condition doneCh k self rt self' rt']
    by (auto simp: perform_def awaitLoop_def bind_eq_Some_conv goto_def block_def split: option.splits if_splits)
qed (use t b in \<open>auto simp: perform_def checked_def bind_eq_Some_conv sendStart_def sendWait_def selectStart_def selectWait_def
    goto_def block_def callBranch_def stuck_def split: if_splits prod.splits sum.splits option.splits\<close>)

lemma runCoroutine_waiting: "\<nexists>code. co_control self = Executing code \<Longrightarrow> runCoroutine self rt = Some (self, rt)"
  by (cases "co_control self") (simp_all add: runCoroutine.simps)

lemma runCoroutine_blocked:
  "runCoroutine self rt = Some (self', rt') \<Longrightarrow> \<not> co_closed self' \<Longrightarrow> prefetch_ok rt \<Longrightarrow> awaitsClosing rt' self' \<Longrightarrow>
   (\<nexists>code. co_control self = Executing code) \<longrightarrow> stuck rt self \<Longrightarrow> stuck rt' self'"
proof (induction rule: runCoroutine_induct)
  case (step code self rt self1 rt1)
  have pre: "prefetch_ok rt1" using growth.kept_perform [OF step(3)] step.prems(2) by (simp add: grows_def)
  have "stuck rt1 self1" if "\<nexists>code. co_control self1 = Executing code"
    using perform_blocked [OF step(3)] runCoroutine_waiting [OF that, of rt1] that step by auto
  then show ?case using step.IH step.prems pre by blast
qed (auto simp: panicked_def)

text \<open>A coroutine that has run is blocked or has ended.\<close>

lemma runCoroutine_stopped:
  "runCoroutine self rt = Some (self', rt') \<Longrightarrow> (\<nexists>code. co_control self' = Executing code) \<or> co_closed self'"
  by (induction rule: runCoroutine_induct) (simp_all add: panicked_def)

definition blockedInCall :: "'m coroutineState \<Rightarrow> bool" where
  "blockedInCall self \<longleftrightarrow> (case co_control self of
     Executing _ \<Rightarrow> False | AtStart _ \<Rightarrow> False | AtYield _ \<Rightarrow> False | _ \<Rightarrow> True)"

lemma perform_waiting:
  assumes "perform code self rt = Some (Inr self', rt')" and "\<nexists>code. co_control self' = Executing code" and "\<not> co_closed self'"
  shows "blockedInCall self'"
proof (cases code)
  case Return
  then show ?thesis using assms by (auto simp: perform_def goto_def split: list.splits selectFrame.splits)
next
  case (Receive c p k)
  with assms show ?thesis
    by (auto simp: perform_def checked_def newReceiveCall_def goto_def block_def blockedInCall_def
        elim!: receiveFrom_result split: if_splits option.splits)
next
  case (Await condition doneCh k)
  with assms show ?thesis
    by (cases doneCh) (auto simp: perform_def awaitLoop_def bind_eq_Some_conv goto_def block_def blockedInCall_def split: if_splits)
qed (use assms in \<open>auto simp: perform_def checked_def bind_eq_Some_conv sendStart_def sendWait_def selectStart_def selectWait_def
    goto_def block_def callBranch_def blockedInCall_def split: if_splits prod.splits sum.splits option.splits\<close>)

lemma runCoroutine_waits:
  "runCoroutine self rt = Some (self', rt') \<Longrightarrow> \<not> co_closed self' \<Longrightarrow>
   (\<nexists>code. co_control self = Executing code) \<longrightarrow> blockedInCall self \<Longrightarrow> blockedInCall self'"
proof (induction rule: runCoroutine_induct)
  case (step code self rt self1 rt1)
  then show ?case using perform_waiting [OF step(3)] runCoroutine_waiting [of self1 rt1] by fastforce
qed (auto simp: panicked_def)

end
