(* ===== verification/Dispatcher_Progress.thy ===== *)
theory Dispatcher_Progress
  imports Coroutine_Progress
begin

text \<open>
  When \<open>ExecuteUntilAllBlocked\<close> returns, every coroutine waits for something that has not
  happened, and executing again would change nothing.
\<close>

section \<open>Coroutines between turns\<close>

text \<open>Only the first coroutine, the root of the workflow, yields before its code starts.\<close>

definition startable :: "nat \<Rightarrow> 'm coroutineState \<Rightarrow> bool" where
  "startable i self \<longleftrightarrow> \<not> co_closed self \<and> (case co_control self of
      AtStart k \<Rightarrow> i = 0 \<and> \<not> co_keptBlocked self
    | AtYield k \<Rightarrow> i = 0
    | Executing k \<Rightarrow> \<not> co_keptBlocked self
    | _ \<Rightarrow> True)"

definition coroutines_ok :: "'m runtime \<Rightarrow> bool" where
  "coroutines_ok rt \<longleftrightarrow> (\<forall>i < length (d_coroutines rt). startable i (d_coroutines rt ! i))"

lemma startable_new [simp]: "startable i (newState (Executing k))"
  by (simp add: startable_def newState_def)

lemma startable_blocked: "blockedInCall self \<Longrightarrow> \<not> co_closed self \<Longrightarrow> startable i self"
  by (auto simp: startable_def blockedInCall_def split: control.splits)

lemma startable_earlier: "startable (Suc i) self \<Longrightarrow> startable j self"
  by (auto simp: startable_def split: control.splits)

lemma coroutines_forks:
  assumes "forks rt rt'" and "coroutines_ok rt"
  shows "coroutines_ok rt'"
proof -
  obtain new where "d_coroutines rt' = d_coroutines rt @ new" "\<forall>self \<in> set new. \<exists>k. self = newState (Executing k)"
    using assms(1) by (auto simp: forks_def)
  moreover have "startable i (new ! j)" if "j < length new" for i j
    using that calculation(2) nth_mem [of j new] by fastforce
  ultimately show ?thesis using assms(2) by (auto simp: coroutines_ok_def nth_append)
qed

lemma coroutines_drop:
  assumes "\<And>j. j < length (d_coroutines rt) \<Longrightarrow> j \<noteq> i \<Longrightarrow> startable j (d_coroutines rt ! j)"
  shows "coroutines_ok (dropCoroutine i rt)"
proof -
  have "startable j (d_coroutines rt ! Suc j)" if "i \<le> j" "Suc j < length (d_coroutines rt)" for j
    using assms [of "Suc j"] that by (auto intro: startable_earlier)
  then show ?thesis
    using assms by (auto simp: coroutines_ok_def dropCoroutine_def removeAt_def nth_append min_def)
qed

lemma resume_control:
  assumes "resume self rt = Some (Inr self1, rt1)"
  shows "(\<exists>code. co_control self1 = Executing code) \<or> blockedInCall self1 \<or> (\<exists>k. co_control self = AtStart k \<and> self1 = block (AtYield k) self)"
proof (cases "co_control self")
  case (AtReceive c n p k)
  with assms show ?thesis
    by (auto simp: resume_def receiveWait_def Let_def goto_def block_def blockedInCall_def elim!: receiveFrom_result
        split: if_splits prod.splits sum.splits option.splits)
next
  case (AtAwait condition doneCh k)
  with assms show ?thesis
    by (cases doneCh) (auto simp: resume_def Let_def awaitLoop_def bind_eq_Some_conv goto_def block_def blockedInCall_def
        split: if_splits)
qed (use assms in \<open>auto simp: resume_def Let_def sendWait_def selectWait_def goto_def block_def callBranch_def blockedInCall_def
    split: if_splits option.splits prod.splits\<close>)

lemma forks_length: "forks rt rt' \<Longrightarrow> length (d_coroutines rt) \<le> length (d_coroutines rt')"
  by (auto simp: forks_def)

lemma forks_take: "forks rt rt' \<Longrightarrow> i \<le> length (d_coroutines rt) \<Longrightarrow> take i (d_coroutines rt') = take i (d_coroutines rt)"
  by (auto simp: forks_def)

text \<open>What a turn makes of the coroutines.\<close>

lemma call_result:
  assumes c: "callCoroutine i rt = Some rt1" and i: "i < length (d_coroutines rt)"
  obtains self' rt2 where "forks rt rt2" and "i < length (d_coroutines rt2)"
    and "rt1 = rt2\<lparr>d_coroutines := (d_coroutines rt2)[i := self']\<rparr>"
    and "co_closed self' \<or> blockedInCall self' \<or>
      (\<exists>k. co_control (d_coroutines rt ! i) = AtStart k \<and> self' = block (AtYield k) (d_coroutines rt ! i))"
  using c
proof (cases rule: call_cases)
  case (panic p rt')
  let ?rt2 = "cleanupFrames (pendingFrames (d_coroutines rt ! i)) rt'"
  have "forks rt ?rt2"
    using forking.kept_resume [OF panic(1)] forking.kept_cleanupFrames by (rule forking.step_trans)
  then show ?thesis
    using that [of ?rt2 "panicked p (d_coroutines rt ! i)"] panic(2) i forks_length [of rt ?rt2]
    by (simp add: Let_def panicked_def)
next
  case (run self1 rt' self2 rt2)
  have f: "forks rt rt2"
    using forking.kept_resume [OF run(1)] forking.kept_runCoroutine [OF run(2)] by (rule forking.step_trans)
  have "co_closed self2 \<or> blockedInCall self2 \<or>
      (\<exists>k. co_control (d_coroutines rt ! i) = AtStart k \<and> self2 = block (AtYield k) (d_coroutines rt ! i))"
    using resume_control [OF run(1)] runCoroutine_waits [OF run(2)] run(2) runCoroutine_waiting [of self1 rt']
    by (cases "\<exists>code. co_control self1 = Executing code") (auto simp: block_def)
  then show ?thesis using that [OF f _ run(3)] forks_length [OF f] i by simp
qed

lemma turn_ok:
  assumes ok: "coroutines_ok rt" and i: "i < length (d_coroutines rt)" and t: "turnOf i rt = Some rt1"
  shows "i < length (d_coroutines rt1)" and "take i (d_coroutines rt1) = take i (d_coroutines rt)"
    and "co_closed (d_coroutines rt1 ! i) \<Longrightarrow> coroutines_ok (dropCoroutine i rt1)"
    and "\<not> co_closed (d_coroutines rt1 ! i) \<Longrightarrow> coroutines_ok rt1"
proof -
  have s: "startable i (d_coroutines rt ! i)" using ok i by (simp add: coroutines_ok_def)
  then have "callCoroutine i rt = Some rt1" using t by (simp add: turnOf_def startable_def)
  then obtain self' rt2 where f: "forks rt rt2" and i2: "i < length (d_coroutines rt2)"
    and rt1: "rt1 = rt2\<lparr>d_coroutines := (d_coroutines rt2)[i := self']\<rparr>"
    and self': "co_closed self' \<or> blockedInCall self' \<or>
      (\<exists>k. co_control (d_coroutines rt ! i) = AtStart k \<and> self' = block (AtYield k) (d_coroutines rt ! i))"
    by (rule call_result [OF _ i])
  have ok2: "coroutines_ok rt2" by (rule coroutines_forks [OF f ok])
  show "i < length (d_coroutines rt1)" using i2 rt1 by simp
  show "take i (d_coroutines rt1) = take i (d_coroutines rt)" using forks_take [OF f] i rt1 by simp
  show "coroutines_ok (dropCoroutine i rt1)"
    using ok2 rt1 by (intro coroutines_drop) (auto simp: coroutines_ok_def)
  assume "\<not> co_closed (d_coroutines rt1 ! i)"
  then have "startable i self'"
    using self' s i2 rt1 by (auto simp: startable_blocked) (auto simp: startable_def block_def)
  then show "coroutines_ok rt1" using ok2 i2 rt1 by (auto simp: coroutines_ok_def nth_list_update)
qed

lemma round_ok: "executeRound i b rt = Some ((err, b'), rt') \<Longrightarrow> coroutines_ok rt \<Longrightarrow> coroutines_ok rt'"
  by (induction rule: executeRound_induct) (auto dest: turn_ok)

lemma round_false: "executeRound i b rt = Some ((err, b'), rt') \<Longrightarrow> \<not> b \<Longrightarrow> \<not> b' \<or> err \<noteq> None"
  by (induction rule: executeRound_induct) auto

text \<open>A round in which all coroutines stay blocked replaces them one by one.\<close>

lemma round_prefix:
  "executeRound i b rt = Some ((err, b'), rt') \<Longrightarrow> b' \<Longrightarrow> err = None \<Longrightarrow> coroutines_ok rt \<Longrightarrow> i \<le> length (d_coroutines rt) \<Longrightarrow>
   take i (d_coroutines rt') = take i (d_coroutines rt) \<and> i \<le> length (d_coroutines rt')"
proof (induction rule: executeRound_induct)
  case (closed i b rt rt1)
  then show ?case using round_false [OF closed(4)] by simp
next
  case (blocked i b rt rt1)
  note t = turn_ok [OF blocked.prems(3) blocked(1,2)]
  have r: "take (Suc i) (d_coroutines rt') = take (Suc i) (d_coroutines rt1)" "Suc i \<le> length (d_coroutines rt')"
    using blocked t by auto
  from arg_cong [OF r(1), of "take i"] have "take i (d_coroutines rt') = take i (d_coroutines rt1)" by simp
  then show ?case using t(2) r(2) by simp
qed simp_all

section \<open>A turn that achieves nothing\<close>

lemma assign_corrupted: "assignValue c v p rt = (Inl e, rt') \<Longrightarrow> rt_corrupted rt' = Suc (rt_corrupted rt)"
  by (auto simp: assignValue_def split: sum.splits)

lemma resume_kept:
  assumes t: "resume self rt = Some (Inr self1, rt1)" and b: "blockedInCall self" and np: "\<not> progressed self1"
    and cor: "rt_corrupted rt1 = rt_corrupted rt" and pre: "prefetch_ok rt"
    and calm: "blockedInCall self1 \<Longrightarrow> awaitsClosing rt1 self1"
  shows "stuck rt self \<and> rt1 = rt \<and> self1 = self\<lparr>co_keptBlocked := True\<rparr>"
proof (cases "co_control self")
  case (AtReceive c n p k)
  have "\<not> rc_hasResult (rt_receives rt ! n)"
  proof
    assume r: "rc_hasResult (rt_receives rt ! n)"
    obtain x rt2 where x: "assignValue c (rc_result (rt_receives rt ! n)) p rt = (x, rt2)" by fastforce
    show False
    proof (cases x)
      case (Inl e)
      then have "receiveFrom c n p k (self\<lparr>co_keptBlocked := True\<rparr>) rt2 = Some (Inr self1, rt1)"
        using t AtReceive r x by (simp add: resume_def receiveWait_def)
      from growth.kept_receiveFrom [OF this] show False
        using assign_corrupted [of c _ p rt e rt2] x Inl cor by (simp add: grows_def)
    qed (use t AtReceive r x np in \<open>auto simp: resume_def receiveWait_def\<close>)
  qed
  then show ?thesis using t AtReceive by (auto simp: resume_def receiveWait_def block_def stuck_def)
next
  case (AtAwait condition doneCh k)
  then have a: "awaitLoop condition doneCh k (self\<lparr>co_keptBlocked := True\<rparr>) rt = Some (Inr self1, rt1)"
    using t by (simp add: resume_def)
  then have self1: "self1 = block (AtAwait condition doneCh k) (self\<lparr>co_keptBlocked := True\<rparr>)"
    using np by (cases doneCh) (auto simp: awaitLoop_def bind_eq_Some_conv split: if_splits)
  then have "stuck rt1 self1 \<and> rt1 = rt"
    using calm by (intro awaitLoop_blocked [OF a _ pre]) (auto simp: block_def blockedInCall_def)
  then show ?thesis using self1 AtAwait by (auto simp: stuck_def block_def)
qed (use t b np in \<open>auto simp: resume_def Let_def sendWait_def selectWait_def blockedInCall_def block_def stuck_def
    split: if_splits option.splits prod.splits\<close>)

lemma stuck_coroutines [simp]: "stuck (rt\<lparr>d_coroutines := cs\<rparr>) self = stuck rt self" "stuck (rt\<lparr>d_executing := e\<rparr>) self = stuck rt self"
  by (simp_all add: stuck_def split: control.split option.split)

lemma stuck_kept [simp]: "stuck rt (self\<lparr>co_keptBlocked := x\<rparr>) = stuck rt self"
  by (simp add: stuck_def)

lemma awaits_coroutines [simp]: "awaitsClosing (rt\<lparr>d_coroutines := cs\<rparr>) self = awaitsClosing rt self"
   "awaitsClosing (rt\<lparr>d_executing := e\<rparr>) self = awaitsClosing rt self"
  by (simp_all add: awaitsClosing_def selected_iff split: control.split option.split)

lemma awaits_grows: "awaitsClosing rt' self \<Longrightarrow> grows rt rt' \<Longrightarrow> awaitsClosing rt self"
  by (auto simp: awaitsClosing_def grows_def split: control.splits option.splits)

lemma turn_kept:
  assumes c: "callCoroutine i rt = Some rt1" and i: "i < length (d_coroutines rt)" and s: "startable i (d_coroutines rt ! i)"
    and kept: "\<not> co_closed (d_coroutines rt1 ! i)" "co_keptBlocked (d_coroutines rt1 ! i)" "co_frames (d_coroutines rt1 ! i) = []"
    and cor: "rt_corrupted rt1 = rt_corrupted rt" and pre: "prefetch_ok rt" and calm: "awaitsClosing rt1 (d_coroutines rt1 ! i)"
  shows "stuck rt1 (d_coroutines rt1 ! i) \<and>
    (i \<noteq> 0 \<longrightarrow> rt1 = rt\<lparr>d_coroutines := (d_coroutines rt)[i := (d_coroutines rt ! i)\<lparr>co_keptBlocked := True\<rparr>]\<rparr>)"
  using c
proof (cases rule: call_cases)
  case (panic p rt')
  let ?rt = "cleanupFrames (pendingFrames (d_coroutines rt ! i)) rt'"
  have "forks rt ?rt"
    using forking.kept_resume [OF panic(1)] forking.kept_cleanupFrames by (rule forking.step_trans)
  then have "i < length (d_coroutines ?rt)" using i forks_length [of rt ?rt] by simp
  then show ?thesis using kept(1) panic(2) by (simp add: Let_def panicked_def)
next
  case (run self1 rt2 self2 rt3)
  let ?self = "d_coroutines rt ! i"
  have f: "forks rt rt3"
    using forking.kept_resume [OF run(1)] forking.kept_runCoroutine [OF run(2)] by (rule forking.step_trans)
  then have self2: "d_coroutines rt1 ! i = self2" using run(3) i forks_length [OF f] by simp
  then have np: "\<not> progressed self1"
    using kept(2,3) runCoroutine_progressed [OF run(2)] by (auto simp: progressed_def inBranch_def)
  have g: "grows rt rt2" "grows rt2 rt3" by (rule growth.kept_resume [OF run(1)], rule growth.kept_runCoroutine [OF run(2)])
  consider (yield) k where "co_control ?self = AtYield k" "i = 0" | (blocked) "blockedInCall ?self"
    using s np run(1) by (cases "co_control ?self")
      (auto simp: startable_def resume_def blockedInCall_def progressed_def block_def)
  then show ?thesis
  proof cases
    case yield
    then have "rt2 = rt" "co_control self1 = Executing k" using run(1) by (auto simp: resume_def goto_def)
    then have "stuck rt3 self2"
      using runCoroutine_blocked [OF run(2)] kept(1) calm pre self2 run(3) by simp
    then show ?thesis using yield self2 run(3) by simp
  next
    case blocked
    have "awaitsClosing rt2 self1" if "blockedInCall self1"
    proof -
      have "\<nexists>code. co_control self1 = Executing code" using that by (auto simp: blockedInCall_def)
      then have "self2 = self1 \<and> rt3 = rt2" using runCoroutine_waiting [of self1 rt2] run(2) by simp
      then show ?thesis using calm self2 run(3) by simp
    qed
    moreover have "rt_corrupted rt2 = rt_corrupted rt" using g cor run(3) by (simp add: grows_def)
    ultimately have r: "stuck rt ?self" "rt2 = rt" "self1 = ?self\<lparr>co_keptBlocked := True\<rparr>"
      using resume_kept [OF run(1) blocked np _ pre] by blast+
    then have "\<nexists>code. co_control self1 = Executing code" using blocked by (auto simp: blockedInCall_def)
    then have "self2 = self1 \<and> rt3 = rt2" using runCoroutine_waiting [of self1 rt2] run(2) by simp
    then show ?thesis using r run(3) self2 by simp
  qed
qed

section \<open>The last round\<close>

definition calm :: "'m runtime \<Rightarrow> bool" where
  "calm rt \<longleftrightarrow> list_all (\<lambda>self. co_frames self = [] \<and> awaitsClosing rt self) (d_coroutines rt)"

definition settled :: "'m runtime \<Rightarrow> 'm coroutineState \<Rightarrow> bool" where
  "settled rt self \<longleftrightarrow> stuck rt self \<and> co_keptBlocked self \<and> \<not> co_closed self"

lemma round_settled:
  "executeRound i b rt = Some ((err, b'), rt') \<Longrightarrow> b' \<Longrightarrow> err = None \<Longrightarrow> coroutines_ok rt \<Longrightarrow> prefetch_ok rt \<Longrightarrow>
   rt_corrupted rt' = rt_corrupted rt \<Longrightarrow> calm rt' \<Longrightarrow> i \<le> length (d_coroutines rt) \<Longrightarrow>
   list_all (settled rt) (take i (d_coroutines rt)) \<Longrightarrow> list_all (settled rt') (d_coroutines rt')"
proof (induction rule: executeRound_induct)
  case (closed i b rt rt1)
  then show ?case using round_false [OF closed(4)] by simp
next
  case (blocked i b rt rt1)
  note ok = turn_ok [OF blocked.prems(3) blocked(1,2)]
  have s: "startable i (d_coroutines rt ! i)" using blocked(1) blocked.prems(3) by (simp add: coroutines_ok_def)
  then have c: "callCoroutine i rt = Some rt1" using blocked(2) by (simp add: turnOf_def startable_def)
  have g: "grows rt rt1" "grows rt1 rt'"
    by (rule growth.kept_callCoroutine [OF c], rule growth.kept_executeRound [OF blocked(4)])
  have pre: "prefetch_ok rt1" and cor: "rt_corrupted rt1 = rt_corrupted rt"
    using g blocked.prems(4,5) by (auto simp: grows_def)
  have kept: "co_keptBlocked (d_coroutines rt1 ! i)" using round_false [OF blocked(4)] blocked.prems(1,2) by auto
  let ?self = "d_coroutines rt1 ! i"
  from round_prefix [OF blocked(4) blocked.prems(1,2) ok(4)] blocked(3) ok(1)
  have "take (Suc i) (d_coroutines rt') = take (Suc i) (d_coroutines rt1)" "Suc i \<le> length (d_coroutines rt')" by auto
  then have self: "?self \<in> set (d_coroutines rt')"
    by (metis Suc_le_lessD in_set_conv_nth lessI nth_take)
  then have "co_frames ?self = []" "awaitsClosing rt1 ?self"
    using blocked.prems(6) awaits_grows [OF _ g(2)] by (auto simp: calm_def list_all_iff)
  then have k: "stuck rt1 ?self" "i \<noteq> 0 \<Longrightarrow> rt1 = rt\<lparr>d_coroutines := (d_coroutines rt)[i := (d_coroutines rt ! i)\<lparr>co_keptBlocked := True\<rparr>]\<rparr>"
    using turn_kept [OF c blocked(1) s blocked(3) kept _ cor blocked.prems(4)] by blast+
  have "list_all (settled rt1) (take i (d_coroutines rt1))"
  proof (cases "i = 0")
    case False
    then show ?thesis using k(2) blocked.prems(8) ok(2) by (simp add: settled_def [abs_def])
  qed simp
  then have "list_all (settled rt1) (take (Suc i) (d_coroutines rt1))"
    using k(1) kept blocked(3) ok(1) by (simp add: take_Suc_conv_app_nth settled_def)
  then show ?case using blocked.IH blocked.prems pre cor ok(1,4) blocked(3) by simp
qed (simp_all add: list_all_iff)

text \<open>Executing coroutines that are all settled changes nothing.\<close>

lemma call_settled:
  assumes "settled rt (d_coroutines rt ! i)"
  shows "callCoroutine i rt = Some rt"
proof -
  let ?self = "d_coroutines rt ! i"
  have "?self\<lparr>co_keptBlocked := True\<rparr> = ?self" using assms by (simp add: settled_def)
  moreover have "\<nexists>code. co_control ?self = Executing code" using assms by (auto simp: settled_def stuck_def)
  ultimately show ?thesis
    using assms stuck_resume [of rt ?self] runCoroutine_waiting [of ?self rt] by (simp add: callCoroutine_def settled_def)
qed

lemma executeRound_settled: "list_all (settled rt) (d_coroutines rt) \<Longrightarrow> executeRound i True rt = Some ((None, True), rt)"
proof (induction "length (d_coroutines rt) - i" arbitrary: i)
  case 0
  then show ?case by (simp add: executeRound_unfold)
next
  case (Suc n)
  then have s: "settled rt (d_coroutines rt ! i)" "i < length (d_coroutines rt)" by (simp_all add: list_all_length)
  then have "turnOf i rt = Some rt" using call_settled [OF s(1)] by (simp add: turnOf_def settled_def)
  then show ?case
    using Suc.hyps(1) [of "Suc i"] Suc.hyps(2) Suc.prems s by (simp add: executeRound_unfold [of i] settled_def)
qed

lemma loop_settled:
  "executeLoop rt = Some (err, rt') \<Longrightarrow> err = None \<Longrightarrow> coroutines_ok rt \<Longrightarrow> prefetch_ok rt \<Longrightarrow>
   rt_corrupted rt' = rt_corrupted rt \<Longrightarrow> calm rt' \<Longrightarrow> list_all (settled rt') (d_coroutines rt')"
proof (induction rule: executeLoop_induct)
  case (stop rt b)
  then show ?case by (cases "d_coroutines rt' = []") (auto intro: round_settled [OF stop(1)])
next
  case (again rt b rt1)
  have "grows rt rt1" by (rule growth.kept_executeRound [OF again(1)])
  moreover have "grows rt1 rt'" by (rule growth.kept_executeLoop [OF again(4)])
  ultimately show ?case using again round_ok [OF again(1)] by (auto simp: grows_def)
qed simp

section \<open>Every state that a workflow reaches\<close>

definition runtime_ok :: "'m runtime \<Rightarrow> bool" where
  "runtime_ok rt \<longleftrightarrow> prefetch_ok rt \<and> (d_closed rt \<or> coroutines_ok rt)"

lemma runtime_ok_step: "grows rt rt' \<Longrightarrow> forks rt rt' \<Longrightarrow> runtime_ok rt \<Longrightarrow> runtime_ok rt'"
  using coroutines_forks by (auto simp: runtime_ok_def grows_def)

lemma executing_simps [simp]:
  "prefetch_ok (rt\<lparr>d_executing := e\<rparr>) = prefetch_ok rt" "coroutines_ok (rt\<lparr>d_executing := e\<rparr>) = coroutines_ok rt"
  "calm (rt\<lparr>d_executing := e\<rparr>) = calm rt" "settled (rt\<lparr>d_executing := e\<rparr>) self = settled rt self"
  by (simp_all add: prefetch_ok_def channels_ok_def selected_iff coroutines_ok_def calm_def settled_def)

lemma loop_ok: "executeLoop rt = Some (err, rt') \<Longrightarrow> coroutines_ok rt \<Longrightarrow> coroutines_ok rt'"
  by (induction rule: executeLoop_induct) (auto dest: round_ok)

lemma execute_ok:
  assumes "ExecuteUntilAllBlocked rt = Some (r, rt')" and "runtime_ok rt"
  shows "runtime_ok rt'"
  using assms(2) growth.kept_ExecuteUntilAllBlocked [OF assms(1)] assms(1)
  by (auto simp: runtime_ok_def grows_def ExecuteUntilAllBlocked_def bind_eq_Some_conv dest!: loop_ok split: if_splits)

lemma dispatch_ok:
  assumes t: "executeDispatcher rt = Some (x, rt')" and ok: "runtime_ok rt"
  shows "runtime_ok rt'"
proof -
  obtain r rt1 where e: "ExecuteUntilAllBlocked rt = Some (r, rt1)"
    using t by (auto simp: executeDispatcher_def bind_eq_Some_conv)
  then have "rt' = rt1 \<or> rt' = snd (getUnhandledSignalNames rt1)"
    using t by (auto simp: executeDispatcher_def split: sum.splits option.splits)
  moreover have "runtime_ok (snd (getUnhandledSignalNames rt1))"
    using growth.kept_getUnhandledSignalNames forking.kept_getUnhandledSignalNames execute_ok [OF e ok]
    by (blast intro: runtime_ok_step)
  ultimately show ?thesis using execute_ok [OF e ok] by auto
qed

lemma close_ok:
  assumes "runtime_ok rt"
  shows "runtime_ok (closeDispatcher rt)"
proof (cases "d_closed rt")
  case False
  let ?rt = "rt\<lparr>d_closed := True, d_coroutines := map exitCoroutine (d_coroutines rt)\<rparr>"
  have "grows ?rt (closeDispatcher rt)"
    using False growth.kept_fold [OF growth.kept_cleanupFrames] by (simp add: closeDispatcher_def)
  moreover have "prefetch_ok ?rt" using assms by (simp add: runtime_ok_def prefetch_ok_def channels_ok_def selected_iff)
  ultimately show ?thesis by (simp add: runtime_ok_def grows_def)
qed (use assms in \<open>simp add: closeDispatcher_def\<close>)

lemma reachable_ok: "runtime_reachable workflow rt \<Longrightarrow> runtime_ok rt"
proof (induction rule: runtime_reachable.induct)
  case (start mem)
  then show ?case
    by (simp add: runtime_ok_def newDispatcher_def newCoroutine_def newState_def prefetch_ok_def channels_ok_def coroutines_ok_def startable_def)
next
  case (signal rt dc name v)
  then show ?case using growth.kept_signalHandler forking.kept_signalHandler by (blast intro: runtime_ok_step)
next
  case (set rt f u err)
  then show ?case using growth.kept_futureSet forking.kept_futureSet by (blast intro: runtime_ok_step)
next
  case (cancel rt c)
  then show ?case using growth.kept_closeChannel forking.kept_closeChannel by (blast intro: runtime_ok_step)
qed (blast intro: execute_ok dispatch_ok close_ok)+

text \<open>
  (C40) When the dispatcher stops, nothing more can run.  For every state a workflow can reach, if
  \<open>ExecuteUntilAllBlocked\<close> returns without a panic, then every coroutine left is stuck: the result
  its receive waits for, the receiver its send waits for, the ready branch its \<open>Select\<close> waits for
  or the condition of its \<open>Await\<close> has not come; and executing again at once changes nothing.
  The conditions are those under which the flags \<open>keptBlocked\<close> can be relied on: no corrupted
  value was dropped in this execution, no coroutine is blocked inside the function of a selector
  case, and the channels on which \<open>Await\<close> watches for cancellation have had nothing sent to them
  and are not cases of a selector.  Workflow code may run forever, so that the call
  returns is a condition.
\<close>

theorem all_blocked:
  assumes "runtime_reachable workflow rt" and "ExecuteUntilAllBlocked rt = Some (Inr None, rt')"
    and "rt_corrupted rt' = rt_corrupted rt" and "calm rt'"
  shows "list_all (stuck rt') (d_coroutines rt') \<and> ExecuteUntilAllBlocked rt' = Some (Inr None, rt')"
proof -
  from assms(2) obtain rt1 where open_rt: "\<not> d_closed rt" and l: "executeLoop (rt\<lparr>d_executing := True\<rparr>) = Some (None, rt1)"
    and rt': "rt' = rt1\<lparr>d_executing := False\<rparr>"
    by (auto simp: ExecuteUntilAllBlocked_def bind_eq_Some_conv split: if_splits)
  have ok: "coroutines_ok rt" "prefetch_ok rt" using reachable_ok [OF assms(1)] open_rt by (auto simp: runtime_ok_def)
  have s: "list_all (settled rt1) (d_coroutines rt1)"
    using loop_settled [OF l] ok assms(3,4) rt' by simp
  have "executeLoop (rt1\<lparr>d_executing := True\<rparr>) = Some (None, rt1\<lparr>d_executing := True\<rparr>)"
    using executeRound_settled [of "rt1\<lparr>d_executing := True\<rparr>" 0] s by (subst executeLoop.simps) (simp add: list_all_iff)
  moreover have "\<not> d_closed rt'"
    using growth.kept_ExecuteUntilAllBlocked [OF assms(2)] open_rt by (simp add: grows_def)
  ultimately show ?thesis
    using s rt' by (simp add: ExecuteUntilAllBlocked_def list_all_iff settled_def)
qed

lemma queue_calm: "rt_corrupted exQueueState = rt_corrupted (newDispatcher exQueue [])" "calm exQueueState"
  by code_simp+

theorem all_blocked_witness:
  "length (d_coroutines exQueueState) = 1 \<and> list_all (stuck exQueueState) (d_coroutines exQueueState)
   \<and> ExecuteUntilAllBlocked exQueueState = Some (Inr None, exQueueState)"
proof -
  have "length (d_coroutines exQueueState) = 1" by code_simp
  then show ?thesis
    using all_blocked [OF runtime_reachable.start queue_executed queue_calm] by simp
qed

end
