(* ===== verification/Spec2Isabelle.thy ===== *)
theory Spec2Isabelle
  imports Decision_Properties Environment_Properties Version_Stability Replay_Match Lru_Cache Activity_Options Workflow_Context
    History_Batches Workflow_Task Sticky_Cache Dispatcher_Progress
begin

text \<open>
  A verification development of the Go client of the Cadence workflow service.

  \<^bold>\<open>The program.\<close>  A worker polls the service for \<^emph>\<open>decision tasks\<close>.  A task carries the history of
  a workflow execution, or the part of it the worker has not seen.  The worker replays the
  history through the user's workflow code, which asks for activities, timers, child workflows,
  signals, markers and so on; each request is a \<^emph>\<open>decision\<close>, and the task is answered with the
  decisions the service does not know yet.  Executions stay in a \<^emph>\<open>sticky cache\<close>, so that the next
  task needs only the new events.  Since code is replayed, what it is told must be the same each
  time, and the decisions of a replay are compared with the history.

  \<^bold>\<open>Parts and theories.\<close>  From the bottom up; paths are under \<open>src/internal\<close>.

  \<^item> \<open>Go_Prelude\<close>, \<open>Go_Format\<close>, \<open>Go_Time\<close>: the language and its library.  A method that mutates
    structs and may panic is a state transformer \<open>('s, 'e, 'a) go\<close>; its state survives a panic.
    Strings and numbers as \<open>strconv\<close> and \<open>fmt\<close> print and parse them, durations and \<open>float64\<close> with
    its rounding.  Collections \<open>go_simps\<close>, \<open>go_keeps\<close> and \<open>go_inv\<close> carry the proofs of the components.
  \<^item> \<open>Thrift_Types\<close>, \<open>History_Events\<close>: the structs of \<open>.gen/go/shared/shared.go\<close> that the client
    reads and writes, decisions and history events as tagged unions, and \<open>estimateHistorySize\<close>.
  \<^item> \<open>Decision_Machine\<close>, \<open>Decisions_Helper\<close> (\<open>internal_decision_state_machine.go\<close>): one heap object
    per requested operation with the methods of its Go type, and the collection that owns them.
    \<open>Decision_Lifecycle\<close> has the transition diagrams as an abstract specification,
    \<open>Helper_Refinement\<close> the coherence of list and map and the abstract view \<open>contents\<close>;
    \<open>Decision_Properties\<close> the properties.
  \<^item> \<open>Cadence_Errors\<close> (\<open>error.go\<close>, \<open>internal_utils.go\<close>): errors, their encoding for transport and
    their reconstruction by the receiver.
  \<^item> \<open>Workflow_Environment\<close>, \<open>Event_Handler\<close> (\<open>internal_event_handlers.go\<close>): what workflow code can
    ask for and how events are processed.  \<open>Environment_Runs\<close> has the step relation
    \<open>env_reachable\<close> and the locale \<open>env_invariant\<close>, which lifts an invariant from the primitive steps
    to every command, every handler and whole runs; \<open>Callback_Safety\<close> and \<open>Environment_Progress\<close>
    interpret it; \<open>Environment_Properties\<close>, \<open>Environment_Replay\<close> and \<open>Version_Stability\<close> hold the
    properties, the last with the relation \<open>later\<close> between a state and those that may follow it.
  \<^item> \<open>Replay_Match\<close> (\<open>workflow_replayer_utils.go\<close>): the comparison of replayed decisions with events.
  \<^item> \<open>History_Batches\<close> (\<open>internal_task_handlers.go\<close>, \<open>internal_task_pollers.go\<close>): pages of a history
    and the batches of events, one per decision task, that are replayed together.
  \<^item> \<open>Workflow_Task\<close> (\<open>internal_task_handlers.go\<close>): the context of an execution on a worker,
    processing of a task, the non-determinism policy and the request that answers the task.
  \<^item> \<open>Lru_Cache\<close> (\<open>common/cache/lru.go\<close>) and \<open>Sticky_Cache\<close> (\<open>internal_task_handlers.go\<close>): the
    cache, and on top of it the worker, with lookup, creation, locking and eviction of executions
    as steps (\<open>worker_reachable\<close>) between which other tasks may run.
  \<^item> \<open>Retry_Backoff\<close> (\<open>common/backoff\<close>, \<open>internal_retry.go\<close>): retries of calls to the service.
  \<^item> \<open>Activity_Options\<close> (\<open>workflow.go\<close>, \<open>convert.go\<close>, \<open>internal_activity.go\<close>): options, retry
    policies, their validation, and retries of local activities.
  \<^item> \<open>Workflow_Context\<close> (\<open>context.go\<close>): values and cancellation of contexts.
  \<^item> \<open>Workflow_Channels\<close>, \<open>Workflow_Coroutines\<close> (\<open>internal_workflow.go\<close>, \<open>workflow.go\<close>): channels,
    futures, selectors and wait groups of workflow code on a heap of objects, the blocking calls,
    and the dispatcher that gives coroutines their turns.  \<open>Runtime_Steps\<close> has induction rules for
    the loops that may not end, and the locales \<open>runtime_steps\<close>, \<open>dispatcher_steps\<close> and
    \<open>runtime_invariant\<close>, which lift a relation from the primitive steps to whole runs;
    \<open>Channel_Order\<close>, \<open>Coroutine_Progress\<close> and \<open>Dispatcher_Progress\<close> interpret them and hold the
    properties.  \<open>Runtime_Examples\<close> runs small workflows.

  \<^bold>\<open>What is shown.\<close>
  \<^item> Decisions: every machine method implements the diagram of its kind on every branch; the helper
    is coherent in every reachable state; \<open>getDecisions\<close> terminates, equals its reference, and
    hands a decision out once; an operation is found again by its event and leaves the helper; the
    methods that send a decision and answer it can always complete a machine.
  \<^item> Environment: no result callback is called twice in a run (the callbacks that tell that a child
    has started and those of local activities are not counted), activities get the outcome their
    event carries; events never take calls back and never move the replay clock back; versions and
    side effects are answered on replay from the markers they left, and a version stays the same
    unless the history has a marker with another one.
  \<^item> Errors that the sender can encode reach the receiver in a known form (which parts are kept and
    which are lost), and \<open>constructError\<close> panics exactly on the reserved reasons it cannot decode.
  \<^item> Determinism check: the two-index loop equals a reference, and accepts what the code recorded.
  \<^item> History: the batches handed out are independent of how the history is cut into pages, and the
    loops over them end.
  \<^item> Tasks and worker: a task is answered with exactly the pending decisions and at most one closing
    decision; on a worker, however tasks and queries are interleaved, result callbacks are still
    called at most once, and an open execution is cached, in use or waiting to be cleared, unless
    its run has a second context.
  \<^item> Cache: the element store refines a list in order of recency; how many entries it holds.
  \<^item> Retries: delays stay within the policy, rounding and jitter included, and retried calls return.
  \<^item> Options: validation gives complete options and is idempotent, options round trip.
  \<^item> Contexts: cancellation reaches exactly the derived contexts.
  \<^item> Coroutines: channels deliver what they accepted, in sending order; when the dispatcher stops,
    every coroutine waits for something that has not come, under the conditions on which its flags
    can be relied on.

  \<^bold>\<open>Interfaces.\<close>  Locales \<open>env_invariant\<close> (a predicate on environments that the primitive steps keep),
  \<open>context_invariant\<close> (a predicate on environments that the operations of a context keep) and
  \<open>run_store\<close> (what the worker needs of its cache) and those of \<open>Runtime_Steps\<close> are interpreted on
  the model's definitions; the properties of runs, tasks, workers and coroutines rest on the facts
  of these interpretations.

  \<^bold>\<open>Parameters.\<close>  The user's workflow code is a \<open>workflowDefinition\<close> (two computations on the
  environment), constrained where needed to reach the environment only through its interface and
  to pass new closures (\<open>disciplined\<close>).  In the theories of coroutines it is a possibly infinite tree
  of requests (\<open>code\<close>); the two views are not connected.  The data converter, \<open>json.Marshal\<close>, the reflective printers,
  \<open>math.Pow\<close>, \<open>rand.Intn\<close>, the clock and the service are functions.

  \<^bold>\<open>Bounds.\<close>  The loops of the history and the determinism check are total functions with a
  measure; retrying has fuel, and enough fuel is computed from the policy.  Coroutines may run
  forever: their loops are partial functions, and not returning is the value \<open>None\<close>.  The loop over
  local activity results is driven by the list of signals that arrive.  Counters and timeouts
  keep their 32-bit width.  Whole numbers of 64 bits (event IDs, sizes, durations) are \<open>int\<close>, since
  the values the service gives are far from the limits.

  \<^bold>\<open>Not modelled.\<close>  Logging, metrics and tracing; pollers, RPC and worker start and stop (I/O and
  goroutines around the handler modelled here); generated code other than the structs named;
  mocks and the test suite environment; the mappers between thrift and protobuf (field by field
  copies whose target types are generated outside the repository); reflection over user functions;
  stack traces of coroutines, and blocking through the context of another coroutine.  Search
  attributes are merged in a copy, where the code writes into the map it was given.
\<close>

end
